theory Spec2Isabelle
  imports Complex_Main "HOL-Library.AList" "HOL-Library.Sublist"
begin

section \<open>The fabric subscriber (ept\_subscriber.py)\<close>

text \<open>
  A shallow embedding of \<^verbatim>\<open>eptSubscriber\<close>. The subscriber object, the broker, the
  document store and the log are fields of one state record that every method takes and
  returns. A Python exception is a value of \<open>py_error\<close>; a method returns the exception
  it raised (if any) together with the state as it was mutated up to that point.
  Time stamps (\<^verbatim>\<open>time.time()\<close>) are real numbers handed in by the caller.
\<close>

subsection \<open>Python values\<close>

datatype py_error =
    IndexError
  | KeyError string
  | AttributeError
  | TypeError
  | TransportError
  | eptSubscriberExitError

text \<open>Python list indexing: a negative index counts from the end; out of range raises.\<close>

definition py_index :: "'a list \<Rightarrow> int \<Rightarrow> nat option" where
  "py_index xs i =
     (let n = int (length xs); j = (if i < 0 then n + i else i)
      in if 0 \<le> j \<and> j < n then Some (nat j) else None)"

text \<open>The quote character of the module's messages.\<close>

definition apos :: string where
  "apos = [CHR 0x27]"

text \<open>\<^verbatim>\<open>sep.join(xs)\<close>\<close>

fun join :: "string \<Rightarrow> string list \<Rightarrow> string" where
  "join sep [] = []"
| "join sep [x] = x"
| "join sep (x # y # ys) = x @ sep @ join sep (y # ys)"

subsection \<open>Messages\<close>

datatype work_type =
    STD_MO | RAW | FLUSH_CACHE | FABRIC_WATCH_PAUSE | FABRIC_WATCH_RESUME
  | FABRIC_EPM_EOF | SETTINGS_RELOAD | DELETE_EPT | WATCH_NODE
  | EPM_IP_EVENT | EPM_MAC_EVENT | EPM_RS_IP_EVENT

text \<open>The ept collections (\<^verbatim>\<open>eptNode\<close>, ... ) and the local cache of one MO class.\<close>

datatype collection =
    eptNode | eptVpc | eptPc | eptTunnel
  | eptEndpoint | eptHistory | eptEpg | eptVnid | eptSubnet
  | MoCache string

text \<open>The address of a work message: the integer 0 (broadcast) or a string.\<close>

datatype addr_t = AddrInt int | AddrStr string

type_synonym attrs = "(string \<times> string) list"

text \<open>
  The attributes of an event: the dictionary sent by the controller and the time stamp
  \<^verbatim>\<open>_ts\<close> that \<^verbatim>\<open>parse_event\<close> adds to it.
\<close>

record attr_t =
  a_kv :: attrs
  a_ts :: "real option"

text \<open>The \<^verbatim>\<open>data\<close> dictionary of a work message, one constructor per shape the subscriber builds.\<close>

datatype data_t =
    NoData
  | FlushData collection "string option"
  | MoData string attr_t
  | VnidData int
  | EpmData string int int string

text \<open>
  \<^verbatim>\<open>eptMsgWork\<close> and its children: \<open>addr\<close>, \<open>role\<close>, \<open>data\<close>, \<open>wt\<close>, \<open>qnum\<close>, and the
  attributes set afterwards: \<open>fabric\<close>, \<open>seq\<close>, \<open>force\<close>, and, on the messages of the
  EPM parser and on a watch-node message, \<open>vnid\<close>, \<open>node\<close>, \<open>ts\<close>, \<open>status\<close> (zero or
  empty on a message whose class has no such attribute; they are read on no other).
\<close>

record eptMsgWork =
  addr :: addr_t
  role :: "string option"
  data :: data_t
  wt :: work_type
  qnum :: int
  fabric :: string
  seq :: int
  force :: bool
  vnid :: int
  node :: int
  ts :: real
  status :: string

definition mk_eptMsgWork :: "addr_t \<Rightarrow> string option \<Rightarrow> data_t \<Rightarrow> work_type \<Rightarrow> int \<Rightarrow> eptMsgWork" where
  "mk_eptMsgWork a r d w q =
     \<lparr>addr = a, role = r, data = d, wt = w, qnum = q, fabric = [], seq = 0,
      force = False, vnid = 0, node = 0, ts = 0, status = []\<rparr>"

text \<open>
  What \<^verbatim>\<open>jsonify()\<close> puts on the wire: a single work message, an \<^verbatim>\<open>eptMsgBulk\<close> with its
  outer \<open>seq\<close> and its inner messages, or the \<^verbatim>\<open>FABRIC_RESTART\<close> message with its
  \<^verbatim>\<open>data = {fabric, reason}\<close>.
\<close>

datatype wire_msg =
    MsgWork eptMsgWork
  | MsgBulk int "eptMsgWork list"
  | MsgFabricRestart string string
  | MsgHello int

subsection \<open>Workers, statistics, log\<close>

text \<open>
  A \<^verbatim>\<open>TrackedWorker\<close>: its id, the names of its queues, the last sequence number of each
  queue and one lock per queue. The model is sequential, so taking a lock only
  indexes the list of locks.
\<close>

record TrackedWorker =
  worker_id :: string
  queues :: "string list"
  last_seq :: "int list"
  queue_locks :: "unit list"

record eptQueueStats =
  total_tx_msg :: int
  total_rx_msg :: int

datatype log_level = DEBUG | INFO | WARN | ERROR

datatype log_arg = ArgStr string | ArgInt int | ArgReal real | ArgObj

type_synonym log_entry = "log_level \<times> string \<times> log_arg list"

text \<open>Worker objects are shared by reference: the state holds them in a store.\<close>

type_synonym wref = nat

subsection \<open>Documents of the store\<close>

text \<open>
  A document of a collection. Only the endpoint history is read field by field
  (\<open>h_node\<close>, \<open>h_vnid\<close>, \<open>h_addr\<close>, \<open>h_type\<close> and the status of each entry of \<open>events\<close>),
  and of a node its id (\<open>h_node\<close>), \<open>d_name\<close> and \<open>d_role\<close>; \<open>body\<close> stands for the
  other attributes.
\<close>

record doc =
  d_fabric :: string
  d_name :: string
  d_role :: string
  h_node :: int
  h_vnid :: int
  h_addr :: string
  h_type :: string
  h_events :: "string list"
  body :: attrs

subsection \<open>The subscriber\<close>

text \<open>The settings of the fabric (\<^verbatim>\<open>eptSettings\<close>), as far as the subscriber reads them.\<close>

record eptSettings =
  overlay_vnid :: int
  vpc_pair_type :: string
  queue_init_events :: bool
  queue_init_epm_events :: bool

text \<open>The three handlers the subscriber registers with the subscription layer.\<close>

datatype handler = h_handle_event | h_handle_std_mo_event | h_handle_epm_event

text \<open>
  The state: the attributes of the subscriber object, then its collaborators. The broker
  is \<open>redis_lists\<close> (the list keys), \<open>redis_published\<close> (every publish, oldest first)
  and \<open>redis_push_fail\<close> (the outcomes of the coming pushes). The store is \<open>db\<close>,
  with \<open>stored_settings\<close> for what \<^verbatim>\<open>eptSettings.load\<close> returns. \<open>fabric_events\<close> are the
  events added to the fabric. \<open>interests\<close>, \<open>subscription_alive\<close>, \<open>failure_reason\<close> and
  \<open>unsubscribe_raises\<close> are the subscription layer. \<open>logged\<close> is what the module's
  logger received.
\<close>

record subscriber =
  self_fabric :: string
  settings :: eptSettings
  initializing :: bool
  epm_initializing :: bool
  stopped :: bool
  soft_restart_ts :: real
  active_workers :: "string \<rightharpoonup> wref list"
  heap :: "wref \<Rightarrow> TrackedWorker"
  queue_stats :: "string \<rightharpoonup> eptQueueStats"
  watcher_broadcast_seq :: int
  worker_broadcast_seq :: int
  epm_eof_tracking :: "(string \<times> bool) list option"
  epm_eof_start :: "real option"
  epm_event_queue :: "eptMsgWork option list"
  std_mo_event_queue :: "eptMsgWork list"
  redis_lists :: "string \<Rightarrow> wire_msg list"
  redis_published :: "(string \<times> wire_msg) list"
  redis_push_fail :: "bool list"
  db :: "collection \<Rightarrow> doc list"
  stored_settings :: eptSettings
  fabric_events :: "(string \<times> string) list"
  interests :: "(string \<times> handler \<times> bool) list"
  subscription_alive :: bool
  failure_reason :: "string option"
  unsubscribe_raises :: bool
  hello_seq :: int
  logged :: "log_entry list"

definition logger :: "log_level \<Rightarrow> string \<Rightarrow> log_arg list \<Rightarrow> subscriber \<Rightarrow> subscriber" where
  "logger lvl fmt args s = s\<lparr>logged := logged s @ [(lvl, fmt, args)]\<rparr>"

text \<open>\<^verbatim>\<open>self.fabric.add_fabric_event(status, description)\<close>\<close>

definition add_fabric_event :: "string \<Rightarrow> string \<Rightarrow> subscriber \<Rightarrow> subscriber" where
  "add_fabric_event st descr s = s\<lparr>fabric_events := fabric_events s @ [(st, descr)]\<rparr>"

text \<open>The names of the broker's channels.\<close>

definition WATCHER_BROADCAST_CHANNEL :: string where "WATCHER_BROADCAST_CHANNEL = ''watcher_broadcast''"
definition WORKER_BROADCAST_CHANNEL :: string where "WORKER_BROADCAST_CHANNEL = ''worker_broadcast''"
definition WORKER_CTRL_CHANNEL :: string where "WORKER_CTRL_CHANNEL = ''worker_ctrl''"
definition MANAGER_CTRL_CHANNEL :: string where "MANAGER_CTRL_CHANNEL = ''manager_ctrl''"

subsection \<open>The broker\<close>

text \<open>
  \<^verbatim>\<open>redis.rpush\<close> / \<^verbatim>\<open>redis.lpush\<close>: the next entry of \<open>redis_push_fail\<close> says whether this
  push fails with a transport error (no entry left: it succeeds). \<open>True\<close> is returned on
  success.
\<close>

definition redis_push :: "bool \<Rightarrow> string \<Rightarrow> wire_msg \<Rightarrow> subscriber \<Rightarrow> bool \<times> subscriber" where
  "redis_push prepend k v s =
     (case redis_push_fail s of
        [] \<Rightarrow> (True, s\<lparr>redis_lists := (redis_lists s)
                  (k := (if prepend then v # redis_lists s k else redis_lists s k @ [v]))\<rparr>)
      | b # bs \<Rightarrow>
          (if b then (False, s\<lparr>redis_push_fail := bs\<rparr>)
           else (True, s\<lparr>redis_push_fail := bs,
                         redis_lists := (redis_lists s)
                  (k := (if prepend then v # redis_lists s k else redis_lists s k @ [v]))\<rparr>)))"

definition redis_publish :: "string \<Rightarrow> wire_msg \<Rightarrow> subscriber \<Rightarrow> subscriber" where
  "redis_publish channel v s = s\<lparr>redis_published := redis_published s @ [(channel, v)]\<rparr>"

subsection \<open>increment\_stats\<close>

definition increment_stats :: "string \<Rightarrow> bool \<Rightarrow> int \<Rightarrow> subscriber \<Rightarrow> py_error option \<times> subscriber" where
  "increment_stats queue tx count s =
     (case queue_stats s queue of
        None \<Rightarrow> (None, s)
      | Some q \<Rightarrow>
          (let q' = (if tx then q\<lparr>total_tx_msg := total_tx_msg q + count\<rparr>
                     else q\<lparr>total_rx_msg := total_rx_msg q + count\<rparr>);
               s1 = s\<lparr>queue_stats := (queue_stats s)(queue \<mapsto> q')\<rparr>
           in case queue_stats s1 ''total'' of
                None \<Rightarrow> (Some (KeyError ''total''), s1)
              | Some t \<Rightarrow>
                  (let t' = (if tx then t\<lparr>total_tx_msg := total_tx_msg t + count\<rparr>
                             else t\<lparr>total_rx_msg := total_rx_msg t + count\<rparr>)
                   in (None, s1\<lparr>queue_stats := (queue_stats s1)(''total'' \<mapsto> t')\<rparr>))))"

subsection \<open>send\_msg\<close>

text \<open>
  The dictionary \<^verbatim>\<open>work\<close>, indexed by worker id and then by queue number, in insertion
  order. An entry holds the worker and its list of \<^verbatim>\<open>eptMsgBulk\<close> objects; the list is
  created with one empty bulk and only ever grows at its end, so it is kept as the bulks
  already full and the last bulk, both as lists of messages.
\<close>

type_synonym work_entry = "wref \<times> eptMsgWork list list \<times> eptMsgWork list"
type_synonym work_t = "(string \<times> (int \<times> work_entry) list) list"

text \<open>
  Lines 372 to 378: create the entries that are missing, open a new bulk when the last
  one holds \<open>MAX_SEND_MSG_LENGTH\<close> messages, append the message to the last bulk.
\<close>

definition work_add :: "nat \<Rightarrow> string \<Rightarrow> int \<Rightarrow> wref \<Rightarrow> eptMsgWork \<Rightarrow> work_t \<Rightarrow> work_t" where
  "work_add MAX_SEND_MSG_LENGTH wid q r m work =
     (let inner = (case map_of work wid of None \<Rightarrow> [] | Some i \<Rightarrow> i);
          e = (case map_of inner q of None \<Rightarrow> (r, [], []) | Some e \<Rightarrow> e);
          e' = (case e of (r0, full, cur) \<Rightarrow>
                  if length cur \<ge> MAX_SEND_MSG_LENGTH then (r0, full @ [cur], [m])
                  else (r0, full, cur @ [m]))
      in AList.update wid (AList.update q e' inner) work)"

text \<open>
  Lines 372 to 383 for one message whose worker and queue number are settled. The
  sequence number is taken before the message is appended, so that the message held in
  \<open>work\<close> carries it, as the shared Python object does. When the body raises, \<open>work\<close>
  is lost with the stack frame.
\<close>

definition send_msg_stamp ::
  "nat \<Rightarrow> wref \<Rightarrow> eptMsgWork \<Rightarrow> work_t \<Rightarrow> subscriber \<Rightarrow> (py_error + work_t) \<times> subscriber" where
  "send_msg_stamp MAX_SEND_MSG_LENGTH r m work s =
     (let worker = heap s r in
      case py_index (queue_locks worker) (qnum m) of
        None \<Rightarrow> (Inl IndexError, s)
      | Some _ \<Rightarrow>
         (case py_index (last_seq worker) (qnum m) of
            None \<Rightarrow> (Inl IndexError, s)
          | Some i \<Rightarrow>
             (let sq = last_seq worker ! i + 1;
                  s1 = s\<lparr>heap := (heap s)(r := worker\<lparr>last_seq := (last_seq worker)[i := sq]\<rparr>)\<rparr>;
                  m' = m\<lparr>seq := sq\<rparr>;
                  work' = work_add MAX_SEND_MSG_LENGTH (worker_id worker) (qnum m) r m' work
              in case py_index (queues worker) (qnum m) of
                   None \<Rightarrow> (Inl IndexError, s1)
                 | Some j \<Rightarrow>
                    (case increment_stats (queues worker ! j) True 1 s1 of
                       (Some e, s2) \<Rightarrow> (Inl e, s2)
                     | (None, s2) \<Rightarrow> (Inr work', s2)))))"

text \<open>
  \<^verbatim>\<open>self.active_workers[role]\<close> when the role is a key of the table, the empty list when
  it is not (the test of line 356 treats both alike).
\<close>

definition available_workers :: "subscriber \<Rightarrow> string option \<Rightarrow> wref list" where
  "available_workers s ro =
     (case ro of None \<Rightarrow> [] | Some x \<Rightarrow> (case active_workers s x of None \<Rightarrow> [] | Some ws \<Rightarrow> ws))"

text \<open>Lines 355 to 370: the choice of the worker and of the queue number.\<close>

definition send_msg_route ::
  "nat \<Rightarrow> (eptMsgWork \<Rightarrow> int) \<Rightarrow> eptMsgWork \<Rightarrow> work_t \<Rightarrow> subscriber \<Rightarrow> (py_error + work_t) \<times> subscriber" where
  "send_msg_route MAX_SEND_MSG_LENGTH get_msg_hash m0 work s =
     (let m = m0\<lparr>fabric := self_fabric s\<rparr>;
          workers = available_workers s (role m)
      in if workers = [] then
           (Inr work, logger WARN (''no available workers for role '' @ apos @ ''%s'' @ apos) [ArgObj] s)
         else
           (let r = workers ! nat (get_msg_hash m mod int (length workers));
                worker = heap s r
            in if qnum m \<ge> int (length (queues worker)) then
                 (let s1 = logger WARN ''unable to enqueue work on worker %s, queue %s does not exist''
                             [ArgStr (worker_id worker), ArgInt (qnum m)] s
                  in if length (queues worker) > 0 then
                       (let m1 = m\<lparr>qnum := int (length (queues worker)) - 1\<rparr>;
                            s2 = logger DEBUG ''overwritting queue to %s'' [ArgInt (qnum m1)] s1
                        in send_msg_stamp MAX_SEND_MSG_LENGTH r m1 work s2)
                     else
                       (Inr work, logger WARN ''unable to send message to worker with 0 queues'' [] s1))
               else send_msg_stamp MAX_SEND_MSG_LENGTH r m work s))"

fun send_msg_collect ::
  "nat \<Rightarrow> (eptMsgWork \<Rightarrow> int) \<Rightarrow> eptMsgWork list \<Rightarrow> work_t \<Rightarrow> subscriber \<Rightarrow> (py_error + work_t) \<times> subscriber" where
  "send_msg_collect M h [] work s = (Inr work, s)"
| "send_msg_collect M h (m # ms) work s =
     (case send_msg_route M h m work s of
        (Inl e, s1) \<Rightarrow> (Inl e, s1)
      | (Inr work1, s1) \<Rightarrow> send_msg_collect M h ms work1 s1)"

text \<open>
  The second loop, for one bulk of one \<open>(worker, qnum)\<close>: a bulk of one message is sent
  as that message, any other bulk takes the \<open>seq\<close> of its last message. A failed push is
  logged and the loop goes on.
\<close>

definition send_msg_push ::
  "bool \<Rightarrow> wref \<Rightarrow> int \<Rightarrow> eptMsgWork list \<Rightarrow> subscriber \<Rightarrow> py_error option \<times> subscriber" where
  "send_msg_push prepend r q bulk s =
     (let worker = heap s r in
      case (if length bulk = 1 then Some (MsgWork (hd bulk))
            else if bulk = [] then None
            else Some (MsgBulk (seq (last bulk)) bulk)) of
        None \<Rightarrow> (Some IndexError, s)
      | Some v \<Rightarrow>
         (case py_index (queue_locks worker) q of
            None \<Rightarrow> (Some IndexError, s)
          | Some _ \<Rightarrow>
             (case py_index (queues worker) q of
                None \<Rightarrow> (Some IndexError, logger DEBUG ''Traceback: %s'' [ArgObj] s)
              | Some j \<Rightarrow>
                 (case redis_push prepend (queues worker ! j) v s of
                    (True, s1) \<Rightarrow> (None, s1)
                  | (False, s1) \<Rightarrow>
                      (None, logger ERROR ''failed to enqueue msg on queue (%s) %s: %s''
                               [ArgObj, ArgStr (queues worker ! j), ArgObj]
                               (logger DEBUG ''Traceback: %s'' [ArgObj] s1))))))"

fun send_msg_bulks ::
  "bool \<Rightarrow> wref \<Rightarrow> int \<Rightarrow> eptMsgWork list list \<Rightarrow> subscriber \<Rightarrow> py_error option \<times> subscriber" where
  "send_msg_bulks prepend r q [] s = (None, s)"
| "send_msg_bulks prepend r q (b # bs) s =
     (case send_msg_push prepend r q b s of
        (Some e, s1) \<Rightarrow> (Some e, s1)
      | (None, s1) \<Rightarrow> send_msg_bulks prepend r q bs s1)"

fun send_msg_queues ::
  "bool \<Rightarrow> (int \<times> work_entry) list \<Rightarrow> subscriber \<Rightarrow> py_error option \<times> subscriber" where
  "send_msg_queues prepend [] s = (None, s)"
| "send_msg_queues prepend ((q, (r, full, cur)) # es) s =
     (case send_msg_bulks prepend r q (full @ [cur]) s of
        (Some e, s1) \<Rightarrow> (Some e, s1)
      | (None, s1) \<Rightarrow> send_msg_queues prepend es s1)"

fun send_msg_workers :: "bool \<Rightarrow> work_t \<Rightarrow> subscriber \<Rightarrow> py_error option \<times> subscriber" where
  "send_msg_workers prepend [] s = (None, s)"
| "send_msg_workers prepend ((wid, inner) # ws) s =
     (case send_msg_queues prepend inner s of
        (Some e, s1) \<Rightarrow> (Some e, s1)
      | (None, s1) \<Rightarrow> send_msg_workers prepend ws s1)"

definition send_msg ::
  "nat \<Rightarrow> (eptMsgWork \<Rightarrow> int) \<Rightarrow> eptMsgWork list \<Rightarrow> bool \<Rightarrow> subscriber \<Rightarrow> py_error option \<times> subscriber" where
  "send_msg MAX_SEND_MSG_LENGTH get_msg_hash msg prepend s =
     (case send_msg_collect MAX_SEND_MSG_LENGTH get_msg_hash msg [] s of
        (Inl e, s1) \<Rightarrow> (Some e, s1)
      | (Inr work, s1) \<Rightarrow> send_msg_workers prepend work s1)"

subsection \<open>send\_msg\_direct\<close>

definition send_msg_direct_one :: "wref \<Rightarrow> eptMsgWork \<Rightarrow> subscriber \<Rightarrow> py_error option \<times> subscriber" where
  "send_msg_direct_one r m0 s =
     (let m = m0\<lparr>fabric := self_fabric s\<rparr>; worker = heap s r in
      if qnum m \<ge> int (length (queues worker)) then
        (None, logger WARN ''unable to enqueue work on worker %s, queue %s does not exist''
                 [ArgStr (worker_id worker), ArgInt (qnum m)] s)
      else
        (case py_index (queue_locks worker) (qnum m) of
           None \<Rightarrow> (Some IndexError, s)
         | Some _ \<Rightarrow>
            (case py_index (last_seq worker) (qnum m) of
               None \<Rightarrow> (Some IndexError, s)
             | Some i \<Rightarrow>
                (let sq = last_seq worker ! i + 1;
                     s1 = s\<lparr>heap := (heap s)(r := worker\<lparr>last_seq := (last_seq worker)[i := sq]\<rparr>)\<rparr>;
                     m' = m\<lparr>seq := sq\<rparr>
                 in case py_index (queues worker) (qnum m) of
                      None \<Rightarrow> (Some IndexError, s1)
                    | Some j \<Rightarrow>
                       (case increment_stats (queues worker ! j) True 1 s1 of
                          (Some e, s2) \<Rightarrow> (Some e, s2)
                        | (None, s2) \<Rightarrow>
                           (case redis_push False (queues worker ! j) (MsgWork m') s2 of
                              (True, s3) \<Rightarrow> (None, s3)
                            | (False, s3) \<Rightarrow>
                               (None, logger ERROR ''failed to enqueue msg on queue (%s) %s: %s''
                                        [ArgObj, ArgInt (qnum m), ArgObj]
                                        (logger DEBUG ''Traceback: %s'' [ArgObj] s3))))))))"

fun send_msg_direct :: "wref \<Rightarrow> eptMsgWork list \<Rightarrow> subscriber \<Rightarrow> py_error option \<times> subscriber" where
  "send_msg_direct r [] s = (None, s)"
| "send_msg_direct r (m # ms) s =
     (case send_msg_direct_one r m s of
        (Some e, s1) \<Rightarrow> (Some e, s1)
      | (None, s1) \<Rightarrow> send_msg_direct r ms s1)"

subsection \<open>What the module imports\<close>

text \<open>
  The constants of \<^verbatim>\<open>common\<close>, the EPM parser of \<^verbatim>\<open>ept_msg\<close>, the queries sent to the
  controller and Python's own functions (\<^verbatim>\<open>str\<close>, \<^verbatim>\<open>re.search\<close>) are not part of this
  module: they are parameters, gathered in one record.
  \<^item> \<open>MAX_SEND_MSG_LENGTH\<close>, \<open>MAX_EPM_BUILD_TIME\<close>, \<open>get_msg_hash\<close>: from \<^verbatim>\<open>common\<close>;
  \<^item> \<open>epm_parse\<close>, \<open>get_delete_event\<close>: the methods \<^verbatim>\<open>parse\<close> and \<^verbatim>\<open>get_delete_event\<close> of
    \<^verbatim>\<open>eptEpmEventParser\<close>, \<open>None\<close> for Python's \<^verbatim>\<open>None\<close>;
  \<^item> \<open>get_class\<close>: a class query, \<open>None\<close> when it fails; \<open>get_class_stream\<close>: a streamed
    class query as the attributes it yields and whether a \<^verbatim>\<open>None\<close> object ended it;
    \<open>get_attributes\<close>: the attributes of one dn; \<open>query_endpoint\<close>: the query of
    \<^verbatim>\<open>refresh_endpoint\<close> for one address type and address;
  \<^item> \<open>project\<close>: the loop body of \<^verbatim>\<open>initialize_ept_collection\<close> (lines 1058 to 1087), from
    the attributes of one object to the ept object built from them, \<open>None\<close> when no
    object is added;
  \<^item> \<open>node_overlay\<close>: lines 1132 to 1222 of \<^verbatim>\<open>build_node_db\<close>, from the nodes found and the
    controller's answers to the nodes to save, with what is logged on the way;
    \<open>tunnel_remote\<close>: lines 1252 to 1265 of \<^verbatim>\<open>build_tunnel_db\<close> likewise. Both compute
    documents only;
  \<^item> \<open>mo_query\<close>: the objects a rebuild of one MO class fetches, or its error message;
  \<^item> \<open>bulk_merge\<close>: how the store merges saved documents into a collection;
  \<^item> \<open>fabric_node_dn\<close>: the regular expression of \<^verbatim>\<open>handle_fabric_node\<close>, giving pod and
    node id; \<open>str_of_real\<close>, \<open>str_of_int\<close>: Python's \<^verbatim>\<open>%s\<close> of a number.
\<close>

record env =
  MAX_SEND_MSG_LENGTH :: nat
  MAX_EPM_BUILD_TIME :: real
  get_msg_hash :: "eptMsgWork \<Rightarrow> int"
  epm_parse :: "string \<Rightarrow> attr_t \<Rightarrow> real \<Rightarrow> eptMsgWork option"
  get_delete_event :: "string \<Rightarrow> int \<Rightarrow> int \<Rightarrow> string \<Rightarrow> real \<Rightarrow> eptMsgWork option"
  get_class :: "string \<Rightarrow> attrs list option"
  get_class_stream :: "string \<Rightarrow> (attrs list \<times> bool) option"
  get_attributes :: "string \<Rightarrow> attrs option"
  query_endpoint :: "string \<Rightarrow> string \<Rightarrow> (string \<times> attrs option) list option"
  project :: "collection \<Rightarrow> string \<Rightarrow> attrs \<Rightarrow> doc option"
  node_overlay :: "doc list \<Rightarrow> log_entry list \<times> doc list"
  tunnel_remote :: "doc list \<Rightarrow> doc list \<Rightarrow> log_entry list \<times> doc list"
  mo_query :: "string \<Rightarrow> string + doc list"
  bulk_merge :: "doc list \<Rightarrow> doc list \<Rightarrow> doc list"
  fabric_node_dn :: "string \<Rightarrow> (string \<times> int) option"
  str_of_real :: "real \<Rightarrow> string"
  str_of_int :: "int \<Rightarrow> string"

definition ordered_mo_classes :: "string list" where
  "ordered_mo_classes =
     [''fvCtx'', ''l3extRsEctx'', ''l3extOut'', ''l3extExtEncapAllocator'', ''l3extInstP'',
      ''fvBD'', ''fvSvcBD'', ''fvRsBd'', ''vnsRsEPpInfoToBD'', ''vnsRsLIfCtxToBD'', ''vnsLIfCtx'',
      ''mgmtRsMgmtBD'', ''mgmtInB'', ''fvAEPg'', ''vnsEPpInfo'', ''fvSubnet'', ''fvIpAttr'',
      ''pcAggrIf'', ''pcRsMbrIfs'', ''tunnelIf'', ''vpcRsVpcConf'', ''datetimeFormat'']"

definition subscription_classes :: "string list" where
  "subscription_classes = [''fabricProtPol'', ''fabricAutoGEp'', ''fabricExplicitGEp'', ''fabricNode'']"

definition epm_subscription_classes :: "string list" where
  "epm_subscription_classes = [''epmRsMacEpToIpEpAtt'', ''epmIpEp'', ''epmMacEp'']"

subsection \<open>The store and the subscription layer\<close>

text \<open>
  Modelled from the spec: the methods of the \<^verbatim>\<open>Rest\<close> model classes (\<^verbatim>\<open>find\<close>,
  \<^verbatim>\<open>delete\<close>, \<^verbatim>\<open>bulk_save\<close>) are not under src/. A collection is per-fabric: \<^verbatim>\<open>find\<close> and
  \<^verbatim>\<open>delete\<close> with the filter \<^verbatim>\<open>fabric\<close> read and remove the documents of this fabric, and a
  bulk save writes to the one collection of its class.
\<close>

definition db_find :: "collection \<Rightarrow> subscriber \<Rightarrow> doc list" where
  "db_find c s = filter (\<lambda>d. d_fabric d = self_fabric s) (db s c)"

definition db_delete :: "collection \<Rightarrow> subscriber \<Rightarrow> subscriber" where
  "db_delete c s = s\<lparr>db := (db s)(c := filter (\<lambda>d. d_fabric d \<noteq> self_fabric s) (db s c))\<rparr>"

definition bulk_save :: "env \<Rightarrow> collection \<Rightarrow> doc list \<Rightarrow> subscriber \<Rightarrow> subscriber" where
  "bulk_save env c objs s = s\<lparr>db := (db s)(c := bulk_merge env objs (db s c))\<rparr>"

text \<open>
  Modelled from the spec: \<^verbatim>\<open>rebuild\<close> of an MO class is not under src/; it ``fully
  repopulates its local cache from a controller class-query'' and returns success and an
  error message.
\<close>

definition mo_rebuild :: "env \<Rightarrow> string \<Rightarrow> subscriber \<Rightarrow> (bool \<times> string) \<times> subscriber" where
  "mo_rebuild env c s =
     (case mo_query env c of
        Inl err \<Rightarrow> ((False, err), s)
      | Inr objs \<Rightarrow> ((True, []), bulk_save env (MoCache c) objs (db_delete (MoCache c) s)))"

text \<open>
  Modelled from the spec: \<^verbatim>\<open>SubscriptionCtrl\<close> is not under src/; it is ``an external
  collaborator that can be instructed Pause(classes) / Resume(classes) /
  AddInterest(class, handler, paused)''. An interest is a class, its handler and whether
  it is paused.
\<close>

definition remove_interest :: "string list \<Rightarrow> subscriber \<Rightarrow> subscriber" where
  "remove_interest cs s = s\<lparr>interests := filter (\<lambda>i. fst i \<notin> set cs) (interests s)\<rparr>"

definition add_interest :: "string \<Rightarrow> handler \<Rightarrow> bool \<Rightarrow> subscriber \<Rightarrow> subscriber" where
  "add_interest c h p s = s\<lparr>interests := interests s @ [(c, h, p)]\<rparr>"

definition resume :: "string list \<Rightarrow> subscriber \<Rightarrow> subscriber" where
  "resume cs s =
     s\<lparr>interests := map (\<lambda>i. if fst i \<in> set cs then (fst i, fst (snd i), False) else i) (interests s)\<rparr>"

definition unsubscribe :: "subscriber \<Rightarrow> py_error option \<times> subscriber" where
  "unsubscribe s =
     (if unsubscribe_raises s then (Some TransportError, s)
      else (None, s\<lparr>subscription_alive := False\<rparr>))"

subsection \<open>broadcast\<close>

fun broadcast_channels :: "eptMsgWork \<Rightarrow> (string \<times> int) list \<Rightarrow> subscriber \<Rightarrow> py_error option \<times> subscriber" where
  "broadcast_channels m [] s = (None, s)"
| "broadcast_channels m ((channel, sq) # cs) s =
     (let s1 = logger DEBUG ''broadcast [q:%s] msg: %s'' [ArgStr channel, ArgObj] s;
          s2 = redis_publish channel (MsgWork (m\<lparr>seq := sq\<rparr>)) s1
      in case increment_stats channel True 1 s2 of
           (Some e, s3) \<Rightarrow> (Some e, s3)
         | (None, s3) \<Rightarrow> broadcast_channels m cs s3)"

definition broadcast_one :: "eptMsgWork \<Rightarrow> subscriber \<Rightarrow> py_error option \<times> subscriber" where
  "broadcast_one m0 s =
     (let m = m0\<lparr>fabric := self_fabric s\<rparr> in
      if role m = Some ''watcher'' then
        (let s1 = s\<lparr>watcher_broadcast_seq := watcher_broadcast_seq s + 1\<rparr>
         in broadcast_channels m [(WATCHER_BROADCAST_CHANNEL, watcher_broadcast_seq s1)] s1)
      else if role m = Some ''worker'' then
        (let s1 = s\<lparr>worker_broadcast_seq := worker_broadcast_seq s + 1\<rparr>
         in broadcast_channels m [(WORKER_BROADCAST_CHANNEL, worker_broadcast_seq s1)] s1)
      else
        (let s1 = s\<lparr>watcher_broadcast_seq := watcher_broadcast_seq s + 1,
                    worker_broadcast_seq := worker_broadcast_seq s + 1\<rparr>
         in broadcast_channels m
              [(WORKER_BROADCAST_CHANNEL, worker_broadcast_seq s1),
               (WATCHER_BROADCAST_CHANNEL, watcher_broadcast_seq s1)] s1))"

fun broadcast :: "eptMsgWork list \<Rightarrow> subscriber \<Rightarrow> py_error option \<times> subscriber" where
  "broadcast [] s = (None, s)"
| "broadcast (m # ms) s =
     (case broadcast_one m s of
        (Some e, s1) \<Rightarrow> (Some e, s1)
      | (None, s1) \<Rightarrow> broadcast ms s1)"

subsection \<open>hard\_restart and send\_flush\<close>

definition hard_restart :: "string \<Rightarrow> subscriber \<Rightarrow> py_error option \<times> subscriber" where
  "hard_restart reason s =
     (let s1 = logger WARN (''restarting fabric monitor '' @ apos @ ''%s'' @ apos @ '': %s'')
                  [ArgStr (self_fabric s), ArgStr reason] s;
          s2 = add_fabric_event ''restarting'' reason s1;
          s3 = s2\<lparr>stopped := True\<rparr>;
          s4 = (case unsubscribe s3 of
                  (None, s') \<Rightarrow> s'
                | (Some e, s') \<Rightarrow>
                    logger ERROR ''Traceback: %s'' [ArgObj]
                      (logger DEBUG ''failed to quit subscription'' [] s'))
      in (None, redis_publish MANAGER_CTRL_CHANNEL
                  (MsgFabricRestart (self_fabric s) (''restarting: '' @ reason)) s4))"

definition send_flush :: "collection \<Rightarrow> string option \<Rightarrow> subscriber \<Rightarrow> py_error option \<times> subscriber" where
  "send_flush c name s =
     broadcast [mk_eptMsgWork (AddrInt 0) (Some ''worker'') (FlushData c name) FLUSH_CACHE 0]
       (logger DEBUG ''flush %s (name:%s)'' [ArgObj, ArgObj] s)"

subsection \<open>The build phases of a soft restart\<close>

text \<open>
  \<^verbatim>\<open>initialize_ept_collection\<close> as \<^verbatim>\<open>build_node_db\<close> and \<^verbatim>\<open>build_tunnel_db\<close> call it, with an
  attribute map of their own: the data come from the local cache of an MO class the
  subscriber holds, or from a streamed class query. The warnings of an object that is
  not added are one entry of the log.
\<close>

definition initialize_ept_collection ::
  "env \<Rightarrow> collection \<Rightarrow> string \<Rightarrow> bool \<Rightarrow> subscriber \<Rightarrow> bool \<times> subscriber" where
  "initialize_ept_collection env eptObject mo_classname flush s =
     (case (if mo_classname \<in> set ordered_mo_classes
            then Some (map body (db_find (MoCache mo_classname) s), False)
            else get_class_stream env mo_classname) of
        None \<Rightarrow> (False, logger WARN ''failed to get data for classname %s'' [ArgStr mo_classname] s)
      | Some (rows, ended) \<Rightarrow>
         (let s1 = fold (\<lambda>a st. case project env eptObject mo_classname a of
                                  None \<Rightarrow> logger WARN ''%s object not added from MO (no matching attributes): %s''
                                            [ArgObj, ArgObj] st
                                | Some d \<Rightarrow> st) rows s;
              s2 = (if ended then logger WARN ''obj is none on streaming class query for %s'' [ArgObj] s1 else s1);
              bulk_objects = List.map_filter (project env eptObject mo_classname) rows;
              s3 = (if flush then db_delete eptObject
                                   (logger DEBUG ''flushing %s entries for fabric %s'' [ArgObj, ArgStr (self_fabric s)] s2)
                    else s2);
              s4 = (if length bulk_objects > 0 then bulk_save env eptObject bulk_objects s3
                    else logger DEBUG ''no objects of %s to insert'' [ArgStr mo_classname] s3)
          in (True, s4)))"

definition build_node_db :: "env \<Rightarrow> subscriber \<Rightarrow> bool \<times> subscriber" where
  "build_node_db env s =
     (case initialize_ept_collection env eptNode ''fabricNode'' True
             (logger DEBUG ''initializing node db'' [] s) of
        (False, s1) \<Rightarrow> (False, logger WARN ''failed to build node db from fabricNode'' [] s1)
      | (True, s1) \<Rightarrow>
         (let all_nodes = db_find eptNode s1 in
          if length all_nodes = 0 then (False, logger WARN ''no eptNode objects discovered'' [] s1)
          else if (case (get_class env ''topSystem'', get_class env ''firmwareRunning'') of
                     (Some d1, Some d2) \<Rightarrow> length d1 = 0 \<or> length d2 = 0
                   | _ \<Rightarrow> True)
          then (False, logger WARN ''failed to read topSystem/firmwareRunning'' [] s1)
          else (case node_overlay env all_nodes of
                  (lg, nodes) \<Rightarrow> (True, bulk_save env eptNode nodes (s1\<lparr>logged := logged s1 @ lg\<rparr>)))))"

definition build_tunnel_db :: "env \<Rightarrow> subscriber \<Rightarrow> bool \<times> subscriber" where
  "build_tunnel_db env s =
     (case initialize_ept_collection env eptTunnel ''tunnelIf'' True
             (logger DEBUG ''initializing tunnel db'' [] s) of
        (False, s1) \<Rightarrow> (False, s1)
      | (True, s1) \<Rightarrow>
         (case tunnel_remote env (db_find eptNode s1) (db_find eptTunnel s1) of
            (lg, bulk_objects) \<Rightarrow>
              (let s2 = s1\<lparr>logged := logged s1 @ lg\<rparr>
               in (True, if length bulk_objects > 0 then bulk_save env eptTunnel bulk_objects s2 else s2))))"

subsection \<open>soft\_restart\<close>

text \<open>The four flushes of lines 839 to 842; an exception of one ends the sequence.\<close>

fun send_flushes :: "collection list \<Rightarrow> subscriber \<Rightarrow> py_error option \<times> subscriber" where
  "send_flushes [] s = (None, s)"
| "send_flushes (c # cs) s =
     (case send_flush c None s of
        (Some e, s1) \<Rightarrow> (Some e, s1)
      | (None, s1) \<Rightarrow> send_flushes cs s1)"

definition soft_restart :: "env \<Rightarrow> real option \<Rightarrow> string \<Rightarrow> subscriber \<Rightarrow> py_error option \<times> subscriber" where
  "soft_restart env ts_arg reason s =
     (let s0 = logger DEBUG ''soft restart requested: %s'' [ArgStr reason] s in
      if (case ts_arg of None \<Rightarrow> False | Some t \<Rightarrow> soft_restart_ts s0 > t) then
        (None, logger DEBUG ''skipping stale soft_restart request (%.3f > %.3f)''
                 [ArgReal (soft_restart_ts s0), ArgReal (the ts_arg)] s0)
      else
        (let s1 = s0\<lparr>initializing := True\<rparr>;
             s2 = remove_interest (subscription_classes @ ordered_mo_classes) s1;
             s3 = fold (\<lambda>c. add_interest c h_handle_event True) subscription_classes s2;
             s4 = fold (\<lambda>c. add_interest c h_handle_std_mo_event True) ordered_mo_classes s3;
             s5 = add_fabric_event ''soft-reset'' reason s4;
             s6 = add_fabric_event ''re-initializing'' ''building node db'' s5
         in case build_node_db env s6 of
              (False, s7) \<Rightarrow>
                hard_restart ''failed to build node db''
                  (add_fabric_event ''failed'' ''failed to build node db'' s7)
            | (True, s7) \<Rightarrow>
               (case mo_rebuild env ''vpcRsVpcConf'' s7 of
                  ((False, err1), s8) \<Rightarrow>
                    hard_restart ''failed to build node pc to vpc db'' (add_fabric_event ''failed'' err1 s8)
                | ((True, err1), s8) \<Rightarrow>
                   (case mo_rebuild env ''pcAggrIf'' s8 of
                      ((False, err2), s9) \<Rightarrow>
                        hard_restart ''failed to build node pc to vpc db'' (add_fabric_event ''failed'' err2 s9)
                    | ((True, err2), s9) \<Rightarrow>
                       (case mo_rebuild env ''pcRsMbrIfs'' s9 of
                          ((False, err3), s10) \<Rightarrow>
                            hard_restart ''failed to build node pc to vpc db''
                              (add_fabric_event ''failed'' err3 s10)
                        | ((True, err3), s10) \<Rightarrow>
                           (case build_tunnel_db env
                                   (add_fabric_event ''re-initializing'' ''building tunnel db'' s10) of
                              (False, s11) \<Rightarrow>
                                hard_restart ''failed to build tunnel db''
                                  (add_fabric_event ''failed'' ''failed to build tunnel db'' s11)
                            | (True, s11) \<Rightarrow>
                               (case send_flushes [eptNode, eptVpc, eptPc, eptTunnel] s11 of
                                  (Some e, s12) \<Rightarrow> (Some e, s12)
                                | (None, s12) \<Rightarrow>
                                    (None, resume (subscription_classes @ ordered_mo_classes)
                                             ((add_fabric_event ''running'' [] s12)
                                                \<lparr>initializing := False\<rparr>)))))))))"

subsection \<open>The handlers of the control MOs\<close>

definition handle_fabric_prot_pol :: "string \<Rightarrow> attr_t \<Rightarrow> subscriber \<Rightarrow> py_error option \<times> subscriber" where
  "handle_fabric_prot_pol classname attr s =
     (case map_of (a_kv attr) ''pairT'' of
        None \<Rightarrow> (Some (KeyError ''pairT''), s)
      | Some pairT \<Rightarrow>
         (let s1 = logger DEBUG ''handle fabricProtPol event: %s'' [ArgStr pairT] s in
          if map_of (a_kv attr) ''pairT'' \<noteq> None \<and> pairT \<noteq> vpc_pair_type (settings s1) then
            (let msg = ''fabricProtPol changed from '' @ vpc_pair_type (settings s1) @ '' to '' @ pairT
             in hard_restart msg (logger WARN msg [] s1))
          else (None, logger DEBUG ''no change in fabricProtPol'' [] s1)))"

definition handle_fabric_group_ep :: "env \<Rightarrow> string \<Rightarrow> attr_t \<Rightarrow> subscriber \<Rightarrow> py_error option \<times> subscriber" where
  "handle_fabric_group_ep env classname attr s =
     (let s1 = logger DEBUG ''handle %s event'' [ArgStr classname] s in
      case a_ts attr of
        None \<Rightarrow> (Some (KeyError ''_ts''), s1)
      | Some t \<Rightarrow> soft_restart env (Some t) (''('' @ classname @ '') vpc domain update'') s1)"

text \<open>\<^verbatim>\<open>eptNode.load(fabric, node)\<close> and \<^verbatim>\<open>node.save()\<close> after a change of name.\<close>

definition load_node :: "int \<Rightarrow> subscriber \<Rightarrow> doc option" where
  "load_node node_id s = find (\<lambda>d. h_node d = node_id) (db_find eptNode s)"

definition save_node_name :: "int \<Rightarrow> string \<Rightarrow> subscriber \<Rightarrow> subscriber" where
  "save_node_name node_id nm s =
     s\<lparr>db := (db s)(eptNode :=
          map (\<lambda>d. if d_fabric d = self_fabric s \<and> h_node d = node_id then d\<lparr>d_name := nm\<rparr> else d)
              (db s eptNode))\<rparr>"

definition handle_fabric_node :: "env \<Rightarrow> string \<Rightarrow> attr_t \<Rightarrow> subscriber \<Rightarrow> py_error option \<times> subscriber" where
  "handle_fabric_node env classname attr s =
     (case map_of (a_kv attr) ''dn'' of
        None \<Rightarrow> (Some (KeyError ''dn''), s)
      | Some dn \<Rightarrow>
         (let s0 = logger DEBUG ''handle fabricNode event: %s'' [ArgStr dn] s in
          case fabric_node_dn env dn of
            None \<Rightarrow> (None, logger WARN ''failed to extract node id from fabricNode dn: %s'' [ArgStr dn] s0)
          | Some (pod, node_id) \<Rightarrow>
             (let s1 = (case (map_of (a_kv attr) ''name'', load_node node_id s0) of
                          (Some nm, Some d) \<Rightarrow>
                            if d_name d \<noteq> nm then
                              save_node_name node_id nm
                                (logger DEBUG ''node %s name updated from %s to %s''
                                   [ArgInt node_id, ArgStr (d_name d), ArgStr nm] s0)
                            else s0
                        | _ \<Rightarrow> s0)
              in case map_of (a_kv attr) ''fabricSt'' of
                   None \<Rightarrow> (None, s1)
                 | Some st \<Rightarrow>
                    (case load_node node_id s1 of
                       Some d \<Rightarrow>
                         if d_role d \<noteq> ''leaf'' then
                           (None, logger DEBUG (''ignoring fabricNode event for '' @ apos @ ''%s'' @ apos)
                                    [ArgStr (d_role d)] s1)
                         else if st = ''active'' then
                           hard_restart (''leaf '' @ apos @ str_of_int env (h_node d) @ apos @ '' became active'') s1
                         else
                           (let s2 = logger DEBUG (''node %s '' @ apos @ ''%s'' @ apos @ '', sending watch_node event'')
                                       [ArgInt (h_node d), ArgStr st] s1
                            in case a_ts attr of
                                 None \<Rightarrow> (Some (KeyError ''_ts''), s2)
                               | Some t \<Rightarrow>
                                   send_msg (MAX_SEND_MSG_LENGTH env) (get_msg_hash env)
                                     [(mk_eptMsgWork (AddrStr ''1'') (Some ''watcher'') NoData WATCH_NODE 0)
                                        \<lparr>node := h_node d, ts := t, status := st\<rparr>] False s2)
                     | None \<Rightarrow>
                         if st \<noteq> ''active'' then
                           (None, logger DEBUG (''ignorning '' @ apos @ ''%s'' @ apos @ '' event for unknown node: %s'')
                                    [ArgStr st, ArgInt node_id] s1)
                         else
                           (case get_attributes env
                                   (''topology/pod-'' @ pod @ ''/node-'' @ str_of_int env node_id) of
                              Some new_attr \<Rightarrow>
                                if map_of new_attr ''role'' = Some ''leaf'' then
                                  hard_restart (''new leaf '' @ apos @ str_of_int env node_id @ apos @ '' became active'') s1
                                else (None, logger DEBUG ''ignorning active event for non-leaf'' [] s1)
                            | None \<Rightarrow> (None, logger DEBUG ''ignorning active event for non-leaf'' [] s1))))))"

subsection \<open>The handlers of the subscription layer\<close>

text \<open>
  An event as the subscription layer delivers it: the list \<^verbatim>\<open>imdata\<close>, each entry a class
  name with its \<^verbatim>\<open>attributes\<close> (\<open>None\<close> when the entry has none). \<^verbatim>\<open>parse_event\<close> rebinds
  \<^verbatim>\<open>event\<close> to that list before it tests \<^verbatim>\<open>"_ts" in event\<close>, so the time stamp of every
  entry is the clock's, \<open>now\<close>. The generator is run inside the loop of its caller.
\<close>

type_synonym event = "(string \<times> attrs option) list"

text \<open>\<^verbatim>\<open>self.handlers[classname](classname, attr)\<close>\<close>

definition call_handler :: "env \<Rightarrow> string \<Rightarrow> attr_t \<Rightarrow> subscriber \<Rightarrow> py_error option \<times> subscriber" where
  "call_handler env classname attr s =
     (if classname = ''fabricProtPol'' then handle_fabric_prot_pol classname attr s
      else if classname = ''fabricAutoGEp'' \<or> classname = ''fabricExplicitGEp''
      then handle_fabric_group_ep env classname attr s
      else handle_fabric_node env classname attr s)"

fun handle_event_loop :: "env \<Rightarrow> real \<Rightarrow> event \<Rightarrow> subscriber \<Rightarrow> subscriber" where
  "handle_event_loop env now [] s = s"
| "handle_event_loop env now ((classname, None) # es) s =
     handle_event_loop env now es (logger WARN ''invalid event: %s'' [ArgObj] s)"
| "handle_event_loop env now ((classname, Some kv) # es) s =
     (if classname \<notin> set subscription_classes then
        handle_event_loop env now es
          (logger WARN ''no event handler defined for classname: %s'' [ArgStr classname] s)
      else
        (case call_handler env classname \<lparr>a_kv = kv, a_ts = Some now\<rparr> s of
           (None, s1) \<Rightarrow> s1
         | (Some e, s1) \<Rightarrow> logger ERROR ''Traceback: %s'' [ArgObj] s1))"

definition handle_event :: "env \<Rightarrow> real \<Rightarrow> event \<Rightarrow> subscriber \<Rightarrow> subscriber" where
  "handle_event env now ev s =
     (if stopped s then
        logger DEBUG ''ignoring event (subscriber stopped and waiting for reset)'' [] s
      else if initializing s then
        logger DEBUG ''ignoring event (in initializing state): %s'' [ArgObj] s
      else handle_event_loop env now ev (logger DEBUG ''event: %s'' [ArgObj] s))"

fun handle_std_mo_event_loop :: "real \<Rightarrow> event \<Rightarrow> subscriber \<Rightarrow> subscriber" where
  "handle_std_mo_event_loop now [] s = s"
| "handle_std_mo_event_loop now ((classname, None) # es) s =
     handle_std_mo_event_loop now es (logger WARN ''invalid event: %s'' [ArgObj] s)"
| "handle_std_mo_event_loop now ((classname, Some kv) # es) s =
     (if classname \<notin> set ordered_mo_classes \<or> map_of kv ''dn'' = None \<or> map_of kv ''status'' = None then
        handle_std_mo_event_loop now es
          (logger WARN ''event received for unknown classname: %s, %s'' [ArgStr classname, ArgObj] s)
      else
        handle_std_mo_event_loop now es
          (s\<lparr>std_mo_event_queue := std_mo_event_queue s @
               [mk_eptMsgWork (AddrStr []) (Some ''watcher'')
                  (MoData classname \<lparr>a_kv = kv, a_ts = Some now\<rparr>) STD_MO 0]\<rparr>))"

definition handle_std_mo_event :: "real \<Rightarrow> event \<Rightarrow> subscriber \<Rightarrow> subscriber" where
  "handle_std_mo_event now ev s =
     (if stopped s then
        logger DEBUG ''ignoring event (subscriber stopped and waiting for reset)'' [] s
      else if initializing s then
        logger DEBUG ''ignoring event (in initializing state): %s'' [ArgObj] s
      else handle_std_mo_event_loop now ev s)"

fun handle_epm_event_loop :: "env \<Rightarrow> real \<Rightarrow> event \<Rightarrow> subscriber \<Rightarrow> subscriber" where
  "handle_epm_event_loop env now [] s = s"
| "handle_epm_event_loop env now ((classname, None) # es) s =
     handle_epm_event_loop env now es (logger WARN ''invalid event: %s'' [ArgObj] s)"
| "handle_epm_event_loop env now ((classname, Some kv) # es) s =
     handle_epm_event_loop env now es
       (s\<lparr>epm_event_queue := epm_event_queue s @
            [epm_parse env classname \<lparr>a_kv = kv, a_ts = Some now\<rparr> now]\<rparr>)"

definition handle_epm_event :: "env \<Rightarrow> real \<Rightarrow> event \<Rightarrow> subscriber \<Rightarrow> subscriber" where
  "handle_epm_event env now ev s =
     (if stopped s then
        logger DEBUG ''ignoring event (subscriber stopped and waiting for reset)'' [] s
      else if epm_initializing s then
        logger DEBUG ''ignoring event (in epm_initializing state): %s'' [ArgObj] s
      else handle_epm_event_loop env now ev s)"

subsection \<open>handle\_background\_event\_queue\<close>

text \<open>
  The messages of a queue are taken off it and sent as one batch. The EPM queue may
  hold \<^verbatim>\<open>None\<close> (a parse without result): \<^verbatim>\<open>send_msg\<close> stamps the messages before it and
  raises on it.
\<close>

definition send_msg_opt :: "env \<Rightarrow> eptMsgWork option list \<Rightarrow> subscriber \<Rightarrow> py_error option \<times> subscriber" where
  "send_msg_opt env msgs s =
     (let pre = map the (takeWhile (\<lambda>x. x \<noteq> None) msgs) in
      if length pre = length msgs then
        send_msg (MAX_SEND_MSG_LENGTH env) (get_msg_hash env) pre False s
      else
        (case send_msg_collect (MAX_SEND_MSG_LENGTH env) (get_msg_hash env) pre [] s of
           (Inl e, s1) \<Rightarrow> (Some e, s1)
         | (Inr work, s1) \<Rightarrow> (Some AttributeError, s1)))"

definition handle_background_event_queue :: "env \<Rightarrow> subscriber \<Rightarrow> py_error option \<times> subscriber" where
  "handle_background_event_queue env s =
     (let msgs1 = std_mo_event_queue s;
          s1 = s\<lparr>std_mo_event_queue := []\<rparr>
      in case (if length msgs1 > 0
               then send_msg (MAX_SEND_MSG_LENGTH env) (get_msg_hash env) msgs1 False s1
               else (None, s1)) of
           (Some e, s2) \<Rightarrow> (Some e, s2)
         | (None, s2) \<Rightarrow>
            (let msgs2 = epm_event_queue s2;
                 s3 = s2\<lparr>epm_event_queue := []\<rparr>
             in if length msgs2 > 0 then send_msg_opt env msgs2 s3 else (None, s3)))"

subsection \<open>get\_epm\_delete\_msgs\<close>

text \<open>The dictionary \<^verbatim>\<open>endpoints[node][vnid][addr] = 1\<close>.\<close>

type_synonym present_t = "int \<rightharpoonup> (int \<rightharpoonup> (addr_t \<rightharpoonup> nat))"

text \<open>Lines 1701 and 1702: the entry is in the dictionary at all three levels.\<close>

definition in_endpoints :: "present_t \<Rightarrow> doc \<Rightarrow> bool" where
  "in_endpoints endpoints obj =
     (case endpoints (h_node obj) of
        None \<Rightarrow> False
      | Some by_vnid \<Rightarrow>
         (case by_vnid (h_vnid obj) of
            None \<Rightarrow> False
          | Some by_addr \<Rightarrow> by_addr (AddrStr (h_addr obj)) \<noteq> None))"

text \<open>
  The filter of the query on the endpoint history: this fabric, the status of the first
  event not \<^verbatim>\<open>deleted\<close> (an entry without events matches \<^verbatim>\<open>$ne\<close>), and the address and
  vnid when both are given.
\<close>

definition history_flt :: "subscriber \<Rightarrow> string option \<Rightarrow> int option \<Rightarrow> doc \<Rightarrow> bool" where
  "history_flt s addr_arg vnid_arg obj \<longleftrightarrow>
     d_fabric obj = self_fabric s \<and>
     (case h_events obj of [] \<Rightarrow> True | e # es \<Rightarrow> e \<noteq> ''deleted'') \<and>
     (case (addr_arg, vnid_arg) of
        (Some a, Some v) \<Rightarrow> h_addr obj = a \<and> h_vnid obj = v
      | _ \<Rightarrow> True)"

text \<open>\<^verbatim>\<open>if msg is not None: yield msg\<close>\<close>

definition yield_msg :: "eptMsgWork option \<Rightarrow> eptMsgWork list" where
  "yield_msg msg = (case msg of None \<Rightarrow> [] | Some m \<Rightarrow> [m])"

text \<open>The body of the loop (lines 1700 to 1718): what one entry of the history yields.\<close>

definition delete_msgs_of :: "env \<Rightarrow> real \<Rightarrow> present_t \<Rightarrow> doc \<Rightarrow> eptMsgWork list" where
  "delete_msgs_of env now endpoints obj =
     (if in_endpoints endpoints obj then []
      else if h_type obj = ''mac'' then
        yield_msg (get_delete_event env ''epmMacEp'' (h_node obj) (h_vnid obj) (h_addr obj) now)
      else
        yield_msg (get_delete_event env ''epmRsMacEpToIpEpAtt'' (h_node obj) (h_vnid obj) (h_addr obj) now) @
        yield_msg (get_delete_event env ''epmIpEp'' (h_node obj) (h_vnid obj) (h_addr obj) now))"

definition get_epm_delete_msgs ::
  "env \<Rightarrow> real \<Rightarrow> present_t \<Rightarrow> string option \<Rightarrow> int option \<Rightarrow> subscriber \<Rightarrow> eptMsgWork list" where
  "get_epm_delete_msgs env now endpoints addr_arg vnid_arg s =
     concat (map (delete_msgs_of env now endpoints)
               (filter (history_flt s addr_arg vnid_arg) (db s eptHistory)))"

subsection \<open>refresh\_endpoint\<close>

definition present_add :: "eptMsgWork \<Rightarrow> present_t \<Rightarrow> present_t" where
  "present_add m endpoints =
     (let by_vnid = (case endpoints (node m) of None \<Rightarrow> Map.empty | Some x \<Rightarrow> x);
          by_addr = (case by_vnid (vnid m) of None \<Rightarrow> Map.empty | Some x \<Rightarrow> x)
      in endpoints(node m \<mapsto> by_vnid(vnid m \<mapsto> by_addr(addr m \<mapsto> 1))))"

fun refresh_collect ::
  "env \<Rightarrow> real \<Rightarrow> (string \<times> attrs option) list \<Rightarrow> eptMsgWork list \<times> present_t \<times> subscriber \<Rightarrow>
   eptMsgWork list \<times> present_t \<times> subscriber" where
  "refresh_collect env now [] acc = acc"
| "refresh_collect env now ((classname, None) # objs) (create_msgs, endpoints, s) =
     refresh_collect env now objs
       (create_msgs, endpoints, logger DEBUG ''ignoring invalid epm object %s'' [ArgObj] s)"
| "refresh_collect env now ((classname, Some kv) # objs) (create_msgs, endpoints, s) =
     (case epm_parse env classname \<lparr>a_kv = kv, a_ts = Some now\<rparr> now of
        None \<Rightarrow> refresh_collect env now objs (create_msgs, endpoints, s)
      | Some m \<Rightarrow> refresh_collect env now objs (create_msgs @ [m], present_add m endpoints, s))"

definition refresh_endpoint ::
  "env \<Rightarrow> real \<Rightarrow> int \<Rightarrow> string \<Rightarrow> string \<Rightarrow> subscriber \<Rightarrow> py_error option \<times> subscriber" where
  "refresh_endpoint env now vnid_arg addr_arg addr_type s =
     (let s0 = logger DEBUG ''refreshing [0x%06x %s]'' [ArgInt vnid_arg, ArgStr addr_arg] s in
      case query_endpoint env addr_type addr_arg of
        None \<Rightarrow> (None, logger DEBUG ''failed to get epm objects'' [] s0)
      | Some objects \<Rightarrow>
         (case refresh_collect env now objects ([], Map.empty, s0) of
            (create_msgs, endpoints, s1) \<Rightarrow>
              (let delete_msgs = get_epm_delete_msgs env now endpoints (Some addr_arg) (Some vnid_arg) s1;
                   s2 = logger DEBUG ''sending %s create and %s delete msgs from refresh''
                          [ArgInt (int (length create_msgs)), ArgInt (int (length delete_msgs))] s1
               in send_msg (MAX_SEND_MSG_LENGTH env) (get_msg_hash env)
                    (map (\<lambda>m. m\<lparr>force := True\<rparr>) (create_msgs @ delete_msgs)) True s2)))"

subsection \<open>handle\_subscriber\_ctrl\<close>

datatype msg_type =
    MSG_REFRESH_EPT | MSG_DELETE_EPT | MSG_SETTINGS_RELOAD | MSG_FABRIC_EPM_EOF_ACK | MSG_OTHER

text \<open>A message of the control channel, as \<^verbatim>\<open>eptMsg.parse\<close> returns it.\<close>

record ctrl_msg =
  c_fabric :: string
  c_msg_type :: msg_type
  c_vnid :: int
  c_addr :: string
  c_type :: string
  c_qnum :: int

definition get_workers_with_pending_ack :: "subscriber \<Rightarrow> string list \<times> subscriber" where
  "get_workers_with_pending_ack s =
     (let pending = (case epm_eof_tracking s of
                       None \<Rightarrow> []
                     | Some tr \<Rightarrow> map fst (filter (\<lambda>e. \<not> snd e) tr))
      in (pending, logger DEBUG ''%s pending ack from %s workers: [%s]''
                     [ArgStr (self_fabric s), ArgInt (int (length pending)), ArgStr (join '','' pending)] s))"

text \<open>
  Lines 482 to 486 and 740 to 744: resume the watchers, stop tracking, record that the
  fabric is running. An exception of the broadcast leaves the tracking as it is.
\<close>

definition resume_watchers :: "subscriber \<Rightarrow> py_error option \<times> subscriber" where
  "resume_watchers s =
     (case broadcast [mk_eptMsgWork (AddrInt 0) (Some ''watcher'') NoData FABRIC_WATCH_RESUME 0] s of
        (Some e, s1) \<Rightarrow> (Some e, s1)
      | (None, s1) \<Rightarrow> (None, add_fabric_event ''running'' [] (s1\<lparr>epm_eof_tracking := None\<rparr>)))"

definition handle_subscriber_ctrl :: "env \<Rightarrow> real \<Rightarrow> ctrl_msg \<Rightarrow> subscriber \<Rightarrow> py_error option \<times> subscriber" where
  "handle_subscriber_ctrl env now msg s =
     (if c_fabric msg \<noteq> self_fabric s then
        (None, logger DEBUG ''request not for this fabric'' [] s)
      else case c_msg_type msg of
        MSG_REFRESH_EPT \<Rightarrow> refresh_endpoint env now (c_vnid msg) (c_addr msg) (c_type msg) s
      | MSG_DELETE_EPT \<Rightarrow>
          send_msg (MAX_SEND_MSG_LENGTH env) (get_msg_hash env)
            [mk_eptMsgWork (AddrStr (c_addr msg)) (Some ''worker'') (VnidData (c_vnid msg)) DELETE_EPT
               (c_qnum msg)] False s
      | MSG_SETTINGS_RELOAD \<Rightarrow>
          broadcast [mk_eptMsgWork (AddrInt 0) None NoData SETTINGS_RELOAD 0]
            (logger DEBUG ''broadcasting settings reload to all roles'' []
               ((logger DEBUG ''reloading local ept settings'' [] s)\<lparr>settings := stored_settings s\<rparr>))
      | MSG_FABRIC_EPM_EOF_ACK \<Rightarrow>
         (let s1 = logger DEBUG ''%s receiving EPM EOF ACK: %s'' [ArgStr (c_fabric msg), ArgStr (c_addr msg)] s in
          case epm_eof_tracking s1 of
            None \<Rightarrow> (None, logger DEBUG ''%s ignoring ack as tracking is disabled'' [ArgStr (c_fabric msg)] s1)
          | Some tr \<Rightarrow>
             (let s2 = (if c_addr msg \<in> fst ` set tr
                        then s1\<lparr>epm_eof_tracking := Some (AList.update (c_addr msg) True tr)\<rparr>
                        else logger WARN ''%s received ack from unknown worker %s''
                               [ArgStr (c_fabric msg), ArgStr (c_addr msg)] s1)
              in case get_workers_with_pending_ack s2 of
                   (pending, s3) \<Rightarrow>
                     if length pending = 0 then
                       resume_watchers
                         (logger DEBUG ''%s broadcasting resume to all watchers'' [ArgStr (c_fabric msg)]
                            (logger DEBUG ''%s received epm ack from all workers'' [ArgStr (c_fabric msg)] s3))
                     else (None, s3)))
      | MSG_OTHER \<Rightarrow>
          (None, logger DEBUG ''%s ignoring unexpected msg type: %s'' [ArgStr (c_fabric msg), ArgObj] s))"

subsection \<open>The steady-state loop and the hello\<close>

definition subscriber_is_alive :: "subscriber \<Rightarrow> py_error option \<times> subscriber" where
  "subscriber_is_alive s =
     (if \<not> subscription_alive s then
        (let s1 = logger WARN ''subscription no longer alive for %s'' [ArgStr (self_fabric s)] s;
             s2 = (case failure_reason s1 of None \<Rightarrow> s1 | Some r \<Rightarrow> add_fabric_event ''failed'' r s1)
         in (Some eptSubscriberExitError, s2))
      else (None, s))"

text \<open>One turn of the loop of lines 726 to 747, at the clock's \<open>now\<close>; the sleep is left out.\<close>

definition run_loop :: "env \<Rightarrow> real \<Rightarrow> subscriber \<Rightarrow> py_error option \<times> subscriber" where
  "run_loop env now s =
     (case subscriber_is_alive s of
        (Some e, s1) \<Rightarrow> (Some e, s1)
      | (None, s1) \<Rightarrow>
         (if epm_eof_tracking s1 \<noteq> None then
            (case epm_eof_start s1 of
               None \<Rightarrow> (Some TypeError, s1)
             | Some start \<Rightarrow>
                if start + MAX_EPM_BUILD_TIME env \<le> now then
                  (case get_workers_with_pending_ack s1 of
                     (pending, s2) \<Rightarrow>
                       (let err = ''epm max build time('' @ str_of_real env (MAX_EPM_BUILD_TIME env) @
                                  '') exceeded while waiting for worker['' @ join '','' pending @ '']''
                        in resume_watchers
                             (logger DEBUG ''broadcasting resume to all watchers'' []
                                (add_fabric_event ''warning'' err (logger WARN err [] s2)))))
                else (None, s1))
          else (None, s1)))"

definition send_hello :: "subscriber \<Rightarrow> py_error option \<times> subscriber" where
  "send_hello s =
     (let s1 = s\<lparr>hello_seq := hello_seq s + 1\<rparr>
      in increment_stats WORKER_CTRL_CHANNEL True 1
           (redis_publish WORKER_CTRL_CHANNEL (MsgHello (hello_seq s1)) s1))"

subsection \<open>What the subscriber does once it runs\<close>

text \<open>
  After the start-up the state changes by the calls of the threads of the subscriber:
  the control channel, the steady-state loop, the three handlers of the subscription
  layer, the background batcher and the hello.
\<close>

inductive step :: "env \<Rightarrow> subscriber \<Rightarrow> subscriber \<Rightarrow> bool" for env where
  step_ctrl: "step env s (snd (handle_subscriber_ctrl env now msg s))"
| step_loop: "step env s (snd (run_loop env now s))"
| step_event: "step env s (handle_event env now ev s)"
| step_std_mo: "step env s (handle_std_mo_event now ev s)"
| step_epm: "step env s (handle_epm_event env now ev s)"
| step_background: "step env s (snd (handle_background_event_queue env s))"
| step_hello: "step env s (snd (send_hello s))"

section \<open>Properties of the dispatcher\<close>

text \<open>
  A worker as the manager builds it: one sequence counter and one lock per queue.
\<close>

definition wf_worker :: "TrackedWorker \<Rightarrow> bool" where
  "wf_worker w \<longleftrightarrow> length (last_seq w) = length (queues w) \<and> length (queue_locks w) = length (queues w)"

lemma py_index_in_range: "0 \<le> i \<Longrightarrow> i < int (length xs) \<Longrightarrow> py_index xs i = Some (nat i)"
  by (simp add: py_index_def Let_def)

lemma send_msg_direct_one_out_of_range:
  "qnum m \<ge> int (length (queues (heap s r))) \<Longrightarrow>
   send_msg_direct_one r m s =
     (None, logger WARN ''unable to enqueue work on worker %s, queue %s does not exist''
              [ArgStr (worker_id (heap s r)), ArgInt (qnum m)] s)"
  by (simp add: send_msg_direct_one_def Let_def)

lemma logger_frame [simp]:
  "heap (logger l f a s) = heap s"
  "queue_stats (logger l f a s) = queue_stats s"
  "redis_lists (logger l f a s) = redis_lists s"
  "redis_published (logger l f a s) = redis_published s"
  "redis_push_fail (logger l f a s) = redis_push_fail s"
  "active_workers (logger l f a s) = active_workers s"
  "self_fabric (logger l f a s) = self_fabric s"
  "logged (logger l f a s) = logged s @ [(l, f, a)]"
  by (simp_all add: logger_def)

text \<open>
  C10, first for any batch: when every message names a queue the worker does not have,
  \<^verbatim>\<open>send_msg_direct\<close> returns normally and has changed nothing but the log, which holds
  one more warning per message.
\<close>

lemma send_msg_direct_all_out_of_range:
  "\<forall>m \<in> set ms. qnum m \<ge> int (length (queues (heap s r))) \<Longrightarrow>
   fst (send_msg_direct r ms s) = None \<and>
   heap (snd (send_msg_direct r ms s)) = heap s \<and>
   queue_stats (snd (send_msg_direct r ms s)) = queue_stats s \<and>
   redis_lists (snd (send_msg_direct r ms s)) = redis_lists s \<and>
   redis_push_fail (snd (send_msg_direct r ms s)) = redis_push_fail s \<and>
   logged (snd (send_msg_direct r ms s)) =
     logged s @ map (\<lambda>m. (WARN, ''unable to enqueue work on worker %s, queue %s does not exist'',
                        [ArgStr (worker_id (heap s r)), ArgInt (qnum m)])) ms"
proof (induction ms arbitrary: s)
  case Nil
  then show ?case by simp
next
  case (Cons m ms)
  let ?s1 = "logger WARN ''unable to enqueue work on worker %s, queue %s does not exist''
              [ArgStr (worker_id (heap s r)), ArgInt (qnum m)] s"
  have one: "send_msg_direct_one r m s = (None, ?s1)"
    using Cons.prems by (simp add: send_msg_direct_one_out_of_range)
  have rest: "\<forall>m \<in> set ms. qnum m \<ge> int (length (queues (heap ?s1 r)))"
    using Cons.prems by simp
  show ?case
    using Cons.IH [OF rest] one by simp
qed

lemma increment_stats_frame [simp]:
  "heap (snd (increment_stats qn tx c s)) = heap s"
  "redis_lists (snd (increment_stats qn tx c s)) = redis_lists s"
  "redis_push_fail (snd (increment_stats qn tx c s)) = redis_push_fail s"
  "redis_published (snd (increment_stats qn tx c s)) = redis_published s"
  "active_workers (snd (increment_stats qn tx c s)) = active_workers s"
  "self_fabric (snd (increment_stats qn tx c s)) = self_fabric s"
  "logged (snd (increment_stats qn tx c s)) = logged s"
  by (simp_all add: increment_stats_def Let_def split: option.splits)

lemma increment_stats_ok:
  "queue_stats s ''total'' \<noteq> None \<Longrightarrow>
   fst (increment_stats qn tx c s) = None \<and> queue_stats (snd (increment_stats qn tx c s)) ''total'' \<noteq> None"
  by (auto simp: increment_stats_def Let_def split: option.splits)

lemma send_msg_stamp_frame [simp]:
  "redis_lists (snd (send_msg_stamp M r m work s)) = redis_lists s"
  "redis_push_fail (snd (send_msg_stamp M r m work s)) = redis_push_fail s"
  "redis_published (snd (send_msg_stamp M r m work s)) = redis_published s"
  "active_workers (snd (send_msg_stamp M r m work s)) = active_workers s"
  "self_fabric (snd (send_msg_stamp M r m work s)) = self_fabric s"
  "logged (snd (send_msg_stamp M r m work s)) = logged s"
proof -
  have *: "snd (case increment_stats qn True 1 s1 of (None, s2) \<Rightarrow> (Inr w', s2) | (Some e, s2) \<Rightarrow> (Inl e, s2))
           = snd (increment_stats qn True 1 s1)" for qn s1 and w' :: work_t
    by (simp split: prod.splits option.splits)
  show "redis_lists (snd (send_msg_stamp M r m work s)) = redis_lists s"
    "redis_push_fail (snd (send_msg_stamp M r m work s)) = redis_push_fail s"
    "redis_published (snd (send_msg_stamp M r m work s)) = redis_published s"
    "active_workers (snd (send_msg_stamp M r m work s)) = active_workers s"
    "self_fabric (snd (send_msg_stamp M r m work s)) = self_fabric s"
    "logged (snd (send_msg_stamp M r m work s)) = logged s"
    by (simp_all add: send_msg_stamp_def Let_def * split: option.splits)
qed

lemma send_msg_stamp_ok:
  assumes "wf_worker (heap s r)" "0 \<le> qnum m" "qnum m < int (length (queues (heap s r)))"
    and "queue_stats s ''total'' \<noteq> None"
  shows "fst (send_msg_stamp M r m work s) =
           Inr (work_add M (worker_id (heap s r)) (qnum m) r
                   (m\<lparr>seq := last_seq (heap s r) ! nat (qnum m) + 1\<rparr>) work)"
    and "heap (snd (send_msg_stamp M r m work s)) =
           (heap s)(r := (heap s r)\<lparr>last_seq :=
                  (last_seq (heap s r))[nat (qnum m) := last_seq (heap s r) ! nat (qnum m) + 1]\<rparr>)"
    and "queue_stats (snd (send_msg_stamp M r m work s)) ''total'' \<noteq> None"
proof -
  let ?w = "heap s r"
  let ?s1 = "s\<lparr>heap := (heap s)(r := ?w\<lparr>last_seq :=
                  (last_seq ?w)[nat (qnum m) := last_seq ?w ! nat (qnum m) + 1]\<rparr>)\<rparr>"
  let ?qn = "queues ?w ! nat (qnum m)"
  have i1: "py_index (queue_locks ?w) (qnum m) = Some (nat (qnum m))"
    and i2: "py_index (last_seq ?w) (qnum m) = Some (nat (qnum m))"
    and i3: "py_index (queues ?w) (qnum m) = Some (nat (qnum m))"
    using assms by (simp_all add: wf_worker_def py_index_in_range)
  have "queue_stats ?s1 ''total'' \<noteq> None" using assms(4) by simp
  from increment_stats_ok [OF this, of ?qn True 1]
  have f: "fst (increment_stats ?qn True 1 ?s1) = None"
    and tot: "queue_stats (snd (increment_stats ?qn True 1 ?s1)) ''total'' \<noteq> None" by simp_all
  obtain s2 where s2: "increment_stats ?qn True 1 ?s1 = (None, s2)"
    using f by (cases "increment_stats ?qn True 1 ?s1") auto
  have h2: "heap s2 = heap ?s1"
    using increment_stats_frame(1) [of ?qn True 1 ?s1] s2 by simp
  show "fst (send_msg_stamp M r m work s) =
           Inr (work_add M (worker_id (heap s r)) (qnum m) r
                   (m\<lparr>seq := last_seq (heap s r) ! nat (qnum m) + 1\<rparr>) work)"
    using i1 i2 i3 s2 by (simp add: send_msg_stamp_def Let_def)
  show "heap (snd (send_msg_stamp M r m work s)) =
           (heap s)(r := (heap s r)\<lparr>last_seq :=
                  (last_seq (heap s r))[nat (qnum m) := last_seq (heap s r) ! nat (qnum m) + 1]\<rparr>)"
    using i1 i2 i3 s2 h2 by (simp add: send_msg_stamp_def Let_def)
  show "queue_stats (snd (send_msg_stamp M r m work s)) ''total'' \<noteq> None"
    using i1 i2 i3 s2 tot by (simp add: send_msg_stamp_def Let_def)
qed

definition routes_to :: "(eptMsgWork \<Rightarrow> int) \<Rightarrow> subscriber \<Rightarrow> eptMsgWork \<Rightarrow> wref \<Rightarrow> nat \<Rightarrow> bool" where
  "routes_to h s m r q \<longleftrightarrow>
     (let ws = available_workers s (role m);
          n = length (queues (heap s r))
      in ws \<noteq> [] \<and> ws ! nat (h (m\<lparr>fabric := self_fabric s\<rparr>) mod int (length ws)) = r \<and>
         0 \<le> qnum m \<and> q < n \<and> q = (if qnum m \<ge> int n then n - 1 else nat (qnum m)))"

definition stamped :: "string \<Rightarrow> nat \<Rightarrow> int \<Rightarrow> eptMsgWork \<Rightarrow> eptMsgWork" where
  "stamped f q sq m = m\<lparr>fabric := f, qnum := int q, seq := sq\<rparr>"

lemma send_msg_route_frame [simp]:
  "redis_lists (snd (send_msg_route M h m work s)) = redis_lists s"
  "redis_push_fail (snd (send_msg_route M h m work s)) = redis_push_fail s"
  "redis_published (snd (send_msg_route M h m work s)) = redis_published s"
  "active_workers (snd (send_msg_route M h m work s)) = active_workers s"
  "self_fabric (snd (send_msg_route M h m work s)) = self_fabric s"
  by (simp_all add: send_msg_route_def Let_def)

lemma available_workers_cong:
  "active_workers s' = active_workers s \<Longrightarrow> available_workers s' ro = available_workers s ro"
  by (simp add: available_workers_def split: option.splits)

lemma send_msg_route_ok:
  assumes "routes_to h s m r q" "wf_worker (heap s r)" "queue_stats s ''total'' \<noteq> None"
  shows "fst (send_msg_route M h m work s) =
           Inr (work_add M (worker_id (heap s r)) (int q) r
                   (stamped (self_fabric s) q (last_seq (heap s r) ! q + 1) m) work)"
    and "heap (snd (send_msg_route M h m work s)) =
           (heap s)(r := (heap s r)\<lparr>last_seq :=
                  (last_seq (heap s r))[q := last_seq (heap s r) ! q + 1]\<rparr>)"
    and "queue_stats (snd (send_msg_route M h m work s)) ''total'' \<noteq> None"
proof -
  let ?w = "heap s r"
  let ?m = "m\<lparr>fabric := self_fabric s\<rparr>"
  let ?ws = "available_workers s (role m)"
  from assms(1) have ws: "?ws \<noteq> []" and r: "?ws ! nat (h ?m mod int (length ?ws)) = r"
    and q0: "0 \<le> qnum m" and qn: "q < length (queues ?w)"
    and q: "q = (if qnum m \<ge> int (length (queues ?w)) then length (queues ?w) - 1 else nat (qnum m))"
    by (simp_all add: routes_to_def Let_def)
  have "fst (send_msg_route M h m work s) =
           Inr (work_add M (worker_id (heap s r)) (int q) r
                   (stamped (self_fabric s) q (last_seq (heap s r) ! q + 1) m) work) \<and>
     heap (snd (send_msg_route M h m work s)) =
           (heap s)(r := (heap s r)\<lparr>last_seq :=
                  (last_seq (heap s r))[q := last_seq (heap s r) ! q + 1]\<rparr>) \<and>
     queue_stats (snd (send_msg_route M h m work s)) ''total'' \<noteq> None"
  proof (cases "qnum m \<ge> int (length (queues ?w))")
    case True
    let ?s1 = "logger WARN ''unable to enqueue work on worker %s, queue %s does not exist''
                 [ArgStr (worker_id ?w), ArgInt (qnum ?m)] s"
    let ?m1 = "?m\<lparr>qnum := int (length (queues ?w)) - 1\<rparr>"
    let ?s2 = "logger DEBUG ''overwritting queue to %s'' [ArgInt (qnum ?m1)] ?s1"
    have qq: "int q = int (length (queues ?w)) - 1" using q True qn by simp
    have a: "wf_worker (heap ?s2 r)" "0 \<le> qnum ?m1" "qnum ?m1 < int (length (queues (heap ?s2 r)))"
      "queue_stats ?s2 ''total'' \<noteq> None"
      using assms(2,3) qn by auto
    have nq: "nat (qnum ?m1) = q" "qnum ?m1 = int q" using qq by simp_all
    have route: "send_msg_route M h m work s = send_msg_stamp M r ?m1 work ?s2"
      using ws r True qn by (auto simp: send_msg_route_def Let_def)
    have e: "?m1\<lparr>seq := x\<rparr> = stamped (self_fabric s) q x m" for x
      using qq by (simp add: stamped_def)
    show ?thesis
      unfolding route using send_msg_stamp_ok [OF a, of M work] nq e by simp
  next
    case False
    have qq: "int q = qnum m" using q False q0 by simp
    have a: "wf_worker (heap s r)" "0 \<le> qnum ?m" "qnum ?m < int (length (queues (heap s r)))"
      "queue_stats s ''total'' \<noteq> None"
      using assms(2,3) q0 False by simp_all
    have nq: "nat (qnum ?m) = q" "qnum ?m = int q" using qq by simp_all
    have route: "send_msg_route M h m work s = send_msg_stamp M r ?m work s"
      using ws r False by (simp add: send_msg_route_def Let_def)
    have e: "?m\<lparr>seq := x\<rparr> = stamped (self_fabric s) q x m" for x
      using qq by (simp add: stamped_def)
    show ?thesis
      unfolding route using send_msg_stamp_ok [OF a, of M work] nq e by simp
  qed
  then show "fst (send_msg_route M h m work s) =
           Inr (work_add M (worker_id (heap s r)) (int q) r
                   (stamped (self_fabric s) q (last_seq (heap s r) ! q + 1) m) work)"
    and "heap (snd (send_msg_route M h m work s)) =
           (heap s)(r := (heap s r)\<lparr>last_seq :=
                  (last_seq (heap s r))[q := last_seq (heap s r) ! q + 1]\<rparr>)"
    and "queue_stats (snd (send_msg_route M h m work s)) ''total'' \<noteq> None"
    by simp_all
qed

fun stamp_all :: "string \<Rightarrow> nat \<Rightarrow> int \<Rightarrow> eptMsgWork list \<Rightarrow> eptMsgWork list" where
  "stamp_all f q base [] = []"
| "stamp_all f q base (m # ms) = stamped f q (base + 1) m # stamp_all f q (base + 1) ms"

lemma routes_to_cong:
  "active_workers s' = active_workers s \<Longrightarrow> self_fabric s' = self_fabric s \<Longrightarrow>
   queues (heap s' r) = queues (heap s r) \<Longrightarrow> routes_to h s' m r q = routes_to h s m r q"
  by (simp add: routes_to_def available_workers_cong [of s' s])

lemma send_msg_collect_frame_all:
  "redis_lists (snd (send_msg_collect M h ms work s)) = redis_lists s \<and>
   redis_push_fail (snd (send_msg_collect M h ms work s)) = redis_push_fail s \<and>
   redis_published (snd (send_msg_collect M h ms work s)) = redis_published s \<and>
   active_workers (snd (send_msg_collect M h ms work s)) = active_workers s \<and>
   self_fabric (snd (send_msg_collect M h ms work s)) = self_fabric s"
proof (induction ms arbitrary: work s)
  case Nil
  show ?case by simp
next
  case (Cons m ms)
  obtain x s1 where r: "send_msg_route M h m work s = (x, s1)"
    by (cases "send_msg_route M h m work s")
  note fr = send_msg_route_frame [of M h m work s, unfolded r, simplified]
  show ?case
  proof (cases x)
    case (Inl e)
    then show ?thesis using r fr by simp
  next
    case (Inr w1)
    then show ?thesis using r fr Cons.IH [of w1 s1] by simp
  qed
qed

lemmas send_msg_collect_frame [simp] =
  send_msg_collect_frame_all [THEN conjunct1]
  send_msg_collect_frame_all [THEN conjunct2, THEN conjunct1]
  send_msg_collect_frame_all [THEN conjunct2, THEN conjunct2, THEN conjunct1]
  send_msg_collect_frame_all [THEN conjunct2, THEN conjunct2, THEN conjunct2, THEN conjunct1]
  send_msg_collect_frame_all [THEN conjunct2, THEN conjunct2, THEN conjunct2, THEN conjunct2]

lemma send_msg_collect_ok:
  assumes "\<forall>m \<in> set ms. routes_to h s m r q" "wf_worker (heap s r)" "queue_stats s ''total'' \<noteq> None"
    and "q < length (queues (heap s r))"
  shows "fst (send_msg_collect M h ms work s) =
           Inr (foldl (\<lambda>wk m'. work_add M (worker_id (heap s r)) (int q) r m' wk) work
                  (stamp_all (self_fabric s) q (last_seq (heap s r) ! q) ms)) \<and>
         heap (snd (send_msg_collect M h ms work s)) =
           (heap s)(r := (heap s r)\<lparr>last_seq :=
                  (last_seq (heap s r))[q := last_seq (heap s r) ! q + int (length ms)]\<rparr>) \<and>
         queue_stats (snd (send_msg_collect M h ms work s)) ''total'' \<noteq> None"
  using assms
proof (induction ms arbitrary: work s)
  case Nil
  then show ?case by simp
next
  case (Cons m ms)
  let ?w = "heap s r"
  let ?res = "send_msg_route M h m work s"
  let ?w1 = "work_add M (worker_id ?w) (int q) r (stamped (self_fabric s) q (last_seq ?w ! q + 1) m) work"
  have rt: "routes_to h s m r q" using Cons.prems(1) by simp
  note ok = send_msg_route_ok [OF rt Cons.prems(2,3), of M work]
  obtain s1 where res: "?res = (Inr ?w1, s1)" using ok(1) by (cases ?res) simp
  have s1: "snd ?res = s1" using res by simp
  note ok2 = ok(2,3) [unfolded s1] and fr = send_msg_route_frame [of M h m work s, unfolded s1]
  have qlen: "q < length (last_seq ?w)" using Cons.prems(2,4) by (simp add: wf_worker_def)
  have h1: "heap s1 r = ?w\<lparr>last_seq := (last_seq ?w)[q := last_seq ?w ! q + 1]\<rparr>"
    using ok2(1) by simp
  have wf1: "wf_worker (heap s1 r)" using Cons.prems(2) h1 by (simp add: wf_worker_def)
  have q1: "q < length (queues (heap s1 r))" using Cons.prems(4) h1 by simp
  have rts: "\<forall>m' \<in> set ms. routes_to h s1 m' r q"
    using Cons.prems(1) h1 fr by (simp add: routes_to_cong [of s1 s])
  note IH = Cons.IH [OF rts wf1 ok2(2) q1, of ?w1]
  have ls1: "last_seq (heap s1 r) ! q = last_seq ?w ! q + 1" using h1 qlen by simp
  have step: "send_msg_collect M h (m # ms) work s = send_msg_collect M h ms ?w1 s1"
    using res by simp
  have e1: "(heap s1)(r := X) = (heap s)(r := X)" for X
    using ok2(1) by simp
  have e2: "(heap s1 r)\<lparr>last_seq := (last_seq (heap s1 r))[q := v]\<rparr> =
            ?w\<lparr>last_seq := (last_seq ?w)[q := v]\<rparr>" for v
    using h1 by simp
  have e3: "last_seq ?w ! q + 1 + int (length ms) = last_seq ?w ! q + int (length (m # ms))"
    by simp
  have e4: "stamp_all (self_fabric s) q (last_seq ?w ! q) (m # ms) =
            stamped (self_fabric s) q (last_seq ?w ! q + 1) m #
            stamp_all (self_fabric s1) q (last_seq (heap s1 r) ! q) ms"
    using ls1 fr by simp
  have e5: "worker_id (heap s1 r) = worker_id ?w" using h1 by simp
  show ?case
    unfolding step e4 using IH unfolding e1 e2 ls1 e3 e5 by simp
qed

fun chunk_step :: "nat \<Rightarrow> 'a list list \<times> 'a list \<Rightarrow> 'a \<Rightarrow> 'a list list \<times> 'a list" where
  "chunk_step M (full, cur) m = (if length cur \<ge> M then (full @ [cur], [m]) else (full, cur @ [m]))"

definition chunk_inv :: "nat \<Rightarrow> 'a list list \<times> 'a list \<Rightarrow> bool" where
  "chunk_inv M p \<longleftrightarrow> (\<forall>b \<in> set (fst p). length b = M) \<and> 0 < length (snd p) \<and> length (snd p) \<le> M"

lemma work_add_empty:
  "0 < M \<Longrightarrow> work_add M wid qi r m [] = [(wid, [(qi, (r, [], [m]))])]"
  by (simp add: work_add_def)

lemma work_add_single:
  "work_add M wid qi r m [(wid, [(qi, (r0, p))])] = [(wid, [(qi, (r0, chunk_step M p m))])]"
  by (cases p) (simp add: work_add_def)

lemma foldl_work_add_single:
  "foldl (\<lambda>wk m'. work_add M wid qi r m' wk) [(wid, [(qi, (r0, p))])] xs =
   [(wid, [(qi, (r0, foldl (chunk_step M) p xs))])]"
  by (induction xs arbitrary: p) (simp_all add: work_add_single)

lemma foldl_work_add:
  "0 < M \<Longrightarrow> foldl (\<lambda>wk m'. work_add M wid qi r m' wk) [] (x # xs) =
   [(wid, [(qi, (r, foldl (chunk_step M) ([], [x]) xs))])]"
  by (simp add: work_add_empty foldl_work_add_single)

lemma chunk_step_inv:
  "0 < M \<Longrightarrow> chunk_inv M p \<Longrightarrow> chunk_inv M (chunk_step M p m)"
  by (cases p) (auto simp: chunk_inv_def)

lemma chunk_step_concat:
  "concat (fst (chunk_step M p m)) @ snd (chunk_step M p m) = concat (fst p) @ snd p @ [m]"
  by (cases p) simp

lemma foldl_chunk_inv:
  "0 < M \<Longrightarrow> chunk_inv M p \<Longrightarrow> chunk_inv M (foldl (chunk_step M) p xs)"
  by (induction xs arbitrary: p) (simp_all add: chunk_step_inv)

lemma foldl_chunk_concat:
  "concat (fst (foldl (chunk_step M) p xs)) @ snd (foldl (chunk_step M) p xs) = concat (fst p) @ snd p @ xs"
proof (induction xs arbitrary: p)
  case Nil
  show ?case by simp
next
  case (Cons x xs)
  show ?case using Cons.IH [of "chunk_step M p x"] chunk_step_concat [of M p x] by simp
qed

lemma chunk_inv_count:
  assumes "0 < M" "chunk_inv M p"
  shows "int (length (fst p) + 1) = \<lceil>real (length (concat (fst p) @ snd p)) / real M\<rceil>"
proof -
  have len: "length (concat (fst p)) = M * length (fst p)"
    using assms(2) unfolding chunk_inv_def
    by (induction "fst p" arbitrary: p) (auto simp: length_concat sum_list_const_mult)
  let ?k = "length (fst p)" and ?c = "length (snd p)"
  have c: "0 < ?c" "?c \<le> M" using assms(2) by (simp_all add: chunk_inv_def)
  have N: "real (length (concat (fst p) @ snd p)) = real M * real ?k + real ?c"
    using len by simp
  have Mr: "0 < real M" using assms(1) by simp
  have cr: "0 < real ?c" "real ?c \<le> real M" using c by simp_all
  have "real ?k * real M < real M * real ?k + real ?c" using cr by (simp add: mult.commute)
  then have "real ?k < (real M * real ?k + real ?c) / real M"
    using Mr by (simp only: pos_less_divide_eq)
  then have lo: "real_of_int (int (?k + 1)) - 1 < (real M * real ?k + real ?c) / real M"
    by simp
  have "real M * real ?k + real ?c \<le> (real ?k + 1) * real M"
    using cr by (simp add: algebra_simps)
  then have "(real M * real ?k + real ?c) / real M \<le> real ?k + 1"
    using Mr by (simp only: pos_divide_le_eq)
  then have hi: "(real M * real ?k + real ?c) / real M \<le> real_of_int (int (?k + 1))"
    by simp
  show ?thesis
    unfolding N using ceiling_unique [OF lo hi] by simp
qed

definition to_wire :: "eptMsgWork list \<Rightarrow> wire_msg" where
  "to_wire b = (if length b = 1 then MsgWork (hd b) else MsgBulk (seq (last b)) b)"

fun envelope_msgs :: "wire_msg \<Rightarrow> eptMsgWork list" where
  "envelope_msgs (MsgWork m) = [m]"
| "envelope_msgs (MsgBulk sq ms) = ms"
| "envelope_msgs (MsgFabricRestart f r) = []"
| "envelope_msgs (MsgHello n) = []"

lemma envelope_msgs_to_wire: "b \<noteq> [] \<Longrightarrow> envelope_msgs (to_wire b) = b"
  by (cases b) (auto simp: to_wire_def)

lemma send_msg_push_frame [simp]:
  "heap (snd (send_msg_push p r qi b s)) = heap s"
  "queue_stats (snd (send_msg_push p r qi b s)) = queue_stats s"
  by (auto simp: send_msg_push_def redis_push_def Let_def split: option.splits list.splits prod.splits bool.splits)

lemma send_msg_push_ok:
  assumes "wf_worker (heap s r)" "q < length (queues (heap s r))" "redis_push_fail s = []" "b \<noteq> []"
  shows "send_msg_push p r (int q) b s =
     (None, s\<lparr>redis_lists := (redis_lists s)(queues (heap s r) ! q :=
               (if p then to_wire b # redis_lists s (queues (heap s r) ! q)
                else redis_lists s (queues (heap s r) ! q) @ [to_wire b]))\<rparr>)"
proof -
  have i: "py_index (queue_locks (heap s r)) (int q) = Some q" "py_index (queues (heap s r)) (int q) = Some q"
    using assms(1,2) by (simp_all add: wf_worker_def py_index_def Let_def)
  show ?thesis
    using i assms(3,4) by (simp add: send_msg_push_def redis_push_def to_wire_def Let_def)
qed

lemma send_msg_bulks_ok:
  assumes "wf_worker (heap s r)" "q < length (queues (heap s r))" "redis_push_fail s = []"
    "\<forall>b \<in> set bs. b \<noteq> []"
  shows "fst (send_msg_bulks p r (int q) bs s) = None \<and>
     (\<forall>k. redis_lists (snd (send_msg_bulks p r (int q) bs s)) k =
       (if k = queues (heap s r) ! q
        then (if p then rev (map to_wire bs) @ redis_lists s k else redis_lists s k @ map to_wire bs)
        else redis_lists s k)) \<and>
     heap (snd (send_msg_bulks p r (int q) bs s)) = heap s \<and>
     queue_stats (snd (send_msg_bulks p r (int q) bs s)) = queue_stats s"
  using assms
proof (induction bs arbitrary: s)
  case Nil
  show ?case by simp
next
  case (Cons b bs)
  let ?qn = "queues (heap s r) ! q"
  let ?s1 = "s\<lparr>redis_lists := (redis_lists s)(?qn :=
               (if p then to_wire b # redis_lists s ?qn else redis_lists s ?qn @ [to_wire b]))\<rparr>"
  have b: "b \<noteq> []" using Cons.prems(4) by simp
  have one: "send_msg_push p r (int q) b s = (None, ?s1)"
    using send_msg_push_ok [OF Cons.prems(1,2,3) b] .
  have a: "wf_worker (heap ?s1 r)" "q < length (queues (heap ?s1 r))" "redis_push_fail ?s1 = []"
    "\<forall>b \<in> set bs. b \<noteq> []"
    using Cons.prems by simp_all
  have step: "send_msg_bulks p r (int q) (b # bs) s = send_msg_bulks p r (int q) bs ?s1"
    using one by simp
  show ?case
    unfolding step using Cons.IH [OF a] by simp
qed

definition bulk_ok :: "nat \<Rightarrow> wire_msg \<Rightarrow> bool" where
  "bulk_ok M e =
     (case e of MsgWork m \<Rightarrow> True
      | MsgBulk sq xs \<Rightarrow> 1 < length xs \<and> length xs \<le> M \<and> sq = seq (last xs)
      | MsgFabricRestart f r \<Rightarrow> False
      | MsgHello n \<Rightarrow> False)"

lemma length_stamp_all [simp]: "length (stamp_all f q b ms) = length ms"
  by (induction ms arbitrary: b) simp_all

lemma seq_stamp_all:
  "map seq (stamp_all f q b ms) = map (\<lambda>i. b + 1 + int i) [0..<length ms]"
proof (induction ms arbitrary: b)
  case Nil
  show ?case by simp
next
  case (Cons m ms)
  have "map (\<lambda>i. b + 1 + int i) [0..<length (m # ms)] =
        (b + 1) # map (\<lambda>i. b + 1 + int (Suc i)) [0..<length ms]"
    by (simp add: upt_conv_Cons map_Suc_upt [symmetric] del: upt_Suc)
  then show ?case using Cons.IH [of "b + 1"] by (simp add: stamped_def algebra_simps)
qed

lemma bulk_ok_to_wire: "b \<noteq> [] \<Longrightarrow> length b \<le> M \<Longrightarrow> bulk_ok M (to_wire b)"
  by (cases b) (auto simp: bulk_ok_def to_wire_def)

lemma concat_envelopes:
  "\<forall>b \<in> set bs. b \<noteq> [] \<Longrightarrow> concat (map envelope_msgs (map to_wire bs)) = concat bs"
  by (induction bs) (simp_all add: envelope_msgs_to_wire)

lemma send_msg_workers_single:
  "send_msg_workers p [(wid, [(qi, (r, full, cur))])] s = send_msg_bulks p r qi (full @ [cur]) s"
  by (cases "send_msg_bulks p r qi (full @ [cur]) s") (auto split: option.splits)

text \<open>
  C1 (as amended). A call of \<^verbatim>\<open>send_msg\<close> with a batch of \<open>N \<ge> 1\<close> messages that all
  route to the same worker and queue number, every push succeeding: the envelopes
  pushed to that queue (appended in order, or with \<open>prepend\<close> each put in front of the
  one before) number \<open>ceil (N / MAX_SEND_MSG_LENGTH)\<close>, and no other queue changes; the
  inner messages of the envelopes, in order, are the messages of the batch stamped with
  the fabric, the queue number and the sequence numbers \<open>last_seq + 1, ..., last_seq + N\<close>;
  an envelope is either a plain message or a bulk of 2 to \<open>MAX_SEND_MSG_LENGTH\<close>
  messages whose outer \<open>seq\<close> is the \<open>seq\<close> of its last message; and a batch of one
  message is pushed as that plain message. (For the empty batch the claim's
  \<open>max(1, ...)\<close> does not hold: nothing is pushed.)
\<close>

theorem send_msg_bulk_emission:
  assumes "0 < M" "ms \<noteq> []" "\<forall>m \<in> set ms. routes_to h s m r q"
    and "wf_worker (heap s r)" "queue_stats s ''total'' \<noteq> None" "redis_push_fail s = []"
  shows "\<exists>envs.
     fst (send_msg M h ms p s) = None \<and>
     redis_lists (snd (send_msg M h ms p s)) (queues (heap s r) ! q) =
       (if p then rev envs @ redis_lists s (queues (heap s r) ! q)
        else redis_lists s (queues (heap s r) ! q) @ envs) \<and>
     (\<forall>k. k \<noteq> queues (heap s r) ! q \<longrightarrow> redis_lists (snd (send_msg M h ms p s)) k = redis_lists s k) \<and>
     int (length envs) = \<lceil>real (length ms) / real M\<rceil> \<and>
     concat (map envelope_msgs envs) = stamp_all (self_fabric s) q (last_seq (heap s r) ! q) ms \<and>
     (\<forall>e \<in> set envs. bulk_ok M e) \<and>
     (length ms = 1 \<longrightarrow>
        envs = [MsgWork (stamped (self_fabric s) q (last_seq (heap s r) ! q + 1) (hd ms))]) \<and>
     map seq (stamp_all (self_fabric s) q (last_seq (heap s r) ! q) ms) =
       map (\<lambda>i. last_seq (heap s r) ! q + 1 + int i) [0..<length ms]"
proof -
  let ?w = "heap s r"
  let ?f = "self_fabric s"
  let ?b = "last_seq ?w ! q"
  let ?qn = "queues ?w ! q"
  obtain x xs where ms: "ms = x # xs" using assms(2) by (cases ms) auto
  have qlen: "q < length (queues ?w)" using assms(3) ms by (simp add: routes_to_def Let_def)
  let ?x' = "stamped ?f q (?b + 1) x"
  let ?xs' = "stamp_all ?f q (?b + 1) xs"
  let ?P = "foldl (chunk_step M) ([], [?x']) ?xs'"
  obtain full cur where P: "?P = (full, cur)" by (cases ?P)
  have st: "stamp_all ?f q ?b ms = ?x' # ?xs'" using ms by simp
  note col = send_msg_collect_ok [OF assms(3,4,5) qlen, of M "[]"]
  have work: "fst (send_msg_collect M h ms [] s) = Inr [(worker_id ?w, [(int q, (r, full, cur))])]"
    using col st foldl_work_add [OF assms(1), of "worker_id ?w" "int q" r ?x' ?xs'] P by simp
  obtain s1 where s1: "send_msg_collect M h ms [] s = (Inr [(worker_id ?w, [(int q, (r, full, cur))])], s1)"
    using work by (cases "send_msg_collect M h ms [] s") simp
  have snd1: "snd (send_msg_collect M h ms [] s) = s1" using s1 by simp
  note fr = send_msg_collect_frame [of M h ms "[]" s, unfolded snd1]
  have h1: "heap s1 r = ?w\<lparr>last_seq := (last_seq ?w)[q := ?b + int (length ms)]\<rparr>"
    using col snd1 by simp
  have inv0: "chunk_inv M ([], [?x'])" using assms(1) by (simp add: chunk_inv_def)
  have inv: "chunk_inv M (full, cur)"
    using foldl_chunk_inv [OF assms(1) inv0, of ?xs'] P by simp
  have cat: "concat full @ cur = ?x' # ?xs'"
    using foldl_chunk_concat [of M "([], [?x'])" ?xs'] P by simp
  have ne: "\<forall>b \<in> set (full @ [cur]). b \<noteq> []"
    using inv assms(1) by (auto simp: chunk_inv_def)
  have le: "\<forall>b \<in> set (full @ [cur]). length b \<le> M"
    using inv by (auto simp: chunk_inv_def)
  have a: "wf_worker (heap s1 r)" "q < length (queues (heap s1 r))" "redis_push_fail s1 = []"
    using assms(4,6) qlen h1 fr by (simp_all add: wf_worker_def)
  note push = send_msg_bulks_ok [OF a ne, of p]
  have send: "send_msg M h ms p s = send_msg_bulks p r (int q) (full @ [cur]) s1"
    using s1 by (simp add: send_msg_def send_msg_workers_single del: send_msg_workers.simps)
  let ?envs = "map to_wire (full @ [cur])"
  have qn1: "queues (heap s1 r) ! q = ?qn" using h1 by simp
  have c1: "fst (send_msg M h ms p s) = None" unfolding send using push by simp
  have c2: "redis_lists (snd (send_msg M h ms p s)) ?qn =
       (if p then rev ?envs @ redis_lists s ?qn else redis_lists s ?qn @ ?envs)"
    unfolding send using push qn1 fr by simp
  have c3: "\<forall>k. k \<noteq> ?qn \<longrightarrow> redis_lists (snd (send_msg M h ms p s)) k = redis_lists s k"
    unfolding send using push qn1 fr by simp
  have c4: "int (length ?envs) = \<lceil>real (length ms) / real M\<rceil>"
    using chunk_inv_count [OF assms(1) inv] cat ms by simp
  have c5: "concat (map envelope_msgs ?envs) = stamp_all ?f q ?b ms"
    using concat_envelopes [OF ne] cat st by simp
  have c6: "\<forall>e \<in> set ?envs. bulk_ok M e"
    using ne le by (auto simp: bulk_ok_to_wire)
  have c7: "length ms = 1 \<longrightarrow> ?envs = [MsgWork (stamped ?f q (?b + 1) (hd ms))]"
  proof
    assume "length ms = 1"
    then have "xs = []" using ms by simp
    then have "full = []" "cur = [?x']" using P by simp_all
    then show "?envs = [MsgWork (stamped ?f q (?b + 1) (hd ms))]"
      using ms by (simp add: to_wire_def)
  qed
  have c8: "map seq (stamp_all ?f q ?b ms) = map (\<lambda>i. ?b + 1 + int i) [0..<length ms]"
    by (rule seq_stamp_all)
  show ?thesis
    by (intro exI [of _ ?envs] conjI c1 c2 c3 c4 c5 c6 c7 c8)
qed

text \<open>Two states that agree on what the first loop of send_msg reads.\<close>

definition same_routing :: "subscriber \<Rightarrow> subscriber \<Rightarrow> bool" where
  "same_routing s s' \<longleftrightarrow>
     heap s = heap s' \<and> queue_stats s = queue_stats s' \<and>
     active_workers s = active_workers s' \<and> self_fabric s = self_fabric s'"

lemma same_routing_logger [simp]:
  "same_routing (logger l f a s) s' = same_routing s s'"
  "same_routing s (logger l f a s') = same_routing s s'"
  by (simp_all add: same_routing_def logger_def)

lemma increment_stats_same:
  "queue_stats s = queue_stats s' \<Longrightarrow>
   fst (increment_stats qn tx c s) = fst (increment_stats qn tx c s') \<and>
   queue_stats (snd (increment_stats qn tx c s)) = queue_stats (snd (increment_stats qn tx c s'))"
  by (simp add: increment_stats_def Let_def split: option.splits)

lemma send_msg_stamp_same:
  assumes "same_routing s s'"
  shows "fst (send_msg_stamp M r m work s) = fst (send_msg_stamp M r m work s') \<and>
         same_routing (snd (send_msg_stamp M r m work s)) (snd (send_msg_stamp M r m work s'))"
proof -
  have h: "heap s = heap s'" and q: "queue_stats s = queue_stats s'"
    and a: "active_workers s = active_workers s'" and f: "self_fabric s = self_fabric s'"
    using assms by (simp_all add: same_routing_def)
  show ?thesis
  proof (cases "py_index (queue_locks (heap s r)) (qnum m)")
    case None
    then show ?thesis using assms h by (simp add: send_msg_stamp_def Let_def)
  next
    case L: (Some l)
    show ?thesis
    proof (cases "py_index (last_seq (heap s r)) (qnum m)")
      case None
      then show ?thesis using assms h L by (simp add: send_msg_stamp_def Let_def)
    next
      case I: (Some i)
      let ?H = "(heap s)(r := (heap s r)\<lparr>last_seq := (last_seq (heap s r))[i := last_seq (heap s r) ! i + 1]\<rparr>)"
      let ?s1 = "s\<lparr>heap := ?H\<rparr>" and ?s1' = "s'\<lparr>heap := ?H\<rparr>"
      have sr1: "same_routing ?s1 ?s1'" using assms by (simp add: same_routing_def)
      show ?thesis
      proof (cases "py_index (queues (heap s r)) (qnum m)")
        case None
        then show ?thesis using sr1 h L I by (simp add: send_msg_stamp_def Let_def)
      next
        case J: (Some j)
        let ?qn = "queues (heap s r) ! j"
        have qs1: "queue_stats ?s1 = queue_stats ?s1'" using q by simp
        note inc = increment_stats_same [OF qs1, of ?qn True 1]
        obtain e1 t1 where r1: "increment_stats ?qn True 1 ?s1 = (e1, t1)" by (cases "increment_stats ?qn True 1 ?s1")
        obtain e2 t2 where r2: "increment_stats ?qn True 1 ?s1' = (e2, t2)" by (cases "increment_stats ?qn True 1 ?s1'")
        have e: "e1 = e2" and qq: "queue_stats t1 = queue_stats t2" using inc r1 r2 by simp_all
        have fr1: "heap t1 = ?H" "active_workers t1 = active_workers s" "self_fabric t1 = self_fabric s"
          using increment_stats_frame(1,5,6) [of ?qn True 1 ?s1] r1 by simp_all
        have fr2: "heap t2 = ?H" "active_workers t2 = active_workers s'" "self_fabric t2 = self_fabric s'"
          using increment_stats_frame(1,5,6) [of ?qn True 1 ?s1'] r2 by simp_all
        have sr2: "same_routing t1 t2" using fr1 fr2 qq a f by (simp add: same_routing_def)
        show ?thesis
          using h L I J r1 r2 e sr2 by (simp add: send_msg_stamp_def Let_def split: option.splits)
      qed
    qed
  qed
qed

lemma send_msg_route_same:
  assumes "same_routing s s'"
  shows "fst (send_msg_route M h m work s) = fst (send_msg_route M h m work s') \<and>
         same_routing (snd (send_msg_route M h m work s)) (snd (send_msg_route M h m work s'))"
proof -
  have h: "heap s = heap s'" and f: "self_fabric s = self_fabric s'"
    using assms by (simp_all add: same_routing_def)
  have a: "available_workers s ro = available_workers s' ro" for ro
    using assms by (simp add: same_routing_def available_workers_cong [of s s'])
  let ?m = "m\<lparr>fabric := self_fabric s\<rparr>"
  let ?ws = "available_workers s (role m)"
  let ?r = "?ws ! nat (h ?m mod int (length ?ws))"
  let ?w = "heap s ?r"
  show ?thesis
  proof (cases "?ws = []")
    case True
    then show ?thesis using assms a [of "role m"] by (simp add: send_msg_route_def Let_def)
  next
    case ne: False
    show ?thesis
    proof (cases "qnum m \<ge> int (length (queues ?w))")
      case False
      have e1: "send_msg_route M h m work s = send_msg_stamp M ?r ?m work s"
        using ne False by (simp add: send_msg_route_def Let_def)
      have e2: "send_msg_route M h m work s' = send_msg_stamp M ?r ?m work s'"
        using ne False a [of "role m"] h f by (simp add: send_msg_route_def Let_def)
      show ?thesis unfolding e1 e2 by (rule send_msg_stamp_same [OF assms])
    next
      case big: True
      show ?thesis
      proof (cases "length (queues ?w) > 0")
        case False
        then show ?thesis
          using ne big a [of "role m"] h f assms by (simp add: send_msg_route_def Let_def)
      next
        case True
        let ?s1 = "logger WARN ''unable to enqueue work on worker %s, queue %s does not exist''
                     [ArgStr (worker_id ?w), ArgInt (qnum ?m)]"
        let ?m1 = "?m\<lparr>qnum := int (length (queues ?w)) - 1\<rparr>"
        let ?s2 = "logger DEBUG ''overwritting queue to %s'' [ArgInt (qnum ?m1)]"
        have e1: "send_msg_route M h m work s = send_msg_stamp M ?r ?m1 work (?s2 (?s1 s))"
          using ne big True by (simp add: send_msg_route_def Let_def)
        have e2: "send_msg_route M h m work s' = send_msg_stamp M ?r ?m1 work (?s2 (?s1 s'))"
          using ne big True a [of "role m"] h f by (simp add: send_msg_route_def Let_def)
        have sr: "same_routing (?s2 (?s1 s)) (?s2 (?s1 s'))" using assms by simp
        show ?thesis unfolding e1 e2 by (rule send_msg_stamp_same [OF sr])
      qed
    qed
  qed
qed

lemma send_msg_collect_same:
  "same_routing s s' \<Longrightarrow>
   fst (send_msg_collect M h ms work s) = fst (send_msg_collect M h ms work s') \<and>
   same_routing (snd (send_msg_collect M h ms work s)) (snd (send_msg_collect M h ms work s'))"
proof (induction ms arbitrary: work s s')
  case Nil
  then show ?case by simp
next
  case (Cons m ms)
  obtain x t where r1: "send_msg_route M h m work s = (x, t)" by (cases "send_msg_route M h m work s")
  obtain x' t' where r2: "send_msg_route M h m work s' = (x', t')" by (cases "send_msg_route M h m work s'")
  have x: "x = x'" and sr: "same_routing t t'"
    using send_msg_route_same [OF Cons.prems, of M h m work] r1 r2 by simp_all
  show ?case
  proof (cases x)
    case (Inl e)
    then show ?thesis using r1 r2 x sr by simp
  next
    case (Inr w1)
    then show ?thesis using r1 r2 x Cons.IH [OF sr, of w1] by simp
  qed
qed

lemma send_msg_push_frame2 [simp]:
  "active_workers (snd (send_msg_push p r qi b s)) = active_workers s"
  "self_fabric (snd (send_msg_push p r qi b s)) = self_fabric s"
  by (auto simp: send_msg_push_def redis_push_def Let_def split: option.splits list.splits prod.splits bool.splits)

lemma send_msg_push_fst:
  "heap s = heap s' \<Longrightarrow> fst (send_msg_push p r qi b s) = fst (send_msg_push p r qi b s')"
  by (auto simp: send_msg_push_def redis_push_def Let_def split: option.splits list.splits prod.splits bool.splits)

lemma send_msg_bulks_same:
  "heap s = heap s' \<Longrightarrow>
   fst (send_msg_bulks p r qi bs s) = fst (send_msg_bulks p r qi bs s') \<and>
   heap (snd (send_msg_bulks p r qi bs s)) = heap s \<and>
   queue_stats (snd (send_msg_bulks p r qi bs s)) = queue_stats s"
proof (induction bs arbitrary: s s')
  case Nil
  then show ?case by simp
next
  case (Cons b bs)
  obtain x t where r1: "send_msg_push p r qi b s = (x, t)" by (cases "send_msg_push p r qi b s")
  obtain x' t' where r2: "send_msg_push p r qi b s' = (x', t')" by (cases "send_msg_push p r qi b s'")
  have x: "x = x'" using send_msg_push_fst [OF Cons.prems, of p r qi b] r1 r2 by simp
  have ht: "heap t = heap s" "queue_stats t = queue_stats s"
    using send_msg_push_frame [of p r qi b s] r1 by simp_all
  have ht': "heap t' = heap s'" using send_msg_push_frame(1) [of p r qi b s'] r2 by simp
  have tt: "heap t = heap t'" using ht ht' Cons.prems by simp
  show ?case
  proof (cases x)
    case None
    then show ?thesis using r1 r2 x ht Cons.IH [OF tt] by simp
  next
    case (Some e)
    then show ?thesis using r1 r2 x ht by simp
  qed
qed

lemma send_msg_queues_same:
  "heap s = heap s' \<Longrightarrow>
   fst (send_msg_queues p es s) = fst (send_msg_queues p es s') \<and>
   heap (snd (send_msg_queues p es s)) = heap s \<and>
   queue_stats (snd (send_msg_queues p es s)) = queue_stats s"
proof (induction es arbitrary: s s')
  case Nil
  then show ?case by simp
next
  case (Cons e es)
  obtain qi r full cur where e: "e = (qi, (r, full, cur))" by (cases e) auto
  note b = send_msg_bulks_same [OF Cons.prems, of p r qi "full @ [cur]"]
  note b' = send_msg_bulks_same [of s' s' p r qi "full @ [cur]"]
  obtain x t where r1: "send_msg_bulks p r qi (full @ [cur]) s = (x, t)"
    by (cases "send_msg_bulks p r qi (full @ [cur]) s")
  obtain x' t' where r2: "send_msg_bulks p r qi (full @ [cur]) s' = (x', t')"
    by (cases "send_msg_bulks p r qi (full @ [cur]) s'")
  have x: "x = x'" and ht: "heap t = heap s" "queue_stats t = queue_stats s"
    using b r1 r2 by simp_all
  have tt: "heap t = heap t'" using ht b' r2 Cons.prems by simp
  show ?case
  proof (cases x)
    case None
    then show ?thesis using e r1 r2 x ht Cons.IH [OF tt] by simp
  next
    case (Some err)
    then show ?thesis using e r1 r2 x ht by simp
  qed
qed

lemma send_msg_workers_same:
  "heap s = heap s' \<Longrightarrow>
   fst (send_msg_workers p work s) = fst (send_msg_workers p work s') \<and>
   heap (snd (send_msg_workers p work s)) = heap s \<and>
   queue_stats (snd (send_msg_workers p work s)) = queue_stats s"
proof (induction work arbitrary: s s')
  case Nil
  then show ?case by simp
next
  case (Cons e es)
  obtain wid inner where e: "e = (wid, inner)" by (cases e)
  note b = send_msg_queues_same [OF Cons.prems, of p inner]
  note b' = send_msg_queues_same [of s' s' p inner]
  obtain x t where r1: "send_msg_queues p inner s = (x, t)" by (cases "send_msg_queues p inner s")
  obtain x' t' where r2: "send_msg_queues p inner s' = (x', t')" by (cases "send_msg_queues p inner s'")
  have x: "x = x'" and ht: "heap t = heap s" "queue_stats t = queue_stats s"
    using b r1 r2 by simp_all
  have tt: "heap t = heap t'" using ht b' r2 Cons.prems by simp
  show ?case
  proof (cases x)
    case None
    then show ?thesis using e r1 r2 x ht Cons.IH [OF tt] by simp
  next
    case (Some err)
    then show ?thesis using e r1 r2 x ht by simp
  qed
qed

text \<open>
  What send_msg returns and what it leaves in the sequence counters and in the
  statistics depend on the workers, the statistics and the fabric only: not on the
  broker, and so not on whether a push fails.
\<close>

lemma send_msg_same:
  assumes "same_routing s s'"
  shows "fst (send_msg M h ms p s) = fst (send_msg M h ms p s') \<and>
         heap (snd (send_msg M h ms p s)) = heap (snd (send_msg M h ms p s')) \<and>
         queue_stats (snd (send_msg M h ms p s)) = queue_stats (snd (send_msg M h ms p s'))"
proof -
  obtain x t where r1: "send_msg_collect M h ms [] s = (x, t)" by (cases "send_msg_collect M h ms [] s")
  obtain x' t' where r2: "send_msg_collect M h ms [] s' = (x', t')" by (cases "send_msg_collect M h ms [] s'")
  have x: "x = x'" and sr: "same_routing t t'"
    using send_msg_collect_same [OF assms, of M h ms "[]"] r1 r2 by simp_all
  have ht: "heap t = heap t'" "queue_stats t = queue_stats t'" using sr by (simp_all add: same_routing_def)
  show ?thesis
  proof (cases x)
    case (Inl e)
    then show ?thesis using r1 r2 x ht by (simp add: send_msg_def)
  next
    case (Inr work)
    note w = send_msg_workers_same [OF ht(1), of p work]
    note w' = send_msg_workers_same [of t' t' p work]
    show ?thesis using Inr r1 r2 x ht w w' by (simp add: send_msg_def)
  qed
qed


lemma send_msg_stamp_stats:
  assumes "wf_worker (heap s r)" "0 \<le> qnum m" "qnum m < int (length (queues (heap s r)))"
  shows "queue_stats (snd (send_msg_stamp M r m work s)) =
         queue_stats (snd (increment_stats (queues (heap s r) ! nat (qnum m)) True 1 s))"
proof -
  let ?w = "heap s r"
  let ?s1 = "s\<lparr>heap := (heap s)(r := ?w\<lparr>last_seq :=
                  (last_seq ?w)[nat (qnum m) := last_seq ?w ! nat (qnum m) + 1]\<rparr>)\<rparr>"
  let ?qn = "queues ?w ! nat (qnum m)"
  have i1: "py_index (queue_locks ?w) (qnum m) = Some (nat (qnum m))"
    and i2: "py_index (last_seq ?w) (qnum m) = Some (nat (qnum m))"
    and i3: "py_index (queues ?w) (qnum m) = Some (nat (qnum m))"
    using assms by (simp_all add: wf_worker_def py_index_in_range)
  have "queue_stats ?s1 = queue_stats s" by simp
  note inc = increment_stats_same [OF this, of ?qn True 1]
  obtain e t where r: "increment_stats ?qn True 1 ?s1 = (e, t)" by (cases "increment_stats ?qn True 1 ?s1")
  have "queue_stats (snd (send_msg_stamp M r m work s)) = queue_stats t"
    using i1 i2 i3 r by (simp add: send_msg_stamp_def Let_def split: option.splits)
  then show ?thesis using inc r by simp
qed

lemma send_msg_route_stats:
  assumes "routes_to h s m r q" "wf_worker (heap s r)"
  shows "queue_stats (snd (send_msg_route M h m work s)) =
         queue_stats (snd (increment_stats (queues (heap s r) ! q) True 1 s))"
proof -
  let ?w = "heap s r"
  let ?m = "m\<lparr>fabric := self_fabric s\<rparr>"
  let ?ws = "available_workers s (role m)"
  from assms(1) have ws: "?ws \<noteq> []" and r: "?ws ! nat (h ?m mod int (length ?ws)) = r"
    and q0: "0 \<le> qnum m" and qn: "q < length (queues ?w)"
    and q: "q = (if qnum m \<ge> int (length (queues ?w)) then length (queues ?w) - 1 else nat (qnum m))"
    by (simp_all add: routes_to_def Let_def)
  show ?thesis
  proof (cases "qnum m \<ge> int (length (queues ?w))")
    case True
    let ?s1 = "logger WARN ''unable to enqueue work on worker %s, queue %s does not exist''
                 [ArgStr (worker_id ?w), ArgInt (qnum ?m)] s"
    let ?m1 = "?m\<lparr>qnum := int (length (queues ?w)) - 1\<rparr>"
    let ?s2 = "logger DEBUG ''overwritting queue to %s'' [ArgInt (qnum ?m1)] ?s1"
    have qq: "int q = int (length (queues ?w)) - 1" using q True qn by simp
    have a: "wf_worker (heap ?s2 r)" "0 \<le> qnum ?m1" "qnum ?m1 < int (length (queues (heap ?s2 r)))"
      using assms(2) qn by auto
    have nq: "nat (qnum ?m1) = q" using qq by simp
    have route: "send_msg_route M h m work s = send_msg_stamp M r ?m1 work ?s2"
      using ws r True qn by (auto simp: send_msg_route_def Let_def)
    have "queue_stats ?s2 = queue_stats s" by simp
    note inc = increment_stats_same [OF this, of "queues ?w ! q" True 1]
    show ?thesis
      unfolding route send_msg_stamp_stats [OF a] nq using inc by simp
  next
    case False
    have qq: "int q = qnum m" using q False q0 by simp
    have a: "wf_worker (heap s r)" "0 \<le> qnum ?m" "qnum ?m < int (length (queues (heap s r)))"
      using assms(2) q0 False by simp_all
    have nq: "nat (qnum ?m) = q" using qq by simp
    have route: "send_msg_route M h m work s = send_msg_stamp M r ?m work s"
      using ws r False by (simp add: send_msg_route_def Let_def)
    show ?thesis
      unfolding route send_msg_stamp_stats [OF a] nq by simp
  qed
qed

text \<open>send_msg with one message: the first loop, then one push of the plain message.\<close>

lemma send_msg_one:
  assumes "0 < M" "routes_to h s m r q" "wf_worker (heap s r)" "queue_stats s ''total'' \<noteq> None"
  shows "send_msg M h [m] p s =
         send_msg_push p r (int q) [stamped (self_fabric s) q (last_seq (heap s r) ! q + 1) m]
           (snd (send_msg_route M h m [] s))"
proof -
  note ok = send_msg_route_ok [OF assms(2,3,4), of M "[]"]
  obtain s1 where r1: "send_msg_route M h m [] s =
      (Inr [(worker_id (heap s r), [(int q, (r, [], [stamped (self_fabric s) q (last_seq (heap s r) ! q + 1) m]))])], s1)"
    using ok(1) work_add_empty [OF assms(1)] by (cases "send_msg_route M h m [] s") simp
  show ?thesis
    using r1 by (simp add: send_msg_def split: prod.splits option.splits)
qed

lemma send_msg_push_one:
  assumes "wf_worker (heap s r)" "q < length (queues (heap s r))"
  shows "send_msg_push p r (int q) [m] s =
     (case redis_push p (queues (heap s r) ! q) (MsgWork m) s of
        (True, s1) \<Rightarrow> (None, s1)
      | (False, s1) \<Rightarrow>
          (None, logger ERROR ''failed to enqueue msg on queue (%s) %s: %s''
                   [ArgObj, ArgStr (queues (heap s r) ! q), ArgObj]
                   (logger DEBUG ''Traceback: %s'' [ArgObj] s1)))"
proof -
  have i: "py_index (queue_locks (heap s r)) (int q) = Some q" "py_index (queues (heap s r)) (int q) = Some q"
    using assms by (simp_all add: wf_worker_def py_index_def Let_def)
  show ?thesis using i by (simp add: send_msg_push_def Let_def)
qed

lemma redis_push_ok:
  "redis_push_fail s = [] \<Longrightarrow>
   redis_push p k v s = (True, s\<lparr>redis_lists := (redis_lists s)(k := (if p then v # redis_lists s k else redis_lists s k @ [v]))\<rparr>)"
  by (simp add: redis_push_def)


text \<open>One message that is routed, its push succeeding.\<close>

lemma send_msg_one_ok:
  assumes "0 < M" "routes_to h s m r q" "wf_worker (heap s r)" "queue_stats s ''total'' \<noteq> None"
    and "redis_push_fail s = []"
  shows "fst (send_msg M h [m] p s) = None"
    and "redis_lists (snd (send_msg M h [m] p s)) (queues (heap s r) ! q) =
           (if p then MsgWork (stamped (self_fabric s) q (last_seq (heap s r) ! q + 1) m) #
                      redis_lists s (queues (heap s r) ! q)
            else redis_lists s (queues (heap s r) ! q) @
                   [MsgWork (stamped (self_fabric s) q (last_seq (heap s r) ! q + 1) m)])"
    and "\<forall>k. k \<noteq> queues (heap s r) ! q \<longrightarrow> redis_lists (snd (send_msg M h [m] p s)) k = redis_lists s k"
    and "heap (snd (send_msg M h [m] p s)) =
           (heap s)(r := (heap s r)\<lparr>last_seq :=
                  (last_seq (heap s r))[q := last_seq (heap s r) ! q + 1]\<rparr>)"
    and "queue_stats (snd (send_msg M h [m] p s)) =
           queue_stats (snd (increment_stats (queues (heap s r) ! q) True 1 s))"
proof -
  let ?s1 = "snd (send_msg_route M h m [] s)"
  let ?m' = "stamped (self_fabric s) q (last_seq (heap s r) ! q + 1) m"
  let ?qn = "queues (heap s r) ! q"
  note ok = send_msg_route_ok [OF assms(2,3,4), of M "[]"]
  have qlen: "q < length (queues (heap s r))" using assms(2) by (simp add: routes_to_def Let_def)
  have h1: "heap ?s1 r = (heap s r)\<lparr>last_seq := (last_seq (heap s r))[q := last_seq (heap s r) ! q + 1]\<rparr>"
    using ok(2) by simp
  have a: "wf_worker (heap ?s1 r)" "q < length (queues (heap ?s1 r))"
    using assms(3) qlen h1 by (simp_all add: wf_worker_def)
  have qn1: "queues (heap ?s1 r) ! q = ?qn" using h1 by simp
  have pf: "redis_push_fail ?s1 = []" using assms(5) by simp
  have rl: "redis_lists ?s1 = redis_lists s" by simp
  have one: "send_msg M h [m] p s =
     (None, ?s1\<lparr>redis_lists := (redis_lists ?s1)(?qn :=
                (if p then MsgWork ?m' # redis_lists ?s1 ?qn else redis_lists ?s1 ?qn @ [MsgWork ?m']))\<rparr>)"
    unfolding send_msg_one [OF assms(1,2,3,4)] send_msg_push_one [OF a] qn1 redis_push_ok [OF pf]
    by simp
  show "fst (send_msg M h [m] p s) = None" unfolding one by simp
  show "redis_lists (snd (send_msg M h [m] p s)) ?qn =
           (if p then MsgWork ?m' # redis_lists s ?qn else redis_lists s ?qn @ [MsgWork ?m'])"
    unfolding one using rl by simp
  show "\<forall>k. k \<noteq> ?qn \<longrightarrow> redis_lists (snd (send_msg M h [m] p s)) k = redis_lists s k"
    unfolding one using rl by simp
  show "heap (snd (send_msg M h [m] p s)) =
           (heap s)(r := (heap s r)\<lparr>last_seq :=
                  (last_seq (heap s r))[q := last_seq (heap s r) ! q + 1]\<rparr>)"
    unfolding one using ok(2) by simp
  show "queue_stats (snd (send_msg M h [m] p s)) =
           queue_stats (snd (increment_stats ?qn True 1 s))"
    unfolding one using send_msg_route_stats [OF assms(2,3), of M "[]"] by simp
qed


lemma routes_toI:
  assumes "available_workers s (role m) \<noteq> []"
    and "r = available_workers s (role m) !
               nat (h (m\<lparr>fabric := self_fabric s\<rparr>) mod int (length (available_workers s (role m))))"
    and "queues (heap s r) \<noteq> []" "0 \<le> qnum m"
    and "q = (if qnum m \<ge> int (length (queues (heap s r))) then length (queues (heap s r)) - 1
              else nat (qnum m))"
  shows "routes_to h s m r q"
  using assms by (auto simp: routes_to_def Let_def)

lemma send_msg_no_workers:
  assumes "available_workers s (role m) = []"
  shows "send_msg_route M h m work s =
           (Inr work, logger WARN (''no available workers for role '' @ apos @ ''%s'' @ apos) [ArgObj] s)"
    and "send_msg M h [m] p s =
           (None, logger WARN (''no available workers for role '' @ apos @ ''%s'' @ apos) [ArgObj] s)"
  using assms by (simp_all add: send_msg_def send_msg_route_def Let_def)

text \<open>
  The worker and the queue number that lines 359 to 366 choose for a message, and the
  counter that line 381 consumes.
\<close>

definition chosen_worker :: "(eptMsgWork \<Rightarrow> int) \<Rightarrow> subscriber \<Rightarrow> eptMsgWork \<Rightarrow> wref" where
  "chosen_worker h s m =
     available_workers s (role m) !
       nat (h (m\<lparr>fabric := self_fabric s\<rparr>) mod int (length (available_workers s (role m))))"

definition chosen_queue :: "(eptMsgWork \<Rightarrow> int) \<Rightarrow> subscriber \<Rightarrow> eptMsgWork \<Rightarrow> nat" where
  "chosen_queue h s m =
     (let n = length (queues (heap s (chosen_worker h s m)))
      in if qnum m \<ge> int n then n - 1 else nat (qnum m))"

definition routable :: "(eptMsgWork \<Rightarrow> int) \<Rightarrow> subscriber \<Rightarrow> eptMsgWork \<Rightarrow> bool" where
  "routable h s m \<longleftrightarrow>
     available_workers s (role m) \<noteq> [] \<and> wf_worker (heap s (chosen_worker h s m)) \<and>
     queues (heap s (chosen_worker h s m)) \<noteq> [] \<and> 0 \<le> qnum m"

definition consume :: "(wref \<Rightarrow> TrackedWorker) \<Rightarrow> wref \<Rightarrow> nat \<Rightarrow> (wref \<Rightarrow> TrackedWorker)" where
  "consume H r q = H(r := (H r)\<lparr>last_seq := (last_seq (H r))[q := last_seq (H r) ! q + 1]\<rparr>)"

text \<open>The counters after a batch: a message without a worker consumes none.\<close>

definition route_counters ::
  "(eptMsgWork \<Rightarrow> int) \<Rightarrow> subscriber \<Rightarrow> (wref \<Rightarrow> TrackedWorker) \<Rightarrow> eptMsgWork \<Rightarrow> (wref \<Rightarrow> TrackedWorker)" where
  "route_counters h s H m =
     (if available_workers s (role m) = [] then H
      else consume H (chosen_worker h s m) (chosen_queue h s m))"

text \<open>
  The messages of a batch that have a worker, each with its worker, its queue number
  and the stamp it gets from the counters \<open>H\<close> as they stand when its turn comes.
\<close>

fun stamp_batch ::
  "(eptMsgWork \<Rightarrow> int) \<Rightarrow> subscriber \<Rightarrow> (wref \<Rightarrow> TrackedWorker) \<Rightarrow> eptMsgWork list \<Rightarrow>
   (wref \<times> nat \<times> eptMsgWork) list" where
  "stamp_batch h s H [] = []"
| "stamp_batch h s H (m # ms) =
     (if available_workers s (role m) = [] then stamp_batch h s H ms
      else (chosen_worker h s m, chosen_queue h s m,
            stamped (self_fabric s) (chosen_queue h s m)
              (last_seq (H (chosen_worker h s m)) ! chosen_queue h s m + 1) m) #
           stamp_batch h s (consume H (chosen_worker h s m) (chosen_queue h s m)) ms)"

lemma routable_routes_to:
  "routable h s m \<Longrightarrow> routes_to h s m (chosen_worker h s m) (chosen_queue h s m)"
  by (auto simp: routable_def routes_to_def chosen_worker_def chosen_queue_def Let_def)

lemma routable_queue:
  "routable h s m \<Longrightarrow> chosen_queue h s m < length (queues (heap s (chosen_worker h s m)))"
  by (auto simp: routable_def chosen_queue_def Let_def)

text \<open>Two states with the same table and fabric whose workers differ in their counters only.\<close>

definition same_shape :: "subscriber \<Rightarrow> subscriber \<Rightarrow> bool" where
  "same_shape s0 s \<longleftrightarrow>
     active_workers s = active_workers s0 \<and> self_fabric s = self_fabric s0 \<and>
     (\<forall>r. queues (heap s r) = queues (heap s0 r) \<and>
          worker_id (heap s r) = worker_id (heap s0 r) \<and>
          queue_locks (heap s r) = queue_locks (heap s0 r) \<and>
          length (last_seq (heap s r)) = length (last_seq (heap s0 r)))"

lemma same_shape_refl [simp]: "same_shape s s"
  by (simp add: same_shape_def)

lemma same_shape_trans: "same_shape s0 s \<Longrightarrow> same_shape s t \<Longrightarrow> same_shape s0 t"
  by (simp add: same_shape_def)

lemma same_shape_logger [simp]: "same_shape s0 (logger l f a s) = same_shape s0 s"
  by (simp add: same_shape_def)

lemma same_shape_chosen:
  assumes "same_shape s0 s"
  shows "chosen_worker h s m = chosen_worker h s0 m"
    and "chosen_queue h s m = chosen_queue h s0 m"
    and "routable h s m = routable h s0 m"
    and "available_workers s ro = available_workers s0 ro"
proof -
  show a: "available_workers s ro = available_workers s0 ro" for ro
    using assms by (simp add: same_shape_def available_workers_cong [of s s0])
  have f: "self_fabric s = self_fabric s0" using assms by (simp add: same_shape_def)
  have q: "queues (heap s r) = queues (heap s0 r)" "queue_locks (heap s r) = queue_locks (heap s0 r)"
    "length (last_seq (heap s r)) = length (last_seq (heap s0 r))" for r
    using assms by (simp_all add: same_shape_def)
  show w: "chosen_worker h s m = chosen_worker h s0 m"
    by (simp add: chosen_worker_def a f)
  show "chosen_queue h s m = chosen_queue h s0 m"
    by (simp add: chosen_queue_def w q)
  show "routable h s m = routable h s0 m"
    by (simp add: routable_def w q a wf_worker_def)
qed

lemma send_msg_route_routable:
  assumes "routable h s m" "queue_stats s ''total'' \<noteq> None"
  shows "fst (send_msg_route M h m work s) =
           Inr (work_add M (worker_id (heap s (chosen_worker h s m))) (int (chosen_queue h s m))
                  (chosen_worker h s m)
                  (stamped (self_fabric s) (chosen_queue h s m)
                     (last_seq (heap s (chosen_worker h s m)) ! chosen_queue h s m + 1) m) work)"
    and "heap (snd (send_msg_route M h m work s)) =
           consume (heap s) (chosen_worker h s m) (chosen_queue h s m)"
    and "queue_stats (snd (send_msg_route M h m work s)) ''total'' \<noteq> None"
    and "same_shape s (snd (send_msg_route M h m work s))"
proof -
  let ?r = "chosen_worker h s m" and ?q = "chosen_queue h s m"
  have rt: "routes_to h s m ?r ?q" by (rule routable_routes_to [OF assms(1)])
  have wf: "wf_worker (heap s ?r)" using assms(1) by (simp add: routable_def)
  note ok = send_msg_route_ok [OF rt wf assms(2), of M work]
  show "fst (send_msg_route M h m work s) =
           Inr (work_add M (worker_id (heap s ?r)) (int ?q) ?r
                  (stamped (self_fabric s) ?q (last_seq (heap s ?r) ! ?q + 1) m) work)"
    by (rule ok(1))
  show h: "heap (snd (send_msg_route M h m work s)) = consume (heap s) ?r ?q"
    using ok(2) by (simp add: consume_def)
  show "queue_stats (snd (send_msg_route M h m work s)) ''total'' \<noteq> None" by (rule ok(3))
  show "same_shape s (snd (send_msg_route M h m work s))"
    unfolding same_shape_def h by (simp add: consume_def)
qed

text \<open>One step of the first loop on the dictionary, for a stamped message.\<close>

definition add_entry :: "nat \<Rightarrow> subscriber \<Rightarrow> work_t \<Rightarrow> wref \<times> nat \<times> eptMsgWork \<Rightarrow> work_t" where
  "add_entry M s w x = (case x of (r, q, m) \<Rightarrow> work_add M (worker_id (heap s r)) (int q) r m w)"

text \<open>
  The first loop on a batch whose messages have no worker or a well-formed one: the
  dictionary it builds and the counters it leaves.
\<close>

lemma send_msg_collect_routable:
  assumes "\<forall>m \<in> set ms. available_workers s0 (role m) = [] \<or> routable h s0 m"
    and "same_shape s0 s" "queue_stats s ''total'' \<noteq> None"
  shows "fst (send_msg_collect M h ms work s) =
           Inr (foldl (add_entry M s0) work (stamp_batch h s0 (heap s) ms)) \<and>
         heap (snd (send_msg_collect M h ms work s)) = foldl (route_counters h s0) (heap s) ms \<and>
         same_shape s0 (snd (send_msg_collect M h ms work s))"
  using assms
proof (induction ms arbitrary: work s)
  case Nil
  then show ?case by simp
next
  case (Cons m ms)
  have rest: "\<forall>m \<in> set ms. available_workers s0 (role m) = [] \<or> routable h s0 m"
    using Cons.prems(1) by simp
  note sh = same_shape_chosen [OF Cons.prems(2)]
  show ?case
  proof (cases "available_workers s0 (role m) = []")
    case True
    let ?s1 = "logger WARN (''no available workers for role '' @ apos @ ''%s'' @ apos) [ArgObj] s"
    have av: "available_workers s (role m) = []" using True sh(4) by simp
    have r1: "send_msg_route M h m work s = (Inr work, ?s1)"
      by (rule send_msg_no_workers(1) [OF av])
    have a: "same_shape s0 ?s1" "queue_stats ?s1 ''total'' \<noteq> None"
      using Cons.prems(2,3) by simp_all
    show ?thesis
      using Cons.IH [OF rest a, of work] r1 True by (simp add: route_counters_def)
  next
    case False
    have rb0: "routable h s0 m" using Cons.prems(1) False by simp
    have rb: "routable h s m" using rb0 sh(3) by simp
    note ok = send_msg_route_routable [OF rb Cons.prems(3), of M work]
    let ?r = "chosen_worker h s0 m" and ?q = "chosen_queue h s0 m"
    let ?m' = "stamped (self_fabric s0) ?q (last_seq (heap s ?r) ! ?q + 1) m"
    let ?w1 = "work_add M (worker_id (heap s0 ?r)) (int ?q) ?r ?m' work"
    have ids: "worker_id (heap s ?r) = worker_id (heap s0 ?r)" "self_fabric s = self_fabric s0"
      using Cons.prems(2) by (simp_all add: same_shape_def)
    have f1: "fst (send_msg_route M h m work s) = Inr ?w1"
      using ok(1) sh(1,2) ids by simp
    obtain s1 where r1: "send_msg_route M h m work s = (Inr ?w1, s1)"
      using f1 by (cases "send_msg_route M h m work s") simp
    have s1: "snd (send_msg_route M h m work s) = s1" using r1 by simp
    have a: "same_shape s0 s1" "queue_stats s1 ''total'' \<noteq> None"
      using same_shape_trans [OF Cons.prems(2) ok(4)] ok(3) s1 by simp_all
    have h1: "heap s1 = consume (heap s) ?r ?q"
      using ok(2) s1 sh(1,2) by simp
    show ?thesis
      using Cons.IH [OF rest a, of ?w1] r1 False h1
      by (simp add: route_counters_def add_entry_def)
  qed
qed

lemma stamp_batch_elems:
  assumes "\<forall>m \<in> set ms. available_workers s (role m) = [] \<or> routable h s m"
    and "(r, q, m') \<in> set (stamp_batch h s H ms)"
  shows "\<exists>m \<in> set ms. available_workers s (role m) \<noteq> [] \<and> routable h s m \<and>
           r = chosen_worker h s m \<and> q = chosen_queue h s m"
  using assms
proof (induction ms arbitrary: H)
  case Nil
  then show ?case by simp
next
  case (Cons m ms)
  show ?case
  proof (cases "available_workers s (role m) = []")
    case True
    then show ?thesis using Cons.IH [of H] Cons.prems by auto
  next
    case False
    then show ?thesis
      using Cons.IH [of "consume H (chosen_worker h s m) (chosen_queue h s m)"] Cons.prems by auto
  qed
qed

text \<open>The entry of the dictionary for a worker id and a queue number, and its messages.\<close>

definition entry_of :: "work_t \<Rightarrow> string \<Rightarrow> int \<Rightarrow> work_entry option" where
  "entry_of work wid qi = (case map_of work wid of None \<Rightarrow> None | Some inner \<Rightarrow> map_of inner qi)"

definition work_msgs :: "work_t \<Rightarrow> string \<Rightarrow> int \<Rightarrow> eptMsgWork list" where
  "work_msgs work wid qi =
     (case entry_of work wid qi of None \<Rightarrow> [] | Some (r0, full, cur) \<Rightarrow> concat full @ cur)"

definition group_of :: "subscriber \<Rightarrow> string \<Rightarrow> int \<Rightarrow> (wref \<times> nat \<times> eptMsgWork) list \<Rightarrow> eptMsgWork list" where
  "group_of s wid qi xs =
     map (\<lambda>x. snd (snd x)) (filter (\<lambda>x. worker_id (heap s (fst x)) = wid \<and> int (fst (snd x)) = qi) xs)"

lemma entry_of_work_add:
  "entry_of (work_add M wid qi r m work) wid' qi' =
     (if wid' = wid \<and> qi' = qi then
        Some (case entry_of work wid qi of
                None \<Rightarrow> (r, chunk_step M ([], []) m)
              | Some (r0, p) \<Rightarrow> (r0, chunk_step M p m))
      else entry_of work wid' qi')"
  by (auto simp: work_add_def entry_of_def update_conv' Let_def split: option.splits prod.splits)

lemma work_msgs_work_add:
  "work_msgs (work_add M wid qi r m work) wid' qi' =
     work_msgs work wid' qi' @ (if wid' = wid \<and> qi' = qi then [m] else [])"
  by (auto simp: work_msgs_def entry_of_work_add split: option.splits prod.splits)

lemma work_msgs_foldl:
  "work_msgs (foldl (add_entry M s) work xs) wid qi = work_msgs work wid qi @ group_of s wid qi xs"
proof (induction xs arbitrary: work)
  case Nil
  show ?case by (simp add: group_of_def)
next
  case (Cons x xs)
  obtain r q m where x: "x = (r, q, m)" by (cases x) auto
  show ?case
    using Cons.IH [of "add_entry M s work x"]
    by (simp add: x add_entry_def work_msgs_work_add group_of_def)
qed

text \<open>
  What holds of every entry of the dictionary: its worker is one of \<open>R\<close> and has the id
  the entry is filed under, the queue number is one of that worker, no bulk is empty.
\<close>

definition work_inv :: "subscriber \<Rightarrow> wref set \<Rightarrow> work_t \<Rightarrow> bool" where
  "work_inv s R work \<longleftrightarrow>
     (\<forall>wid qi r0 full cur. entry_of work wid qi = Some (r0, full, cur) \<longrightarrow>
        r0 \<in> R \<and> worker_id (heap s r0) = wid \<and> 0 \<le> qi \<and> nat qi < length (queues (heap s r0)) \<and>
        (\<forall>b \<in> set full. b \<noteq> []) \<and> cur \<noteq> [])"

lemma work_inv_empty [simp]: "work_inv s R []"
  by (simp add: work_inv_def entry_of_def)

lemma work_inv_work_add:
  assumes "0 < M" "work_inv s R work" "r \<in> R" "q < length (queues (heap s r))"
  shows "work_inv s R (work_add M (worker_id (heap s r)) (int q) r m work)"
  unfolding work_inv_def
proof (intro allI impI)
  fix wid qi r0 full cur
  assume e: "entry_of (work_add M (worker_id (heap s r)) (int q) r m work) wid qi = Some (r0, full, cur)"
  show "r0 \<in> R \<and> worker_id (heap s r0) = wid \<and> 0 \<le> qi \<and> nat qi < length (queues (heap s r0)) \<and>
        (\<forall>b \<in> set full. b \<noteq> []) \<and> cur \<noteq> []"
  proof (cases "wid = worker_id (heap s r) \<and> qi = int q")
    case False
    then have "entry_of work wid qi = Some (r0, full, cur)"
      using e by (auto simp: entry_of_work_add)
    then show ?thesis using assms(2) by (simp add: work_inv_def)
  next
    case True
    show ?thesis
    proof (cases "entry_of work (worker_id (heap s r)) (int q)")
      case None
      then have "(r0, full, cur) = (r, [], [m])"
        using e True assms(1) by (simp add: entry_of_work_add)
      then show ?thesis using True assms(3,4) by simp
    next
      case (Some old)
      obtain r1 f1 c1 where old: "old = (r1, f1, c1)" by (cases old) auto
      have o: "r1 \<in> R \<and> worker_id (heap s r1) = worker_id (heap s r) \<and>
            nat (int q) < length (queues (heap s r1)) \<and> (\<forall>b \<in> set f1. b \<noteq> []) \<and> c1 \<noteq> []"
        using assms(2) Some old unfolding work_inv_def by blast
      have "(r0, full, cur) = (r1, chunk_step M (f1, c1) m)"
        using e True Some old by (simp add: entry_of_work_add)
      then show ?thesis using True o by (auto split: if_splits)
    qed
  qed
qed

lemma work_inv_foldl:
  assumes "0 < M" "work_inv s R work"
    and "\<forall>x \<in> set xs. fst x \<in> R \<and> fst (snd x) < length (queues (heap s (fst x)))"
  shows "work_inv s R (foldl (add_entry M s) work xs)"
  using assms(2,3)
proof (induction xs arbitrary: work)
  case Nil
  then show ?case by simp
next
  case (Cons x xs)
  obtain r q m where x: "x = (r, q, m)" by (cases x) auto
  have a: "work_inv s R (add_entry M s work x)"
    using work_inv_work_add [OF assms(1) Cons.prems(1), of r q m] Cons.prems(2)
    by (simp add: x add_entry_def)
  show ?case using Cons.IH [OF a] Cons.prems(2) by simp
qed

text \<open>The dictionary has one entry for a key, at both levels.\<close>

definition work_distinct :: "work_t \<Rightarrow> bool" where
  "work_distinct work \<longleftrightarrow>
     distinct (map fst work) \<and> (\<forall>wid inner. map_of work wid = Some inner \<longrightarrow> distinct (map fst inner))"

lemma work_distinct_empty [simp]: "work_distinct []"
  by (simp add: work_distinct_def)

lemma work_distinct_work_add:
  assumes "work_distinct work"
  shows "work_distinct (work_add M wid qi r m work)"
proof -
  let ?inner = "case map_of work wid of None \<Rightarrow> [] | Some i \<Rightarrow> i"
  have d: "distinct (map fst ?inner)"
    using assms by (auto simp: work_distinct_def split: option.splits)
  have "distinct (map fst (AList.update qi e ?inner))" for e
    by (rule distinct_update [OF d])
  then show ?thesis
    using assms
    by (auto simp: work_distinct_def work_add_def Let_def update_conv' distinct_update
             split: if_splits)
qed

lemma work_distinct_foldl:
  "work_distinct work \<Longrightarrow> work_distinct (foldl (add_entry M s) work xs)"
proof (induction xs arbitrary: work)
  case Nil
  then show ?case by simp
next
  case (Cons x xs)
  obtain r q m where x: "x = (r, q, m)" by (cases x) auto
  show ?case
    using Cons.IH [of "add_entry M s work x"] Cons.prems
    by (simp add: x add_entry_def work_distinct_work_add)
qed

lemma work_distinct_entry:
  assumes "work_distinct work" "(wid, inner) \<in> set work" "(qi, e) \<in> set inner"
  shows "entry_of work wid qi = Some e"
proof -
  have m: "map_of work wid = Some inner"
    using assms(1,2) by (simp add: work_distinct_def)
  then have "distinct (map fst inner)" using assms(1) by (simp add: work_distinct_def)
  then have "map_of inner qi = Some e" using assms(3) by simp
  then show ?thesis using m by (simp add: entry_of_def)
qed

lemma entry_of_mem:
  assumes "entry_of work wid qi = Some e"
  shows "\<exists>inner. (wid, inner) \<in> set work \<and> (qi, e) \<in> set inner"
  using assms by (auto simp: entry_of_def split: option.splits dest: map_of_SomeD)

text \<open>The second loop, every push succeeding: the envelopes that reach the queue \<open>k\<close>.\<close>

definition entry_pushable :: "(wref \<Rightarrow> TrackedWorker) \<Rightarrow> int \<times> work_entry \<Rightarrow> bool" where
  "entry_pushable H x \<longleftrightarrow>
     (case x of (qi, (r0, full, cur)) \<Rightarrow>
        wf_worker (H r0) \<and> 0 \<le> qi \<and> nat qi < length (queues (H r0)) \<and>
        (\<forall>b \<in> set full. b \<noteq> []) \<and> cur \<noteq> [])"

definition entry_envs :: "(wref \<Rightarrow> TrackedWorker) \<Rightarrow> string \<Rightarrow> int \<times> work_entry \<Rightarrow> wire_msg list" where
  "entry_envs H k x =
     (case x of (qi, (r0, full, cur)) \<Rightarrow>
        if queues (H r0) ! nat qi = k then map to_wire (full @ [cur]) else [])"

definition work_envs :: "(wref \<Rightarrow> TrackedWorker) \<Rightarrow> string \<Rightarrow> work_t \<Rightarrow> wire_msg list" where
  "work_envs H k work = concat (map (\<lambda>x. concat (map (entry_envs H k) (snd x))) work)"

lemma send_msg_push_fail_frame:
  "redis_push_fail s = [] \<Longrightarrow> redis_push_fail (snd (send_msg_push p r qi b s)) = []"
  by (auto simp: send_msg_push_def redis_push_def Let_def split: option.splits)

lemma send_msg_bulks_fail_frame:
  "redis_push_fail s = [] \<Longrightarrow> redis_push_fail (snd (send_msg_bulks p r qi bs s)) = []"
proof (induction bs arbitrary: s)
  case Nil
  then show ?case by simp
next
  case (Cons b bs)
  obtain x s1 where r1: "send_msg_push p r qi b s = (x, s1)" by (cases "send_msg_push p r qi b s")
  have "redis_push_fail s1 = []" using send_msg_push_fail_frame [OF Cons.prems, of p r qi b] r1 by simp
  then show ?case using Cons.IH [of s1] r1 by (cases x) simp_all
qed

lemma send_msg_queues_ok:
  assumes "\<forall>x \<in> set inner. entry_pushable (heap s) x" "redis_push_fail s = []"
  shows "fst (send_msg_queues p inner s) = None \<and>
         heap (snd (send_msg_queues p inner s)) = heap s \<and>
         redis_push_fail (snd (send_msg_queues p inner s)) = [] \<and>
         (\<forall>k. redis_lists (snd (send_msg_queues p inner s)) k =
            (if p then rev (concat (map (entry_envs (heap s) k) inner)) @ redis_lists s k
             else redis_lists s k @ concat (map (entry_envs (heap s) k) inner)))"
  using assms
proof (induction inner arbitrary: s)
  case Nil
  then show ?case by simp
next
  case (Cons x inner)
  obtain qi r0 full cur where x: "x = (qi, (r0, full, cur))" by (metis prod_cases4)
  have px: "wf_worker (heap s r0)" "0 \<le> qi" "nat qi < length (queues (heap s r0))"
    "\<forall>b \<in> set (full @ [cur]). b \<noteq> []"
    using Cons.prems(1) by (auto simp: entry_pushable_def x)
  have qi: "int (nat qi) = qi" using px(2) by simp
  note b = send_msg_bulks_ok [OF px(1) px(3) Cons.prems(2) px(4), of p, unfolded qi]
  note f = send_msg_bulks_fail_frame [OF Cons.prems(2), of p r0 qi "full @ [cur]"]
  obtain s1 where r1: "send_msg_bulks p r0 qi (full @ [cur]) s = (None, s1)"
    using b by (cases "send_msg_bulks p r0 qi (full @ [cur]) s") simp
  have s1: "heap s1 = heap s" "redis_push_fail s1 = []"
    "\<And>k. redis_lists s1 k =
       (if k = queues (heap s r0) ! nat qi
        then (if p then rev (map to_wire (full @ [cur])) @ redis_lists s k
              else redis_lists s k @ map to_wire (full @ [cur]))
        else redis_lists s k)"
    using b f r1 by simp_all
  have a: "\<forall>x \<in> set inner. entry_pushable (heap s1) x" using Cons.prems(1) s1(1) by simp
  note IH = Cons.IH [OF a s1(2)]
  have step: "send_msg_queues p (x # inner) s = send_msg_queues p inner s1"
    using r1 by (simp add: x)
  show ?case
    unfolding step using IH s1 by (simp add: x entry_envs_def)
qed

lemma send_msg_workers_ok:
  assumes "\<forall>w \<in> set work. \<forall>x \<in> set (snd w). entry_pushable (heap s) x" "redis_push_fail s = []"
  shows "fst (send_msg_workers p work s) = None \<and>
         heap (snd (send_msg_workers p work s)) = heap s \<and>
         (\<forall>k. redis_lists (snd (send_msg_workers p work s)) k =
            (if p then rev (work_envs (heap s) k work) @ redis_lists s k
             else redis_lists s k @ work_envs (heap s) k work))"
  using assms
proof (induction work arbitrary: s)
  case Nil
  then show ?case by (simp add: work_envs_def)
next
  case (Cons w work)
  obtain wid inner where w: "w = (wid, inner)" by (cases w)
  have px: "\<forall>x \<in> set inner. entry_pushable (heap s) x" using Cons.prems(1) by (simp add: w)
  note b = send_msg_queues_ok [OF px Cons.prems(2), of p]
  obtain s1 where r1: "send_msg_queues p inner s = (None, s1)"
    using b by (cases "send_msg_queues p inner s") simp
  have s1: "heap s1 = heap s" "redis_push_fail s1 = []"
    "\<And>k. redis_lists s1 k =
       (if p then rev (concat (map (entry_envs (heap s) k) inner)) @ redis_lists s k
        else redis_lists s k @ concat (map (entry_envs (heap s) k) inner))"
    using b r1 by simp_all
  have a: "\<forall>w \<in> set work. \<forall>x \<in> set (snd w). entry_pushable (heap s1) x"
    using Cons.prems(1) s1(1) by simp
  note IH = Cons.IH [OF a s1(2)]
  have step: "send_msg_workers p (w # work) s = send_msg_workers p work s1"
    using r1 by (simp add: w)
  show ?case
    unfolding step using IH s1 by (simp add: w work_envs_def)
qed

lemma envelope_msgs_to_wire_any [simp]: "envelope_msgs (to_wire b) = b"
  by (cases b) (auto simp: to_wire_def)

lemma set_entry_envs:
  "set (concat (map envelope_msgs (entry_envs H k x))) =
     (case x of (qi, (r0, full, cur)) \<Rightarrow>
        if queues (H r0) ! nat qi = k then set (concat full @ cur) else {})"
  by (auto simp: entry_envs_def split: prod.splits)

lemma set_work_envs:
  "set (concat (map envelope_msgs (work_envs H k work))) =
     {m. \<exists>wid inner qi r0 full cur. (wid, inner) \<in> set work \<and> (qi, (r0, full, cur)) \<in> set inner \<and>
           queues (H r0) ! nat qi = k \<and> m \<in> set (concat full @ cur)}"
proof -
  have "set (concat (map envelope_msgs (work_envs H k work))) =
        (\<Union>w \<in> set work. \<Union>x \<in> set (snd w). set (concat (map envelope_msgs (entry_envs H k x))))"
    by (auto simp: work_envs_def)
  also have "\<dots> = {m. \<exists>wid inner qi r0 full cur. (wid, inner) \<in> set work \<and> (qi, (r0, full, cur)) \<in> set inner \<and>
           queues (H r0) ! nat qi = k \<and> m \<in> set (concat full @ cur)}"
    unfolding set_entry_envs by (fastforce split: prod.splits if_splits)
  finally show ?thesis .
qed

text \<open>
  A batch that fans out, every push succeeding: what reaches each queue are the
  stamped messages of the batch whose worker and queue number name that queue.
\<close>

lemma send_msg_batch:
  assumes "0 < M"
    and "\<forall>x \<in> set ms. available_workers s (role x) = [] \<or> routable h s x"
    and "inj_on (\<lambda>w. worker_id (heap s w))
           (chosen_worker h s ` {x \<in> set ms. available_workers s (role x) \<noteq> []})"
    and "queue_stats s ''total'' \<noteq> None" "redis_push_fail s = []"
  shows "fst (send_msg M h ms p s) = None"
    and "heap (snd (send_msg M h ms p s)) = foldl (route_counters h s) (heap s) ms"
    and "\<exists>E. \<forall>k. redis_lists (snd (send_msg M h ms p s)) k =
                   (if p then rev (E k) @ redis_lists s k else redis_lists s k @ E k) \<and>
                 set (concat (map envelope_msgs (E k))) =
                   {m'. \<exists>w j. (w, j, m') \<in> set (stamp_batch h s (heap s) ms) \<and>
                               queues (heap s w) ! j = k}"
proof -
  let ?sb = "stamp_batch h s (heap s) ms"
  let ?w = "foldl (add_entry M s) [] ?sb"
  let ?R = "chosen_worker h s ` {x \<in> set ms. available_workers s (role x) \<noteq> []}"
  note c = send_msg_collect_routable [OF assms(2) same_shape_refl assms(4), of M "[]"]
  obtain s1 where r1: "send_msg_collect M h ms [] s = (Inr ?w, s1)"
    using c by (cases "send_msg_collect M h ms [] s") simp
  have s1: "snd (send_msg_collect M h ms [] s) = s1" using r1 by simp
  have sh: "same_shape s s1" and h1: "heap s1 = foldl (route_counters h s) (heap s) ms"
    using c s1 by simp_all
  note fr = send_msg_collect_frame [of M h ms "[]" s, unfolded s1]
  have pf1: "redis_push_fail s1 = []" using fr assms(5) by simp
  have names: "queues (heap s1 w) = queues (heap s w)" for w
    using sh by (simp add: same_shape_def)
  have wfs: "wf_worker (heap s1 w) = wf_worker (heap s w)" for w
    using sh by (simp add: same_shape_def wf_worker_def)
  have el: "fst x \<in> ?R \<and> fst (snd x) < length (queues (heap s (fst x)))" if "x \<in> set ?sb" for x
  proof -
    obtain w j m' where x: "x = (w, j, m')" by (cases x) auto
    have mem: "(w, j, m') \<in> set (stamp_batch h s (heap s) ms)" using that x by simp
    obtain y where y: "y \<in> set ms" "available_workers s (role y) \<noteq> []" "routable h s y"
      "w = chosen_worker h s y" "j = chosen_queue h s y"
      using stamp_batch_elems [OF assms(2) mem] by blast
    show ?thesis using y routable_queue [OF y(3)] by (auto simp: x)
  qed
  have wfR: "wf_worker (heap s w)" if "w \<in> ?R" for w
    using that assms(2) by (auto simp: routable_def)
  have inv: "work_inv s ?R ?w"
    by (rule work_inv_foldl [OF assms(1) work_inv_empty]) (use el in blast)
  have dis: "work_distinct ?w"
    by (rule work_distinct_foldl [OF work_distinct_empty])
  have push: "\<forall>w \<in> set ?w. \<forall>x \<in> set (snd w). entry_pushable (heap s1) x"
  proof (intro ballI)
    fix w x
    assume w: "w \<in> set ?w" and x: "x \<in> set (snd w)"
    obtain wid inner where wi: "w = (wid, inner)" by (cases w)
    obtain qi r0 full cur where xi: "x = (qi, (r0, full, cur))" by (metis prod_cases4)
    have e: "entry_of ?w wid qi = Some (r0, full, cur)"
      using work_distinct_entry [OF dis, of wid inner qi "(r0, full, cur)"] w x wi xi by simp
    have i: "r0 \<in> ?R \<and> 0 \<le> qi \<and> nat qi < length (queues (heap s r0)) \<and>
             (\<forall>b \<in> set full. b \<noteq> []) \<and> cur \<noteq> []"
      using inv e unfolding work_inv_def by blast
    then have "wf_worker (heap s r0)" using wfR by blast
    then show "entry_pushable (heap s1) x"
      using i by (simp add: entry_pushable_def xi names wfs)
  qed
  note ok = send_msg_workers_ok [OF push pf1, of p]
  have send: "send_msg M h ms p s = send_msg_workers p ?w s1"
    using r1 by (simp add: send_msg_def)
  show "fst (send_msg M h ms p s) = None"
    unfolding send using ok by simp
  show "heap (snd (send_msg M h ms p s)) = foldl (route_counters h s) (heap s) ms"
    unfolding send using ok h1 by simp
  have grp: "work_msgs ?w wid qi = group_of s wid qi ?sb" for wid qi
    using work_msgs_foldl [of M s "[]" ?sb wid qi] by (simp add: work_msgs_def entry_of_def)
  have set_eq: "set (concat (map envelope_msgs (work_envs (heap s1) k ?w))) =
                {m'. \<exists>w j. (w, j, m') \<in> set ?sb \<and> queues (heap s w) ! j = k}" for k
    unfolding set_work_envs
  proof (rule set_eqI, rule iffI)
    fix m'
    assume "m' \<in> {m. \<exists>wid inner qi r0 full cur. (wid, inner) \<in> set ?w \<and>
                   (qi, (r0, full, cur)) \<in> set inner \<and>
                   queues (heap s1 r0) ! nat qi = k \<and> m \<in> set (concat full @ cur)}"
    then obtain wid inner qi r0 full cur where a: "(wid, inner) \<in> set ?w"
      "(qi, (r0, full, cur)) \<in> set inner" "queues (heap s1 r0) ! nat qi = k"
      "m' \<in> set (concat full @ cur)"
      by blast
    have e: "entry_of ?w wid qi = Some (r0, full, cur)"
      by (rule work_distinct_entry [OF dis a(1,2)])
    have i: "r0 \<in> ?R" "worker_id (heap s r0) = wid" "0 \<le> qi"
      using inv e unfolding work_inv_def by blast+
    have "work_msgs ?w wid qi = concat full @ cur" using e by (simp add: work_msgs_def)
    then have "m' \<in> set (group_of s wid qi ?sb)" using a(4) grp [of wid qi] by simp
    then obtain w j where g: "(w, j, m') \<in> set ?sb" "worker_id (heap s w) = wid" "int j = qi"
      by (auto simp: group_of_def)
    have "w \<in> ?R" using el [OF g(1)] by simp
    then have "w = r0" using assms(3) i(1,2) g(2) by (auto dest: inj_onD)
    moreover have "nat qi = j" using g(3) by auto
    ultimately have "queues (heap s w) ! j = k" using a(3) names by simp
    then show "m' \<in> {m'. \<exists>w j. (w, j, m') \<in> set ?sb \<and> queues (heap s w) ! j = k}"
      using g(1) by blast
  next
    fix m'
    assume "m' \<in> {m'. \<exists>w j. (w, j, m') \<in> set ?sb \<and> queues (heap s w) ! j = k}"
    then obtain w j where g: "(w, j, m') \<in> set ?sb" "queues (heap s w) ! j = k" by blast
    have "m' \<in> set (group_of s (worker_id (heap s w)) (int j) ?sb)"
      using g(1) by (force simp: group_of_def)
    then have mm: "m' \<in> set (work_msgs ?w (worker_id (heap s w)) (int j))"
      using grp [of "worker_id (heap s w)" "int j"] by simp
    then obtain en where en: "entry_of ?w (worker_id (heap s w)) (int j) = Some en"
      by (cases "entry_of ?w (worker_id (heap s w)) (int j)") (simp_all add: work_msgs_def)
    obtain r0 full cur where ee: "en = (r0, full, cur)" by (cases en) auto
    have e: "entry_of ?w (worker_id (heap s w)) (int j) = Some (r0, full, cur)"
      using en ee by simp
    have mem: "m' \<in> set (concat full @ cur)" using mm e by (simp add: work_msgs_def)
    have i: "r0 \<in> ?R" "worker_id (heap s r0) = worker_id (heap s w)"
      using inv e unfolding work_inv_def by blast+
    have "w \<in> ?R" using el [OF g(1)] by simp
    then have r0: "r0 = w" using assms(3) i by (auto dest: inj_onD)
    obtain inner where "(worker_id (heap s w), inner) \<in> set ?w"
      "(int j, (r0, full, cur)) \<in> set inner"
      using entry_of_mem [OF e] by blast
    moreover have "queues (heap s1 r0) ! nat (int j) = k" using g(2) r0 names by simp
    ultimately show "m' \<in> {m. \<exists>wid inner qi r0 full cur. (wid, inner) \<in> set ?w \<and>
                   (qi, (r0, full, cur)) \<in> set inner \<and>
                   queues (heap s1 r0) ! nat qi = k \<and> m \<in> set (concat full @ cur)}"
      using mem by blast
  qed
  have lists: "redis_lists (snd (send_msg M h ms p s)) k =
      (if p then rev (work_envs (heap s1) k ?w) @ redis_lists s k
       else redis_lists s k @ work_envs (heap s1) k ?w)" for k
    unfolding send using ok fr by simp
  show "\<exists>E. \<forall>k. redis_lists (snd (send_msg M h ms p s)) k =
                   (if p then rev (E k) @ redis_lists s k else redis_lists s k @ E k) \<and>
                 set (concat (map envelope_msgs (E k))) =
                   {m'. \<exists>w j. (w, j, m') \<in> set ?sb \<and> queues (heap s w) ! j = k}"
    by (rule exI [of _ "\<lambda>k. work_envs (heap s1) k ?w"]) (simp only: lists set_eq simp_thms)
qed

text \<open>The first loop takes the messages of a batch one after the other.\<close>

lemma send_msg_collect_snoc:
  "send_msg_collect M h (ms @ [m]) work s =
     (case send_msg_collect M h ms work s of
        (Inl e, s1) \<Rightarrow> (Inl e, s1)
      | (Inr w1, s1) \<Rightarrow> send_msg_route M h m w1 s1)"
proof (induction ms arbitrary: work s)
  case Nil
  show ?case by (simp split: prod.splits sum.splits)
next
  case (Cons a ms)
  show ?case by (simp add: Cons.IH split: prod.splits sum.splits)
qed

text \<open>
  C2. A message whose role has no worker in the table is dropped by the first loop of
  \<^verbatim>\<open>send_msg\<close> with a warning, the work collected so far and the rest of the state
  unchanged, so that a call with that message alone changes the log only. Otherwise
  the worker is \<open>workers[hash(msg) mod |workers|]\<close> (the hash of the message with its
  fabric set); a queue number not below the number of that worker's queues is
  replaced by the last queue (the worker having one): the message, stamped with the
  fabric, that queue number and the next sequence number of that queue, is what the
  call pushes, to that queue of that worker and to no other, and that worker's counter
  is the one consumed. Two runs from states with the same table, workers, statistics
  and fabric return the same and leave the same counters, whatever the broker holds.

  The same holds of a message at any place of a batch. The body of the first loop,
  run on any dictionary \<open>work\<close>, files the stamped message under the id of that worker
  and that queue number, consumes that worker's counter and touches no queue; the
  loop on \<open>ms @ [m]\<close> is the loop on \<open>ms\<close> followed by the body on \<open>m\<close>. And for a whole
  batch whose messages have no worker or a well-formed one with a queue (worker ids
  being unique among the workers chosen, every push succeeding): the counters left
  are those consumed message by message, a message without a worker consuming none,
  and what a queue receives are the envelopes whose messages are exactly the stamped
  messages of the batch that name that queue of their own worker.
\<close>

theorem send_msg_routing:
  "(available_workers s (role m) = [] \<longrightarrow>
      send_msg_route M h m work s =
        (Inr work, logger WARN (''no available workers for role '' @ apos @ ''%s'' @ apos) [ArgObj] s) \<and>
      send_msg M h [m] p s =
        (None, logger WARN (''no available workers for role '' @ apos @ ''%s'' @ apos) [ArgObj] s)) \<and>
   (0 < M \<and> available_workers s (role m) \<noteq> [] \<and>
    r = available_workers s (role m) !
          nat (h (m\<lparr>fabric := self_fabric s\<rparr>) mod int (length (available_workers s (role m)))) \<and>
    wf_worker (heap s r) \<and> queues (heap s r) \<noteq> [] \<and> 0 \<le> qnum m \<and>
    q = (if qnum m \<ge> int (length (queues (heap s r))) then length (queues (heap s r)) - 1
         else nat (qnum m)) \<and>
    queue_stats s ''total'' \<noteq> None \<and> redis_push_fail s = [] \<longrightarrow>
      fst (send_msg M h [m] p s) = None \<and>
      redis_lists (snd (send_msg M h [m] p s)) (queues (heap s r) ! q) =
        (if p then MsgWork (stamped (self_fabric s) q (last_seq (heap s r) ! q + 1) m) #
                   redis_lists s (queues (heap s r) ! q)
         else redis_lists s (queues (heap s r) ! q) @
                [MsgWork (stamped (self_fabric s) q (last_seq (heap s r) ! q + 1) m)]) \<and>
      (\<forall>k. k \<noteq> queues (heap s r) ! q \<longrightarrow> redis_lists (snd (send_msg M h [m] p s)) k = redis_lists s k) \<and>
      heap (snd (send_msg M h [m] p s)) =
        (heap s)(r := (heap s r)\<lparr>last_seq :=
               (last_seq (heap s r))[q := last_seq (heap s r) ! q + 1]\<rparr>)) \<and>
   (same_routing s s' \<longrightarrow>
      fst (send_msg M h ms p s) = fst (send_msg M h ms p s') \<and>
      heap (snd (send_msg M h ms p s)) = heap (snd (send_msg M h ms p s'))) \<and>
   (available_workers s (role m) \<noteq> [] \<and>
    r = available_workers s (role m) !
          nat (h (m\<lparr>fabric := self_fabric s\<rparr>) mod int (length (available_workers s (role m)))) \<and>
    wf_worker (heap s r) \<and> queues (heap s r) \<noteq> [] \<and> 0 \<le> qnum m \<and>
    q = (if qnum m \<ge> int (length (queues (heap s r))) then length (queues (heap s r)) - 1
         else nat (qnum m)) \<and>
    queue_stats s ''total'' \<noteq> None \<longrightarrow>
      fst (send_msg_route M h m work s) =
        Inr (work_add M (worker_id (heap s r)) (int q) r
               (stamped (self_fabric s) q (last_seq (heap s r) ! q + 1) m) work) \<and>
      heap (snd (send_msg_route M h m work s)) =
        (heap s)(r := (heap s r)\<lparr>last_seq :=
               (last_seq (heap s r))[q := last_seq (heap s r) ! q + 1]\<rparr>) \<and>
      redis_lists (snd (send_msg_route M h m work s)) = redis_lists s) \<and>
   send_msg_collect M h (ms @ [m]) work s =
     (case send_msg_collect M h ms work s of
        (Inl e, s1) \<Rightarrow> (Inl e, s1)
      | (Inr w1, s1) \<Rightarrow> send_msg_route M h m w1 s1) \<and>
   (0 < M \<and> (\<forall>x \<in> set ms. available_workers s (role x) = [] \<or> routable h s x) \<and>
    inj_on (\<lambda>w. worker_id (heap s w))
      (chosen_worker h s ` {x \<in> set ms. available_workers s (role x) \<noteq> []}) \<and>
    queue_stats s ''total'' \<noteq> None \<and> redis_push_fail s = [] \<longrightarrow>
      fst (send_msg M h ms p s) = None \<and>
      heap (snd (send_msg M h ms p s)) = foldl (route_counters h s) (heap s) ms \<and>
      (\<exists>E. \<forall>k. redis_lists (snd (send_msg M h ms p s)) k =
                  (if p then rev (E k) @ redis_lists s k else redis_lists s k @ E k) \<and>
                set (concat (map envelope_msgs (E k))) =
                  {m'. \<exists>w j. (w, j, m') \<in> set (stamp_batch h s (heap s) ms) \<and>
                              queues (heap s w) ! j = k}))"
proof (intro conjI impI)
  assume "available_workers s (role m) = []"
  then show "send_msg_route M h m work s =
        (Inr work, logger WARN (''no available workers for role '' @ apos @ ''%s'' @ apos) [ArgObj] s)"
    and "send_msg M h [m] p s =
        (None, logger WARN (''no available workers for role '' @ apos @ ''%s'' @ apos) [ArgObj] s)"
    by (rule send_msg_no_workers)+
next
  assume a: "0 < M \<and> available_workers s (role m) \<noteq> [] \<and>
    r = available_workers s (role m) !
          nat (h (m\<lparr>fabric := self_fabric s\<rparr>) mod int (length (available_workers s (role m)))) \<and>
    wf_worker (heap s r) \<and> queues (heap s r) \<noteq> [] \<and> 0 \<le> qnum m \<and>
    q = (if qnum m \<ge> int (length (queues (heap s r))) then length (queues (heap s r)) - 1
         else nat (qnum m)) \<and>
    queue_stats s ''total'' \<noteq> None \<and> redis_push_fail s = []"
  from a have a1: "available_workers s (role m) \<noteq> []"
    and a2: "r = available_workers s (role m) !
          nat (h (m\<lparr>fabric := self_fabric s\<rparr>) mod int (length (available_workers s (role m))))"
    and a3: "queues (heap s r) \<noteq> []" and a4: "0 \<le> qnum m"
    and a5: "q = (if qnum m \<ge> int (length (queues (heap s r))) then length (queues (heap s r)) - 1
         else nat (qnum m))"
    by blast+
  have rt: "routes_to h s m r q"
    by (rule routes_toI [where h = h and s = s and m = m and r = r and q = q, OF a1 a2 a3 a4 a5])
  from a have M: "0 < M" and wf: "wf_worker (heap s r)" and tot: "queue_stats s ''total'' \<noteq> None"
    and pf: "redis_push_fail s = []" by blast+
  note ok = send_msg_one_ok [OF M rt wf tot pf, of p]
  show "fst (send_msg M h [m] p s) = None" by (rule ok(1))
  show "redis_lists (snd (send_msg M h [m] p s)) (queues (heap s r) ! q) =
        (if p then MsgWork (stamped (self_fabric s) q (last_seq (heap s r) ! q + 1) m) #
                   redis_lists s (queues (heap s r) ! q)
         else redis_lists s (queues (heap s r) ! q) @
                [MsgWork (stamped (self_fabric s) q (last_seq (heap s r) ! q + 1) m)])"
    by (rule ok(2))
  show "\<forall>k. k \<noteq> queues (heap s r) ! q \<longrightarrow> redis_lists (snd (send_msg M h [m] p s)) k = redis_lists s k"
    by (rule ok(3))
  show "heap (snd (send_msg M h [m] p s)) =
        (heap s)(r := (heap s r)\<lparr>last_seq :=
               (last_seq (heap s r))[q := last_seq (heap s r) ! q + 1]\<rparr>)"
    by (rule ok(4))
next
  assume sr: "same_routing s s'"
  show "fst (send_msg M h ms p s) = fst (send_msg M h ms p s')"
    and "heap (snd (send_msg M h ms p s)) = heap (snd (send_msg M h ms p s'))"
    using send_msg_same [OF sr, of M h ms p] by simp_all
next
  assume a: "available_workers s (role m) \<noteq> [] \<and>
    r = available_workers s (role m) !
          nat (h (m\<lparr>fabric := self_fabric s\<rparr>) mod int (length (available_workers s (role m)))) \<and>
    wf_worker (heap s r) \<and> queues (heap s r) \<noteq> [] \<and> 0 \<le> qnum m \<and>
    q = (if qnum m \<ge> int (length (queues (heap s r))) then length (queues (heap s r)) - 1
         else nat (qnum m)) \<and>
    queue_stats s ''total'' \<noteq> None"
  from a have a1: "available_workers s (role m) \<noteq> []"
    and a2: "r = available_workers s (role m) !
          nat (h (m\<lparr>fabric := self_fabric s\<rparr>) mod int (length (available_workers s (role m))))"
    and a3: "queues (heap s r) \<noteq> []" and a4: "0 \<le> qnum m"
    and a5: "q = (if qnum m \<ge> int (length (queues (heap s r))) then length (queues (heap s r)) - 1
         else nat (qnum m))"
    by blast+
  have rt: "routes_to h s m r q"
    by (rule routes_toI [where h = h and s = s and m = m and r = r and q = q, OF a1 a2 a3 a4 a5])
  from a have wf: "wf_worker (heap s r)" and tot: "queue_stats s ''total'' \<noteq> None" by blast+
  note ok = send_msg_route_ok [OF rt wf tot, of M work]
  show "fst (send_msg_route M h m work s) =
        Inr (work_add M (worker_id (heap s r)) (int q) r
               (stamped (self_fabric s) q (last_seq (heap s r) ! q + 1) m) work)"
    by (rule ok(1))
  show "heap (snd (send_msg_route M h m work s)) =
        (heap s)(r := (heap s r)\<lparr>last_seq :=
               (last_seq (heap s r))[q := last_seq (heap s r) ! q + 1]\<rparr>)"
    by (rule ok(2))
  show "redis_lists (snd (send_msg_route M h m work s)) = redis_lists s"
    by (rule send_msg_route_frame(1))
next
  show "send_msg_collect M h (ms @ [m]) work s =
     (case send_msg_collect M h ms work s of
        (Inl e, s1) \<Rightarrow> (Inl e, s1)
      | (Inr w1, s1) \<Rightarrow> send_msg_route M h m w1 s1)"
    by (rule send_msg_collect_snoc)
next
  assume b: "0 < M \<and> (\<forall>x \<in> set ms. available_workers s (role x) = [] \<or> routable h s x) \<and>
    inj_on (\<lambda>w. worker_id (heap s w))
      (chosen_worker h s ` {x \<in> set ms. available_workers s (role x) \<noteq> []}) \<and>
    queue_stats s ''total'' \<noteq> None \<and> redis_push_fail s = []"
  from b have b1: "0 < M"
    and b2: "\<forall>x \<in> set ms. available_workers s (role x) = [] \<or> routable h s x"
    and b3: "inj_on (\<lambda>w. worker_id (heap s w))
      (chosen_worker h s ` {x \<in> set ms. available_workers s (role x) \<noteq> []})"
    and b4: "queue_stats s ''total'' \<noteq> None" and b5: "redis_push_fail s = []"
    by simp_all
  note ok = send_msg_batch [OF b1 b2 b3 b4 b5, of p]
  show "fst (send_msg M h ms p s) = None" by (rule ok(1))
  show "heap (snd (send_msg M h ms p s)) = foldl (route_counters h s) (heap s) ms" by (rule ok(2))
  show "\<exists>E. \<forall>k. redis_lists (snd (send_msg M h ms p s)) k =
                  (if p then rev (E k) @ redis_lists s k else redis_lists s k @ E k) \<and>
                set (concat (map envelope_msgs (E k))) =
                  {m'. \<exists>w j. (w, j, m') \<in> set (stamp_batch h s (heap s) ms) \<and>
                              queues (heap s w) ! j = k}"
    by (rule ok(3))
qed

text \<open>
  C10. \<^verbatim>\<open>send_msg_direct\<close> drops every message whose queue number is not below the
  number of the worker's queues: it returns normally, the sequence counters, the
  statistics and the broker are as before, and the log holds one more warning per
  message. \<^verbatim>\<open>send_msg\<close>, for such a message routed to a worker with at least one queue,
  pushes it to the worker's last queue with that queue's next sequence number.
\<close>

theorem send_msg_direct_drops:
  "((\<forall>m \<in> set ms. int (length (queues (heap s r))) \<le> qnum m) \<longrightarrow>
      fst (send_msg_direct r ms s) = None \<and>
      heap (snd (send_msg_direct r ms s)) = heap s \<and>
      queue_stats (snd (send_msg_direct r ms s)) = queue_stats s \<and>
      redis_lists (snd (send_msg_direct r ms s)) = redis_lists s \<and>
      redis_push_fail (snd (send_msg_direct r ms s)) = redis_push_fail s \<and>
      logged (snd (send_msg_direct r ms s)) =
        logged s @ map (\<lambda>m. (WARN, ''unable to enqueue work on worker %s, queue %s does not exist'',
                              [ArgStr (worker_id (heap s r)), ArgInt (qnum m)])) ms) \<and>
   (0 < M \<and> available_workers s (role m) \<noteq> [] \<and>
    r = available_workers s (role m) !
          nat (h (m\<lparr>fabric := self_fabric s\<rparr>) mod int (length (available_workers s (role m)))) \<and>
    wf_worker (heap s r) \<and> queues (heap s r) \<noteq> [] \<and>
    int (length (queues (heap s r))) \<le> qnum m \<and>
    queue_stats s ''total'' \<noteq> None \<and> redis_push_fail s = [] \<longrightarrow>
      redis_lists (snd (send_msg M h [m] False s)) (last (queues (heap s r))) =
        redis_lists s (last (queues (heap s r))) @
          [MsgWork (stamped (self_fabric s) (length (queues (heap s r)) - 1)
                      (last (last_seq (heap s r)) + 1) m)] \<and>
      last (last_seq (heap (snd (send_msg M h [m] False s)) r)) = last (last_seq (heap s r)) + 1)"
proof (intro conjI impI)
  assume a: "\<forall>m \<in> set ms. int (length (queues (heap s r))) \<le> qnum m"
  note d = send_msg_direct_all_out_of_range [OF a]
  show "fst (send_msg_direct r ms s) = None" using d by simp
  show "heap (snd (send_msg_direct r ms s)) = heap s" using d by simp
  show "queue_stats (snd (send_msg_direct r ms s)) = queue_stats s" using d by simp
  show "redis_lists (snd (send_msg_direct r ms s)) = redis_lists s" using d by simp
  show "redis_push_fail (snd (send_msg_direct r ms s)) = redis_push_fail s" using d by simp
  show "logged (snd (send_msg_direct r ms s)) =
        logged s @ map (\<lambda>m. (WARN, ''unable to enqueue work on worker %s, queue %s does not exist'',
                              [ArgStr (worker_id (heap s r)), ArgInt (qnum m)])) ms" using d by simp
next
  let ?n = "length (queues (heap s r))"
  assume a: "0 < M \<and> available_workers s (role m) \<noteq> [] \<and>
    r = available_workers s (role m) !
          nat (h (m\<lparr>fabric := self_fabric s\<rparr>) mod int (length (available_workers s (role m)))) \<and>
    wf_worker (heap s r) \<and> queues (heap s r) \<noteq> [] \<and>
    int (length (queues (heap s r))) \<le> qnum m \<and>
    queue_stats s ''total'' \<noteq> None \<and> redis_push_fail s = []"
  from a have a1: "available_workers s (role m) \<noteq> []"
    and a2: "r = available_workers s (role m) !
          nat (h (m\<lparr>fabric := self_fabric s\<rparr>) mod int (length (available_workers s (role m))))"
    and a3: "queues (heap s r) \<noteq> []" and a4: "int (length (queues (heap s r))) \<le> qnum m"
    by blast+
  have a5: "0 \<le> qnum m" using a4 by simp
  have a6: "?n - 1 = (if qnum m \<ge> int ?n then ?n - 1 else nat (qnum m))" using a4 by simp
  have rt: "routes_to h s m r (?n - 1)"
    by (rule routes_toI [where h = h and s = s and m = m and r = r and q = "?n - 1", OF a1 a2 a3 a5 a6])
  from a have M: "0 < M" and wf: "wf_worker (heap s r)" and tot: "queue_stats s ''total'' \<noteq> None"
    and pf: "redis_push_fail s = []" and ne: "queues (heap s r) \<noteq> []" by blast+
  note ok = send_msg_one_ok [OF M rt wf tot pf, of False]
  have lq: "last (queues (heap s r)) = queues (heap s r) ! (?n - 1)"
    using ne by (simp add: last_conv_nth)
  have ls: "last_seq (heap s r) \<noteq> []" "length (last_seq (heap s r)) = ?n"
    using wf ne by (auto simp: wf_worker_def)
  have ll: "last (last_seq (heap s r)) = last_seq (heap s r) ! (?n - 1)"
    using ls by (simp add: last_conv_nth)
  show "redis_lists (snd (send_msg M h [m] False s)) (last (queues (heap s r))) =
        redis_lists s (last (queues (heap s r))) @
          [MsgWork (stamped (self_fabric s) (?n - 1) (last (last_seq (heap s r)) + 1) m)]"
    unfolding lq ll using ok(2) by simp
  show "last (last_seq (heap (snd (send_msg M h [m] False s)) r)) = last (last_seq (heap s r)) + 1"
  proof -
    have lt: "?n - 1 < length (last_seq (heap s r))" using ls by (cases "last_seq (heap s r)") auto
    show ?thesis
      unfolding ok(4) ll using ls lt by (simp add: last_conv_nth)
  qed
qed




section \<open>Properties of the handlers\<close>

text \<open>
  C3 (as amended). While the subscriber is not stopped: an event of a slow MO delivered
  to \<^verbatim>\<open>handle_event\<close> or \<^verbatim>\<open>handle_std_mo_event\<close> while \<open>initializing\<close> is set, and an EPM
  event delivered to \<^verbatim>\<open>handle_epm_event\<close> while \<open>epm_initializing\<close> is set, are dropped:
  the handler logs that it ignores the event and changes nothing else, so that no
  handler of a control MO runs and neither queue receives a message.
\<close>

theorem events_dropped_while_initializing:
  "(initializing s \<and> \<not> stopped s \<longrightarrow>
      handle_event env now ev s =
        logger DEBUG ''ignoring event (in initializing state): %s'' [ArgObj] s \<and>
      handle_std_mo_event now ev s =
        logger DEBUG ''ignoring event (in initializing state): %s'' [ArgObj] s \<and>
      std_mo_event_queue (handle_event env now ev s) = std_mo_event_queue s \<and>
      epm_event_queue (handle_event env now ev s) = epm_event_queue s \<and>
      std_mo_event_queue (handle_std_mo_event now ev s) = std_mo_event_queue s \<and>
      epm_event_queue (handle_std_mo_event now ev s) = epm_event_queue s) \<and>
   (epm_initializing s \<and> \<not> stopped s \<longrightarrow>
      handle_epm_event env now ev s =
        logger DEBUG ''ignoring event (in epm_initializing state): %s'' [ArgObj] s \<and>
      std_mo_event_queue (handle_epm_event env now ev s) = std_mo_event_queue s \<and>
      epm_event_queue (handle_epm_event env now ev s) = epm_event_queue s)"
  by (simp add: handle_event_def handle_std_mo_event_def handle_epm_event_def logger_def)

lemma sublist_mid: "sublist x (a @ x @ b)"
  by (rule sublist_appendI)

text \<open>
  C7. A \<^verbatim>\<open>fabricProtPol\<close> event whose \<^verbatim>\<open>pairT\<close> differs from \<^verbatim>\<open>settings.vpc_pair_type\<close>:
  the handler returns normally, \<open>stopped\<close> is set, and one message more is published,
  on \<^verbatim>\<open>MANAGER_CTRL_CHANNEL\<close>, the \<^verbatim>\<open>FABRIC_RESTART\<close> of this fabric whose reason holds the
  old and the new value. When \<^verbatim>\<open>pairT\<close> is the stored value nothing is published and
  \<open>stopped\<close> is as before; when \<^verbatim>\<open>pairT\<close> is absent the handler raises \<^verbatim>\<open>KeyError\<close> with the
  state unchanged, and \<^verbatim>\<open>handle_event\<close>, which catches it, publishes nothing and leaves
  \<open>stopped\<close> as before.
\<close>

theorem fabric_prot_pol_restart:
  "(map_of (a_kv attr) ''pairT'' = Some pt \<and> pt \<noteq> vpc_pair_type (settings s) \<longrightarrow>
      fst (handle_fabric_prot_pol classname attr s) = None \<and>
      stopped (snd (handle_fabric_prot_pol classname attr s)) \<and>
      redis_published (snd (handle_fabric_prot_pol classname attr s)) =
        redis_published s @
          [(MANAGER_CTRL_CHANNEL,
            MsgFabricRestart (self_fabric s)
              (''restarting: fabricProtPol changed from '' @ vpc_pair_type (settings s) @ '' to '' @ pt))] \<and>
      sublist (vpc_pair_type (settings s))
        (''restarting: fabricProtPol changed from '' @ vpc_pair_type (settings s) @ '' to '' @ pt) \<and>
      sublist pt
        (''restarting: fabricProtPol changed from '' @ vpc_pair_type (settings s) @ '' to '' @ pt)) \<and>
   (map_of (a_kv attr) ''pairT'' = Some (vpc_pair_type (settings s)) \<longrightarrow>
      fst (handle_fabric_prot_pol classname attr s) = None \<and>
      stopped (snd (handle_fabric_prot_pol classname attr s)) = stopped s \<and>
      redis_published (snd (handle_fabric_prot_pol classname attr s)) = redis_published s) \<and>
   (map_of (a_kv attr) ''pairT'' = None \<longrightarrow>
      handle_fabric_prot_pol classname attr s = (Some (KeyError ''pairT''), s)) \<and>
   (map_of kv ''pairT'' = None \<and> \<not> stopped s \<and> \<not> initializing s \<longrightarrow>
      stopped (handle_event env now [(''fabricProtPol'', Some kv)] s) = stopped s \<and>
      redis_published (handle_event env now [(''fabricProtPol'', Some kv)] s) = redis_published s)"
proof -
  let ?old = "vpc_pair_type (settings s)"
  have s1: "sublist ?old (''restarting: fabricProtPol changed from '' @ ?old @ '' to '' @ pt)"
    by (rule sublist_mid)
  have "sublist pt ((''restarting: fabricProtPol changed from '' @ ?old @ '' to '') @ pt @ [])"
    by (rule sublist_mid)
  then have s2: "sublist pt (''restarting: fabricProtPol changed from '' @ ?old @ '' to '' @ pt)"
    by simp
  show ?thesis
    using s1 s2
    by (simp add: handle_fabric_prot_pol_def hard_restart_def unsubscribe_def redis_publish_def
                  add_fabric_event_def logger_def Let_def handle_event_def call_handler_def
                  subscription_classes_def)
qed

lemma history_flt_db [simp]:
  "history_flt (s\<lparr>db := x\<rparr>) addr_arg vnid_arg = history_flt s addr_arg vnid_arg"
  by (simp add: history_flt_def fun_eq_iff)

text \<open>
  C8. An entry of the endpoint history that the query returns (this fabric, first event
  not \<^verbatim>\<open>deleted\<close>, and the address and vnid asked for when both are given) contributes to
  the delete messages, at its place in the order of the query: nothing when its node,
  vnid and address are in the dictionary of the endpoints seen; for type \<^verbatim>\<open>mac\<close> the one
  message the parser builds for \<^verbatim>\<open>epmMacEp\<close>; for any other type the two messages the
  parser builds for \<^verbatim>\<open>epmRsMacEpToIpEpAtt\<close> and for \<^verbatim>\<open>epmIpEp\<close>, in this order. An entry the
  query does not return contributes nothing.
\<close>

theorem epm_delete_msgs_per_entry:
  "(db s eptHistory = pre @ obj # post \<longrightarrow>
      get_epm_delete_msgs env now endpoints addr_arg vnid_arg s =
        get_epm_delete_msgs env now endpoints addr_arg vnid_arg (s\<lparr>db := (db s)(eptHistory := pre)\<rparr>) @
        (if history_flt s addr_arg vnid_arg obj then delete_msgs_of env now endpoints obj else []) @
        get_epm_delete_msgs env now endpoints addr_arg vnid_arg (s\<lparr>db := (db s)(eptHistory := post)\<rparr>)) \<and>
   (in_endpoints endpoints obj \<longrightarrow> delete_msgs_of env now endpoints obj = []) \<and>
   (\<not> in_endpoints endpoints obj \<and> h_type obj = ''mac'' \<and>
    get_delete_event env ''epmMacEp'' (h_node obj) (h_vnid obj) (h_addr obj) now = Some ma \<longrightarrow>
      delete_msgs_of env now endpoints obj = [ma]) \<and>
   (\<not> in_endpoints endpoints obj \<and> h_type obj \<noteq> ''mac'' \<and>
    get_delete_event env ''epmRsMacEpToIpEpAtt'' (h_node obj) (h_vnid obj) (h_addr obj) now = Some ma \<and>
    get_delete_event env ''epmIpEp'' (h_node obj) (h_vnid obj) (h_addr obj) now = Some mb \<longrightarrow>
      delete_msgs_of env now endpoints obj = [ma, mb])"
proof -
  have p1: "get_epm_delete_msgs env now endpoints addr_arg vnid_arg s =
        get_epm_delete_msgs env now endpoints addr_arg vnid_arg (s\<lparr>db := (db s)(eptHistory := pre)\<rparr>) @
        (if history_flt s addr_arg vnid_arg obj then delete_msgs_of env now endpoints obj else []) @
        get_epm_delete_msgs env now endpoints addr_arg vnid_arg (s\<lparr>db := (db s)(eptHistory := post)\<rparr>)"
    if "db s eptHistory = pre @ obj # post"
    using that by (simp add: get_epm_delete_msgs_def)
  have p2: "delete_msgs_of env now endpoints obj = []" if "in_endpoints endpoints obj"
    using that by (simp add: delete_msgs_of_def)
  have p3: "delete_msgs_of env now endpoints obj = [ma]"
    if "\<not> in_endpoints endpoints obj \<and> h_type obj = ''mac'' \<and>
        get_delete_event env ''epmMacEp'' (h_node obj) (h_vnid obj) (h_addr obj) now = Some ma"
    using that by (simp add: delete_msgs_of_def yield_msg_def)
  have p4: "delete_msgs_of env now endpoints obj = [ma, mb]"
    if "\<not> in_endpoints endpoints obj \<and> h_type obj \<noteq> ''mac'' \<and>
        get_delete_event env ''epmRsMacEpToIpEpAtt'' (h_node obj) (h_vnid obj) (h_addr obj) now = Some ma \<and>
        get_delete_event env ''epmIpEp'' (h_node obj) (h_vnid obj) (h_addr obj) now = Some mb"
    using that by (simp add: delete_msgs_of_def yield_msg_def)
  show ?thesis
    by (rule conjI [OF impI [OF p1] conjI [OF impI [OF p2] conjI [OF impI [OF p3] impI [OF p4]]]])
qed

section \<open>Properties of the restarts\<close>

text \<open>
  The fields that the dispatcher, the broadcasts, the restarts and the handlers leave
  alone: the tracking of the EPM EOF and the time stamp of the last soft restart.
\<close>

definition quiet :: "subscriber \<Rightarrow> (string \<times> bool) list option \<times> real" where
  "quiet s = (epm_eof_tracking s, soft_restart_ts s)"

lemma quiet_updates [simp]:
  "quiet (logger l f a s) = quiet s"
  "quiet (add_fabric_event st d s) = quiet s"
  "quiet (redis_publish ch v s) = quiet s"
  "quiet (db_delete c s) = quiet s"
  "quiet (bulk_save env c objs s) = quiet s"
  "quiet (remove_interest cs s) = quiet s"
  "quiet (add_interest cl hdl p s) = quiet s"
  "quiet (resume cs s) = quiet s"
  "quiet (snd (unsubscribe s)) = quiet s"
  "quiet (snd (redis_push p k v s)) = quiet s"
  "quiet (snd (increment_stats qn tx cnt s)) = quiet s"
  "quiet (s\<lparr>heap := H\<rparr>) = quiet s"
  "quiet (s\<lparr>logged := L\<rparr>) = quiet s"
  "quiet (s\<lparr>stopped := b\<rparr>) = quiet s"
  "quiet (s\<lparr>initializing := b\<rparr>) = quiet s"
  "quiet (s\<lparr>settings := st'\<rparr>) = quiet s"
  "quiet (s\<lparr>std_mo_event_queue := q1\<rparr>) = quiet s"
  "quiet (s\<lparr>epm_event_queue := q2\<rparr>) = quiet s"
  "quiet (s\<lparr>hello_seq := n1\<rparr>) = quiet s"
  "quiet (s\<lparr>watcher_broadcast_seq := n2\<rparr>) = quiet s"
  "quiet (s\<lparr>worker_broadcast_seq := n3\<rparr>) = quiet s"
  by (simp_all add: quiet_def logger_def add_fabric_event_def redis_publish_def db_delete_def
        bulk_save_def remove_interest_def add_interest_def resume_def unsubscribe_def
        redis_push_def increment_stats_def Let_def
        split: list.splits option.splits)

lemma fold_quiet:
  assumes "\<And>x s. quiet (f x s) = quiet s"
  shows "quiet (fold f xs s) = quiet s"
  by (induction xs arbitrary: s) (simp_all add: assms)

lemmas case_simps = case_prod_beta bool.case_eq_if option.case_eq_if sum.case_eq_if

lemma quiet_broadcast_channels [simp]: "quiet (snd (broadcast_channels m cs s)) = quiet s"
proof (induction cs arbitrary: s)
  case Nil
  show ?case by simp
next
  case (Cons e es)
  obtain ch sq where e: "e = (ch, sq)" by (cases e)
  show ?case unfolding e by (simp add: Let_def case_simps Cons.IH)
qed

lemma quiet_broadcast_one [simp]: "quiet (snd (broadcast_one m s)) = quiet s"
  by (simp add: broadcast_one_def Let_def del: broadcast_channels.simps)

lemma quiet_broadcast [simp]: "quiet (snd (broadcast ms s)) = quiet s"
  by (induction ms arbitrary: s) (simp_all add: case_simps)

lemma quiet_hard_restart [simp]: "quiet (snd (hard_restart reason s)) = quiet s"
  by (simp add: hard_restart_def Let_def case_simps)

lemma quiet_send_flush [simp]: "quiet (snd (send_flush c nm s)) = quiet s"
  by (simp add: send_flush_def del: broadcast.simps)

lemma quiet_send_flushes [simp]: "quiet (snd (send_flushes cs s)) = quiet s"
  by (induction cs arbitrary: s) (simp_all add: case_simps)

lemma quiet_initialize_ept_collection [simp]:
  "quiet (snd (initialize_ept_collection env c cl fl s)) = quiet s"
  by (simp add: initialize_ept_collection_def Let_def case_simps fold_quiet)

lemma quiet_build_node_db [simp]: "quiet (snd (build_node_db env s)) = quiet s"
  by (simp add: build_node_db_def Let_def case_simps)

lemma quiet_build_tunnel_db [simp]: "quiet (snd (build_tunnel_db env s)) = quiet s"
  by (simp add: build_tunnel_db_def Let_def case_simps)

lemma quiet_mo_rebuild [simp]: "quiet (snd (mo_rebuild env c s)) = quiet s"
  by (simp add: mo_rebuild_def case_simps)

lemma quiet_soft_restart [simp]: "quiet (snd (soft_restart env t reason s)) = quiet s"
  by (simp add: soft_restart_def Let_def case_simps fold_quiet del: send_flushes.simps)

lemma quiet_handle_fabric_group_ep [simp]:
  "quiet (snd (handle_fabric_group_ep env c a s)) = quiet s"
  by (simp add: handle_fabric_group_ep_def Let_def case_simps)

text \<open>The events of the fabric: who adds one.\<close>

lemma fabric_events_updates [simp]:
  "fabric_events (logger l f a s) = fabric_events s"
  "fabric_events (add_fabric_event st d s) = fabric_events s @ [(st, d)]"
  "fabric_events (redis_publish ch v s) = fabric_events s"
  "fabric_events (db_delete c s) = fabric_events s"
  "fabric_events (bulk_save env c objs s) = fabric_events s"
  "fabric_events (remove_interest cs s) = fabric_events s"
  "fabric_events (add_interest cl hdl p s) = fabric_events s"
  "fabric_events (resume cs s) = fabric_events s"
  "fabric_events (snd (unsubscribe s)) = fabric_events s"
  "fabric_events (snd (increment_stats qn tx cnt s)) = fabric_events s"
  by (simp_all add: logger_def add_fabric_event_def redis_publish_def db_delete_def
        bulk_save_def remove_interest_def add_interest_def resume_def unsubscribe_def
        increment_stats_def Let_def split: list.splits option.splits)

lemma fold_fabric_events:
  assumes "\<And>x s. fabric_events (f x s) = fabric_events s"
  shows "fabric_events (fold f xs s) = fabric_events s"
  by (induction xs arbitrary: s) (simp_all add: assms)

lemma fabric_events_broadcast_channels [simp]:
  "fabric_events (snd (broadcast_channels m cs s)) = fabric_events s"
proof (induction cs arbitrary: s)
  case Nil
  show ?case by simp
next
  case (Cons e es)
  obtain ch sq where e: "e = (ch, sq)" by (cases e)
  show ?case unfolding e by (simp add: Let_def case_simps Cons.IH)
qed

lemma fabric_events_broadcast_one [simp]:
  "fabric_events (snd (broadcast_one m s)) = fabric_events s"
  by (simp add: broadcast_one_def Let_def del: broadcast_channels.simps)

lemma fabric_events_broadcast [simp]: "fabric_events (snd (broadcast ms s)) = fabric_events s"
  by (induction ms arbitrary: s) (simp_all add: case_simps)

lemma fabric_events_hard_restart [simp]:
  "fabric_events (snd (hard_restart reason s)) = fabric_events s @ [(''restarting'', reason)]"
  by (simp add: hard_restart_def Let_def case_simps)

lemma fabric_events_send_flush [simp]: "fabric_events (snd (send_flush c nm s)) = fabric_events s"
  by (simp add: send_flush_def del: broadcast.simps)

lemma fabric_events_send_flushes [simp]: "fabric_events (snd (send_flushes cs s)) = fabric_events s"
  by (induction cs arbitrary: s) (simp_all add: case_simps)

lemma fabric_events_initialize_ept_collection [simp]:
  "fabric_events (snd (initialize_ept_collection env c cl fl s)) = fabric_events s"
  by (simp add: initialize_ept_collection_def Let_def case_simps fold_fabric_events)

lemma fabric_events_build_node_db [simp]:
  "fabric_events (snd (build_node_db env s)) = fabric_events s"
  by (simp add: build_node_db_def Let_def case_simps)

lemma fabric_events_build_tunnel_db [simp]:
  "fabric_events (snd (build_tunnel_db env s)) = fabric_events s"
  by (simp add: build_tunnel_db_def Let_def case_simps)

lemma fabric_events_mo_rebuild [simp]: "fabric_events (snd (mo_rebuild env c s)) = fabric_events s"
  by (simp add: mo_rebuild_def case_simps)

text \<open>A request that is not stale starts the sequence of the soft restart.\<close>

lemma soft_restart_runs:
  assumes "soft_restart_ts s \<le> t"
  shows "prefix (fabric_events s @ [(''soft-reset'', reason), (''re-initializing'', ''building node db'')])
           (fabric_events (snd (soft_restart env (Some t) reason s)))"
proof -
  have ts: "soft_restart_ts (logger DEBUG ''soft restart requested: %s'' [ArgStr reason] s) = soft_restart_ts s"
    by (simp add: logger_def)
  show ?thesis
    using assms
    by (simp add: soft_restart_def Let_def case_simps ts fold_fabric_events
             del: send_flushes.simps)
qed

lemma soft_restart_stale:
  assumes "soft_restart_ts s > t"
  shows "fabric_events (snd (soft_restart env (Some t) reason s)) = fabric_events s"
proof -
  have ts: "soft_restart_ts (logger DEBUG ''soft restart requested: %s'' [ArgStr reason] s) = soft_restart_ts s"
    by (simp add: logger_def)
  show ?thesis
    using assms by (simp add: soft_restart_def Let_def ts)
qed

lemma handle_fabric_group_ep_runs:
  assumes "a_ts a = Some t" "soft_restart_ts s \<le> t"
  shows "prefix (fabric_events s @ [(''soft-reset'', ''('' @ c @ '') vpc domain update''),
                                    (''re-initializing'', ''building node db'')])
           (fabric_events (snd (handle_fabric_group_ep env c a s)))"
proof -
  let ?s1 = "logger DEBUG ''handle %s event'' [ArgStr c] s"
  have ts: "soft_restart_ts ?s1 \<le> t" using assms(2) by (simp add: logger_def)
  have "handle_fabric_group_ep env c a s =
          soft_restart env (Some t) (''('' @ c @ '') vpc domain update'') ?s1"
    using assms(1) by (simp add: handle_fabric_group_ep_def Let_def)
  then show ?thesis
    using soft_restart_runs [OF ts, of "''('' @ c @ '') vpc domain update''" env] by simp
qed

lemma handle_fabric_group_ep_stale:
  assumes "a_ts a = Some t" "soft_restart_ts s > t"
  shows "fabric_events (snd (handle_fabric_group_ep env c a s)) = fabric_events s"
proof -
  let ?s1 = "logger DEBUG ''handle %s event'' [ArgStr c] s"
  have ts: "soft_restart_ts ?s1 > t" using assms(2) by (simp add: logger_def)
  have "handle_fabric_group_ep env c a s =
          soft_restart env (Some t) (''('' @ c @ '') vpc domain update'') ?s1"
    using assms(1) by (simp add: handle_fabric_group_ep_def Let_def)
  then show ?thesis
    using soft_restart_stale [OF ts, of env "''('' @ c @ '') vpc domain update''"] by simp
qed

text \<open>
  C5 (the code does not do what the claim says). Line 799 reads \<^verbatim>\<open>self.soft_restart_ts\<close>,
  and no line of the module assigns it after \<^verbatim>\<open>__init__\<close>: a soft restart, and so the
  handler of \<^verbatim>\<open>fabricAutoGEp\<close> and \<^verbatim>\<open>fabricExplicitGEp\<close>, leaves the field as it was.
  Hence of two requests with the time stamps \<open>t1\<close> then \<open>t2 < t1\<close>, neither below the
  value the field has, the second is not dropped: each adds the events \<open>soft-reset\<close> and
  \<open>re-initializing\<close> to the fabric, the second after all the events of the first. The
  one request that is dropped is the one older than the value the field has had from
  the start.
\<close>

theorem soft_restart_not_deduplicated:
  "soft_restart_ts (snd (soft_restart env req reason s)) = soft_restart_ts s \<and>
   soft_restart_ts (snd (handle_fabric_group_ep env c a s)) = soft_restart_ts s \<and>
   (a_ts a = Some t1 \<and> a_ts a' = Some t2 \<and> t2 < t1 \<and> soft_restart_ts s \<le> t2 \<longrightarrow>
      prefix (fabric_events s @ [(''soft-reset'', ''('' @ c @ '') vpc domain update''),
                                 (''re-initializing'', ''building node db'')])
        (fabric_events (snd (handle_fabric_group_ep env c a s))) \<and>
      prefix (fabric_events (snd (handle_fabric_group_ep env c a s)) @
                [(''soft-reset'', ''('' @ c' @ '') vpc domain update''),
                 (''re-initializing'', ''building node db'')])
        (fabric_events (snd (handle_fabric_group_ep env c' a'
                               (snd (handle_fabric_group_ep env c a s)))))) \<and>
   (a_ts a = Some t \<and> soft_restart_ts s > t \<longrightarrow>
      fabric_events (snd (handle_fabric_group_ep env c a s)) = fabric_events s)"
proof (intro conjI impI)
  show "soft_restart_ts (snd (soft_restart env req reason s)) = soft_restart_ts s"
    using quiet_soft_restart [of env req reason s] by (simp add: quiet_def)
next
  show "soft_restart_ts (snd (handle_fabric_group_ep env c a s)) = soft_restart_ts s"
    using quiet_handle_fabric_group_ep [of env c a s] by (simp add: quiet_def)
next
  assume h: "a_ts a = Some t1 \<and> a_ts a' = Some t2 \<and> t2 < t1 \<and> soft_restart_ts s \<le> t2"
  then have a1: "a_ts a = Some t1" and a2: "a_ts a' = Some t2" and le2: "soft_restart_ts s \<le> t2"
    and le1: "soft_restart_ts s \<le> t1"
    by simp_all
  let ?s1 = "snd (handle_fabric_group_ep env c a s)"
  have same: "soft_restart_ts ?s1 = soft_restart_ts s"
    using quiet_handle_fabric_group_ep [of env c a s] by (simp add: quiet_def)
  show "prefix (fabric_events s @ [(''soft-reset'', ''('' @ c @ '') vpc domain update''),
                                 (''re-initializing'', ''building node db'')])
        (fabric_events ?s1)"
    by (rule handle_fabric_group_ep_runs [OF a1 le1])
  have le: "soft_restart_ts ?s1 \<le> t2" using same le2 by simp
  show "prefix (fabric_events ?s1 @
                [(''soft-reset'', ''('' @ c' @ '') vpc domain update''),
                 (''re-initializing'', ''building node db'')])
        (fabric_events (snd (handle_fabric_group_ep env c' a' ?s1)))"
    by (rule handle_fabric_group_ep_runs [OF a2 le])
next
  assume "a_ts a = Some t \<and> soft_restart_ts s > t"
  then show "fabric_events (snd (handle_fabric_group_ep env c a s)) = fabric_events s"
    using handle_fabric_group_ep_stale [of a t s env c] by simp
qed

section \<open>A fabric to run the subscriber on\<close>

text \<open>
  Three workers and one watcher with one queue each, statistics for every queue and
  channel, an empty broker and store, and the subscriber past its start-up.
\<close>

definition ex_worker :: "string \<Rightarrow> TrackedWorker" where
  "ex_worker n = \<lparr>worker_id = n, queues = [n @ ''_q0''], last_seq = [0], queue_locks = [()]\<rparr>"

definition ex_settings :: eptSettings where
  "ex_settings = \<lparr>overlay_vnid = 16777199, vpc_pair_type = ''reciprocal'',
                  queue_init_events = True, queue_init_epm_events = True\<rparr>"

definition ex_state :: subscriber where
  "ex_state =
     \<lparr>self_fabric = ''fab1'', settings = ex_settings, initializing = False,
      epm_initializing = False, stopped = False, soft_restart_ts = 0,
      active_workers = [''worker'' \<mapsto> [0, 1, 2], ''watcher'' \<mapsto> [3]],
      heap = (\<lambda>r. ex_worker ''w0'')(1 := ex_worker ''w1'', 2 := ex_worker ''w2'', 3 := ex_worker ''wt''),
      queue_stats = map_of (map (\<lambda>k. (k, \<lparr>total_tx_msg = 0, total_rx_msg = 0\<rparr>))
                      [''total'', ''w0_q0'', ''w1_q0'', ''w2_q0'', ''wt_q0'',
                       WATCHER_BROADCAST_CHANNEL, WORKER_BROADCAST_CHANNEL, WORKER_CTRL_CHANNEL]),
      watcher_broadcast_seq = 0, worker_broadcast_seq = 0,
      epm_eof_tracking = None, epm_eof_start = None,
      epm_event_queue = [], std_mo_event_queue = [],
      redis_lists = (\<lambda>k. []), redis_published = [], redis_push_fail = [],
      db = (\<lambda>c. []), stored_settings = ex_settings, fabric_events = [],
      interests = [], subscription_alive = True, failure_reason = None,
      unsubscribe_raises = False, hello_seq = 0, logged = []\<rparr>"

text \<open>A message for the workers, for one endpoint.\<close>

definition ex_msg :: eptMsgWork where
  "ex_msg = (mk_eptMsgWork (AddrStr ''10.1.1.2'') (Some ''worker'') NoData EPM_IP_EVENT 0)\<lparr>vnid := 14680065\<rparr>"

text \<open>A hash of \<open>(vnid, addr)\<close>: the vnid plus the length of the address.\<close>

definition ex_hash :: "eptMsgWork \<Rightarrow> int" where
  "ex_hash m = vnid m + (case addr m of AddrInt i \<Rightarrow> i | AddrStr a \<Rightarrow> int (length a))"

lemma ex_routes: "routes_to ex_hash ex_state ex_msg 2 0"
  by (simp add: routes_to_def ex_hash_def ex_state_def ex_msg_def mk_eptMsgWork_def
                available_workers_def ex_worker_def Let_def)

lemma ex_wf: "wf_worker (heap ex_state 2)"
  by (simp add: wf_worker_def ex_state_def ex_worker_def)

text \<open>
  The scenario of the spec: three workers with one queue each, 25 messages for the same
  \<open>(vnid, addr)\<close>, bulks of at most 20. They land on the queue of the third worker in
  two envelopes.
\<close>

theorem send_msg_bulk_emission_witness:
  "\<exists>envs.
     fst (send_msg 20 ex_hash (replicate 25 ex_msg) False ex_state) = None \<and>
     redis_lists (snd (send_msg 20 ex_hash (replicate 25 ex_msg) False ex_state)) ''w2_q0'' = envs \<and>
     length envs = 2 \<and>
     concat (map envelope_msgs envs) = stamp_all ''fab1'' 0 0 (replicate 25 ex_msg) \<and>
     (\<forall>e \<in> set envs. bulk_ok 20 e)"
proof -
  have h: "(0::nat) < 20" "replicate 25 ex_msg \<noteq> []"
    "\<forall>m \<in> set (replicate 25 ex_msg). routes_to ex_hash ex_state m 2 0"
    "wf_worker (heap ex_state 2)" "queue_stats ex_state ''total'' \<noteq> None"
    "redis_push_fail ex_state = []"
    using ex_routes ex_wf by (simp_all add: ex_state_def)
  have c: "\<lceil>real (length (replicate 25 ex_msg)) / real 20\<rceil> = 2" by simp
  have q: "queues (heap ex_state 2) ! 0 = ''w2_q0''" "redis_lists ex_state ''w2_q0'' = []"
    "self_fabric ex_state = ''fab1''" "last_seq (heap ex_state 2) ! 0 = 0"
    by (simp_all add: ex_state_def ex_worker_def)
  from send_msg_bulk_emission [OF h, of False]
  show ?thesis unfolding c q by auto
qed

text \<open>
  C1 as stated fails on the empty batch: \<^verbatim>\<open>send_msg([])\<close> pushes no envelope to any
  queue, where \<open>max(1, ceil(0 / 20))\<close> is 1.
\<close>

theorem send_msg_empty_batch:
  "int (length (redis_lists (snd (send_msg 20 ex_hash [] False ex_state)) ''w2_q0''))
     - int (length (redis_lists ex_state ''w2_q0''))
   \<noteq> max 1 \<lceil>real (length ([] :: eptMsgWork list)) / real 20\<rceil>"
  by (simp add: send_msg_def)

lemmas ex_defs = ex_state_def ex_worker_def ex_msg_def ex_hash_def mk_eptMsgWork_def
  available_workers_def wf_worker_def ex_settings_def

text \<open>
  On that fabric: a message for a role without workers is dropped; a message with
  queue number 5 goes to the one queue of the third worker; a failing broker does not
  change the counters. In a batch of three, the first message goes to the third
  worker, the second (another address) to the first worker, the third (no worker
  for its role) nowhere, and the second worker receives nothing.
\<close>

theorem send_msg_routing_witness:
  "send_msg 20 ex_hash [ex_msg\<lparr>role := Some ''nobody''\<rparr>] False ex_state =
     (None, logger WARN (''no available workers for role '' @ apos @ ''%s'' @ apos) [ArgObj] ex_state) \<and>
   redis_lists (snd (send_msg 20 ex_hash [ex_msg\<lparr>qnum := 5\<rparr>] False ex_state)) ''w2_q0'' =
     [MsgWork (stamped ''fab1'' 0 1 (ex_msg\<lparr>qnum := 5\<rparr>))] \<and>
   heap (snd (send_msg 20 ex_hash [ex_msg] False (ex_state\<lparr>redis_push_fail := [True]\<rparr>))) =
     heap (snd (send_msg 20 ex_hash [ex_msg] False ex_state)) \<and>
   fst (send_msg_route 20 ex_hash (ex_msg\<lparr>qnum := 5\<rparr>)
          [(''w0'', [(0, (0, [], [ex_msg]))])] ex_state) =
     Inr [(''w0'', [(0, (0, [], [ex_msg]))]),
          (''w2'', [(0, (2, [], [stamped ''fab1'' 0 1 (ex_msg\<lparr>qnum := 5\<rparr>)]))])] \<and>
   set (concat (map envelope_msgs (redis_lists (snd (send_msg 20 ex_hash
          [ex_msg, ex_msg\<lparr>addr := AddrStr ''10.1.1.20''\<rparr>, ex_msg\<lparr>role := Some ''nobody''\<rparr>]
          False ex_state)) ''w2_q0''))) = {stamped ''fab1'' 0 1 ex_msg} \<and>
   set (concat (map envelope_msgs (redis_lists (snd (send_msg 20 ex_hash
          [ex_msg, ex_msg\<lparr>addr := AddrStr ''10.1.1.20''\<rparr>, ex_msg\<lparr>role := Some ''nobody''\<rparr>]
          False ex_state)) ''w0_q0''))) = {stamped ''fab1'' 0 1 (ex_msg\<lparr>addr := AddrStr ''10.1.1.20''\<rparr>)} \<and>
   set (concat (map envelope_msgs (redis_lists (snd (send_msg 20 ex_hash
          [ex_msg, ex_msg\<lparr>addr := AddrStr ''10.1.1.20''\<rparr>, ex_msg\<lparr>role := Some ''nobody''\<rparr>]
          False ex_state)) ''w1_q0''))) = {}"
proof -
  let ?ms = "[ex_msg, ex_msg\<lparr>addr := AddrStr ''10.1.1.20''\<rparr>, ex_msg\<lparr>role := Some ''nobody''\<rparr>]"
  let ?wk = "[(''w0'', [(0, (0::nat, [], [ex_msg]))])]"
  have a: "available_workers ex_state (role (ex_msg\<lparr>role := Some ''nobody''\<rparr>)) = []"
    by (simp add: ex_defs)
  have b: "0 < (20::nat) \<and> available_workers ex_state (role (ex_msg\<lparr>qnum := 5\<rparr>)) \<noteq> [] \<and>
    (2::nat) = available_workers ex_state (role (ex_msg\<lparr>qnum := 5\<rparr>)) !
          nat (ex_hash (ex_msg\<lparr>qnum := 5, fabric := self_fabric ex_state\<rparr>) mod
               int (length (available_workers ex_state (role (ex_msg\<lparr>qnum := 5\<rparr>))))) \<and>
    wf_worker (heap ex_state 2) \<and> queues (heap ex_state 2) \<noteq> [] \<and> 0 \<le> qnum (ex_msg\<lparr>qnum := 5\<rparr>) \<and>
    (0::nat) = (if qnum (ex_msg\<lparr>qnum := 5\<rparr>) \<ge> int (length (queues (heap ex_state 2)))
         then length (queues (heap ex_state 2)) - 1 else nat (qnum (ex_msg\<lparr>qnum := 5\<rparr>))) \<and>
    queue_stats ex_state ''total'' \<noteq> None \<and> redis_push_fail ex_state = []"
    by (simp add: ex_defs)
  have c: "same_routing (ex_state\<lparr>redis_push_fail := [True]\<rparr>) ex_state"
    by (simp add: same_routing_def)
  have d: "available_workers ex_state (role (ex_msg\<lparr>qnum := 5\<rparr>)) \<noteq> [] \<and>
    (2::nat) = available_workers ex_state (role (ex_msg\<lparr>qnum := 5\<rparr>)) !
          nat (ex_hash (ex_msg\<lparr>qnum := 5, fabric := self_fabric ex_state\<rparr>) mod
               int (length (available_workers ex_state (role (ex_msg\<lparr>qnum := 5\<rparr>))))) \<and>
    wf_worker (heap ex_state 2) \<and> queues (heap ex_state 2) \<noteq> [] \<and> 0 \<le> qnum (ex_msg\<lparr>qnum := 5\<rparr>) \<and>
    (0::nat) = (if qnum (ex_msg\<lparr>qnum := 5\<rparr>) \<ge> int (length (queues (heap ex_state 2)))
         then length (queues (heap ex_state 2)) - 1 else nat (qnum (ex_msg\<lparr>qnum := 5\<rparr>))) \<and>
    queue_stats ex_state ''total'' \<noteq> None"
    using b by blast
  have cw: "chosen_worker ex_hash ex_state ex_msg = 2"
    "chosen_worker ex_hash ex_state (ex_msg\<lparr>addr := AddrStr ''10.1.1.20''\<rparr>) = 0"
    by (simp_all add: chosen_worker_def ex_defs)
  have cq: "chosen_queue ex_hash ex_state ex_msg = 0"
    "chosen_queue ex_hash ex_state (ex_msg\<lparr>addr := AddrStr ''10.1.1.20''\<rparr>) = 0"
    unfolding chosen_queue_def cw by (simp_all add: ex_defs)
  have av: "available_workers ex_state (role ex_msg) \<noteq> []"
    "available_workers ex_state (role (ex_msg\<lparr>addr := AddrStr ''10.1.1.20''\<rparr>)) \<noteq> []"
    by (simp_all add: ex_defs)
  have rb: "routable ex_hash ex_state ex_msg"
    "routable ex_hash ex_state (ex_msg\<lparr>addr := AddrStr ''10.1.1.20''\<rparr>)"
    unfolding routable_def cw by (simp_all add: ex_defs)
  have img: "chosen_worker ex_hash ex_state ` {x \<in> set ?ms. available_workers ex_state (role x) \<noteq> []}
             \<subseteq> {2, 0}"
    using cw a by auto
  have inj: "inj_on (\<lambda>w. worker_id (heap ex_state w)) {2, 0}"
    by (simp add: ex_defs)
  have e: "0 < (20::nat) \<and>
    (\<forall>x \<in> set ?ms. available_workers ex_state (role x) = [] \<or> routable ex_hash ex_state x) \<and>
    inj_on (\<lambda>w. worker_id (heap ex_state w))
      (chosen_worker ex_hash ex_state ` {x \<in> set ?ms. available_workers ex_state (role x) \<noteq> []}) \<and>
    queue_stats ex_state ''total'' \<noteq> None \<and> redis_push_fail ex_state = []"
    using a rb inj_on_subset [OF inj img] by (simp add: ex_state_def)
  note t1 = send_msg_routing [where s = ex_state and m = "ex_msg\<lparr>role := Some ''nobody''\<rparr>"
      and M = 20 and h = ex_hash and p = False, THEN conjunct1, THEN mp, OF a, THEN conjunct2]
  note t2 = send_msg_routing [where s = ex_state and m = "ex_msg\<lparr>qnum := 5\<rparr>"
      and M = 20 and h = ex_hash and p = False and r = 2 and q = 0,
      THEN conjunct2, THEN conjunct1, THEN mp, OF b, THEN conjunct2, THEN conjunct1]
  note t3 = send_msg_routing [where s = "ex_state\<lparr>redis_push_fail := [True]\<rparr>" and s' = ex_state
      and M = 20 and h = ex_hash and p = False and ms = "[ex_msg]",
      THEN conjunct2, THEN conjunct2, THEN conjunct1, THEN mp, OF c, THEN conjunct2]
  note t4 = send_msg_routing [where s = ex_state and m = "ex_msg\<lparr>qnum := 5\<rparr>"
      and M = 20 and h = ex_hash and r = 2 and q = 0 and work = ?wk,
      THEN conjunct2, THEN conjunct2, THEN conjunct2, THEN conjunct1, THEN mp, OF d, THEN conjunct1]
  note t5 = send_msg_routing [where s = ex_state and M = 20 and h = ex_hash and p = False and ms = ?ms,
      THEN conjunct2, THEN conjunct2, THEN conjunct2, THEN conjunct2, THEN conjunct2, THEN mp, OF e,
      THEN conjunct2, THEN conjunct2]
  have q: "queues (heap ex_state 2) ! 0 = ''w2_q0''" "redis_lists ex_state ''w2_q0'' = []"
    "self_fabric ex_state = ''fab1''" "last_seq (heap ex_state 2) ! 0 = 0"
    "worker_id (heap ex_state 2) = ''w2''"
    by (simp_all add: ex_defs)
  have sb: "stamp_batch ex_hash ex_state (heap ex_state) ?ms =
      [(2, 0, stamped ''fab1'' 0 1 ex_msg),
       (0, 0, stamped ''fab1'' 0 1 (ex_msg\<lparr>addr := AddrStr ''10.1.1.20''\<rparr>))]"
    using a av unfolding stamp_batch.simps cw cq by (simp add: consume_def ex_state_def ex_worker_def)
  obtain E where E: "\<And>k. redis_lists (snd (send_msg 20 ex_hash ?ms False ex_state)) k =
                  (if False then rev (E k) @ redis_lists ex_state k else redis_lists ex_state k @ E k) \<and>
                set (concat (map envelope_msgs (E k))) =
                  {m'. \<exists>w j. (w, j, m') \<in> set (stamp_batch ex_hash ex_state (heap ex_state) ?ms) \<and>
                              queues (heap ex_state w) ! j = k}"
    using t5 by blast
  have l: "redis_lists (snd (send_msg 20 ex_hash ?ms False ex_state)) k = E k" for k
    using E [of k] by (simp add: ex_state_def)
  have n: "queues (heap ex_state 2) ! 0 = ''w2_q0''" "queues (heap ex_state 0) ! 0 = ''w0_q0''"
    by (simp_all add: ex_defs)
  have b2: "set (concat (map envelope_msgs (E ''w2_q0''))) = {stamped ''fab1'' 0 1 ex_msg}"
    using E [of "''w2_q0''"] unfolding sb using n by auto
  have b0: "set (concat (map envelope_msgs (E ''w0_q0''))) =
            {stamped ''fab1'' 0 1 (ex_msg\<lparr>addr := AddrStr ''10.1.1.20''\<rparr>)}"
    using E [of "''w0_q0''"] unfolding sb using n by auto
  have b1: "set (concat (map envelope_msgs (E ''w1_q0''))) = {}"
    using E [of "''w1_q0''"] unfolding sb using n by auto
  have w: "work_add 20 ''w2'' 0 2 x ?wk = ?wk @ [(''w2'', [(0, (2, [], [x]))])]" for x
    by (simp add: work_add_def)
  have r4: "fst (send_msg_route 20 ex_hash (ex_msg\<lparr>qnum := 5\<rparr>) ?wk ex_state) =
     Inr (?wk @ [(''w2'', [(0, (2, [], [stamped ''fab1'' 0 1 (ex_msg\<lparr>qnum := 5\<rparr>)]))])])"
    using t4 unfolding q by (simp add: w)
  show ?thesis using t1 t2 t3 r4 b2 b0 b1 unfolding q l by simp
qed

theorem send_msg_direct_drops_witness:
  "heap (snd (send_msg_direct 2 [ex_msg\<lparr>qnum := 1\<rparr>] ex_state)) = heap ex_state \<and>
   queue_stats (snd (send_msg_direct 2 [ex_msg\<lparr>qnum := 1\<rparr>] ex_state)) = queue_stats ex_state \<and>
   redis_lists (snd (send_msg_direct 2 [ex_msg\<lparr>qnum := 1\<rparr>] ex_state)) = redis_lists ex_state \<and>
   logged (snd (send_msg_direct 2 [ex_msg\<lparr>qnum := 1\<rparr>] ex_state)) =
     [(WARN, ''unable to enqueue work on worker %s, queue %s does not exist'', [ArgStr ''w2'', ArgInt 1])] \<and>
   redis_lists (snd (send_msg 20 ex_hash [ex_msg\<lparr>qnum := 1\<rparr>] False ex_state)) ''w2_q0'' =
     [MsgWork (stamped ''fab1'' 0 1 (ex_msg\<lparr>qnum := 1\<rparr>))] \<and>
   last (last_seq (heap (snd (send_msg 20 ex_hash [ex_msg\<lparr>qnum := 1\<rparr>] False ex_state)) 2)) = 1"
proof -
  have a: "\<forall>m \<in> set [ex_msg\<lparr>qnum := 1\<rparr>]. int (length (queues (heap ex_state 2))) \<le> qnum m"
    by (simp add: ex_defs)
  have b: "0 < (20::nat) \<and> available_workers ex_state (role (ex_msg\<lparr>qnum := 1\<rparr>)) \<noteq> [] \<and>
    (2::nat) = available_workers ex_state (role (ex_msg\<lparr>qnum := 1\<rparr>)) !
          nat (ex_hash (ex_msg\<lparr>qnum := 1, fabric := self_fabric ex_state\<rparr>) mod
               int (length (available_workers ex_state (role (ex_msg\<lparr>qnum := 1\<rparr>))))) \<and>
    wf_worker (heap ex_state 2) \<and> queues (heap ex_state 2) \<noteq> [] \<and>
    int (length (queues (heap ex_state 2))) \<le> qnum (ex_msg\<lparr>qnum := 1\<rparr>) \<and>
    queue_stats ex_state ''total'' \<noteq> None \<and> redis_push_fail ex_state = []"
    by (simp add: ex_defs)
  note t1 = send_msg_direct_drops [where s = ex_state and r = 2 and ms = "[ex_msg\<lparr>qnum := 1\<rparr>]",
      THEN conjunct1, THEN mp, OF a]
  note t2 = send_msg_direct_drops [where s = ex_state and r = 2 and m = "ex_msg\<lparr>qnum := 1\<rparr>"
      and M = 20 and h = ex_hash, THEN conjunct2, THEN mp, OF b]
  have q: "last (queues (heap ex_state 2)) = ''w2_q0''" "redis_lists ex_state ''w2_q0'' = []"
    "self_fabric ex_state = ''fab1''" "last (last_seq (heap ex_state 2)) = 0"
    "length (queues (heap ex_state 2)) - 1 = 0" "worker_id (heap ex_state 2) = ''w2''"
    "logged ex_state = []"
    by (simp_all add: ex_defs)
  show ?thesis using t1 t2 unfolding q by simp
qed


text \<open>The collaborators of that fabric: a parser, a controller and a store that answer.\<close>

definition ex_delete_event :: "string \<Rightarrow> int \<Rightarrow> int \<Rightarrow> string \<Rightarrow> real \<Rightarrow> eptMsgWork option" where
  "ex_delete_event c n v a t =
     Some ((mk_eptMsgWork (AddrStr a) (Some ''worker'') (EpmData c n v a)
              (if c = ''epmMacEp'' then EPM_MAC_EVENT
               else if c = ''epmIpEp'' then EPM_IP_EVENT else EPM_RS_IP_EVENT) 0)
             \<lparr>vnid := v, node := n, ts := t, status := ''deleted''\<rparr>)"

definition ex_parse :: "string \<Rightarrow> attr_t \<Rightarrow> real \<Rightarrow> eptMsgWork option" where
  "ex_parse c attr t =
     (case map_of (a_kv attr) ''addr'' of
        None \<Rightarrow> None
      | Some a \<Rightarrow>
          Some ((mk_eptMsgWork (AddrStr a) (Some ''worker'') (EpmData c 101 14680065 a) EPM_IP_EVENT 0)
                  \<lparr>vnid := 14680065, node := 101, ts := t, status := ''created''\<rparr>))"

definition ex_doc :: doc where
  "ex_doc = \<lparr>d_fabric = ''fab1'', d_name = ''leaf101'', d_role = ''leaf'', h_node = 101,
             h_vnid = 0, h_addr = [], h_type = [], h_events = [], body = []\<rparr>"

definition ex_env :: env where
  "ex_env =
     \<lparr>MAX_SEND_MSG_LENGTH = 20, MAX_EPM_BUILD_TIME = 3600, get_msg_hash = ex_hash,
      epm_parse = ex_parse, get_delete_event = ex_delete_event,
      get_class = (\<lambda>c. Some [[(''id'', ''101'')]]),
      get_class_stream = (\<lambda>c. Some ([[(''id'', ''101'')]], False)),
      get_attributes = (\<lambda>dn. None),
      query_endpoint = (\<lambda>t a. Some []),
      project = (\<lambda>c cls a. Some ex_doc),
      node_overlay = (\<lambda>ds. ([], ds)),
      tunnel_remote = (\<lambda>ns tunnels. ([], [])),
      mo_query = (\<lambda>c. Inr []),
      bulk_merge = (\<lambda>objs old. old @ objs),
      fabric_node_dn = (\<lambda>dn. None),
      str_of_real = (\<lambda>x. ''3600.0''),
      str_of_int = (\<lambda>i. ''101'')\<rparr>"

text \<open>The endpoint history of the spec's scenario: a MAC and an IP endpoint on node 101.\<close>

definition ex_mac :: doc where
  "ex_mac = \<lparr>d_fabric = ''fab1'', d_name = [], d_role = [], h_node = 101, h_vnid = 14680065,
             h_addr = ''aa:bb:cc:dd:ee:01'', h_type = ''mac'', h_events = [''created''], body = []\<rparr>"

definition ex_ip :: doc where
  "ex_ip = \<lparr>d_fabric = ''fab1'', d_name = [], d_role = [], h_node = 101, h_vnid = 14680065,
            h_addr = ''10.1.1.2'', h_type = ''ip'', h_events = [''created''], body = []\<rparr>"

definition ex_endpoints :: present_t where
  "ex_endpoints = [101 \<mapsto> [14680065 \<mapsto> [AddrStr ''aa:bb:cc:dd:ee:01'' \<mapsto> 1]]]"

theorem events_dropped_while_initializing_witness:
  "std_mo_event_queue (handle_event ex_env 0 [(''fabricProtPol'', Some [(''pairT'', ''explicit'')])]
      (ex_state\<lparr>initializing := True, epm_initializing := True\<rparr>)) = [] \<and>
   redis_published (handle_event ex_env 0 [(''fabricProtPol'', Some [(''pairT'', ''explicit'')])]
      (ex_state\<lparr>initializing := True, epm_initializing := True\<rparr>)) = [] \<and>
   std_mo_event_queue (handle_std_mo_event 0 [(''fvBD'', Some [(''dn'', ''uni/tn-a/BD-b''), (''status'', ''modified'')])]
      (ex_state\<lparr>initializing := True, epm_initializing := True\<rparr>)) = [] \<and>
   epm_event_queue (handle_epm_event ex_env 0 [(''epmIpEp'', Some [(''addr'', ''10.1.1.2'')])]
      (ex_state\<lparr>initializing := True, epm_initializing := True\<rparr>)) = []"
proof -
  let ?s = "ex_state\<lparr>initializing := True, epm_initializing := True\<rparr>"
  have a: "initializing ?s \<and> \<not> stopped ?s" "epm_initializing ?s \<and> \<not> stopped ?s"
    by (simp_all add: ex_state_def)
  note t1 = events_dropped_while_initializing [where s = ?s and env = ex_env and now = 0
      and ev = "[(''fabricProtPol'', Some [(''pairT'', ''explicit'')])]", THEN conjunct1, THEN mp, OF a(1)]
  note t2 = events_dropped_while_initializing [where s = ?s and env = ex_env and now = 0
      and ev = "[(''fvBD'', Some [(''dn'', ''uni/tn-a/BD-b''), (''status'', ''modified'')])]",
      THEN conjunct1, THEN mp, OF a(1)]
  note t3 = events_dropped_while_initializing [where s = ?s and env = ex_env and now = 0
      and ev = "[(''epmIpEp'', Some [(''addr'', ''10.1.1.2'')])]", THEN conjunct2, THEN mp, OF a(2)]
  have q: "std_mo_event_queue ?s = []" "epm_event_queue ?s = []" "redis_published ?s = []"
    by (simp_all add: ex_state_def)
  show ?thesis using t1 t2 t3 q by (simp add: logger_def)
qed

text \<open>
  C3 as stated fails for EPM events: during a soft restart \<open>initializing\<close> is set while
  \<open>epm_initializing\<close> is not, and \<^verbatim>\<open>handle_epm_event\<close> puts the parsed event on the queue.
\<close>

theorem epm_event_queued_while_initializing:
  "initializing (ex_state\<lparr>initializing := True\<rparr>) \<and> \<not> stopped (ex_state\<lparr>initializing := True\<rparr>) \<and>
   epm_event_queue (handle_epm_event ex_env 0 [(''epmIpEp'', Some [(''addr'', ''10.1.1.2'')])]
      (ex_state\<lparr>initializing := True\<rparr>)) \<noteq> epm_event_queue (ex_state\<lparr>initializing := True\<rparr>)"
  by (simp add: ex_state_def handle_epm_event_def ex_env_def ex_parse_def)

theorem fabric_prot_pol_restart_witness:
  "stopped (snd (handle_fabric_prot_pol ''fabricProtPol'' \<lparr>a_kv = [(''pairT'', ''explicit'')], a_ts = Some 0\<rparr> ex_state)) \<and>
   redis_published (snd (handle_fabric_prot_pol ''fabricProtPol'' \<lparr>a_kv = [(''pairT'', ''explicit'')], a_ts = Some 0\<rparr> ex_state)) =
     [(MANAGER_CTRL_CHANNEL,
       MsgFabricRestart ''fab1'' ''restarting: fabricProtPol changed from reciprocal to explicit'')] \<and>
   redis_published (snd (handle_fabric_prot_pol ''fabricProtPol'' \<lparr>a_kv = [(''pairT'', ''reciprocal'')], a_ts = Some 0\<rparr> ex_state)) = [] \<and>
   \<not> stopped (snd (handle_fabric_prot_pol ''fabricProtPol'' \<lparr>a_kv = [(''pairT'', ''reciprocal'')], a_ts = Some 0\<rparr> ex_state)) \<and>
   handle_fabric_prot_pol ''fabricProtPol'' \<lparr>a_kv = [], a_ts = Some 0\<rparr> ex_state = (Some (KeyError ''pairT''), ex_state) \<and>
   redis_published (handle_event ex_env 0 [(''fabricProtPol'', Some [])] ex_state) = [] \<and>
   \<not> stopped (handle_event ex_env 0 [(''fabricProtPol'', Some [])] ex_state)"
proof -
  have a: "map_of (a_kv \<lparr>a_kv = [(''pairT'', ''explicit'')], a_ts = Some 0\<rparr>) ''pairT'' = Some ''explicit'' \<and>
           ''explicit'' \<noteq> vpc_pair_type (settings ex_state)"
    by (simp add: ex_state_def ex_settings_def)
  have b: "map_of (a_kv \<lparr>a_kv = [(''pairT'', ''reciprocal'')], a_ts = Some 0\<rparr>) ''pairT'' =
           Some (vpc_pair_type (settings ex_state))"
    by (simp add: ex_state_def ex_settings_def)
  have c: "map_of (a_kv \<lparr>a_kv = [], a_ts = Some (0::real)\<rparr>) ''pairT'' = None" by simp
  have d: "map_of ([] :: attrs) ''pairT'' = None \<and> \<not> stopped ex_state \<and> \<not> initializing ex_state"
    by (simp add: ex_state_def)
  note t1 = fabric_prot_pol_restart [where s = ex_state and classname = "''fabricProtPol''"
      and attr = "\<lparr>a_kv = [(''pairT'', ''explicit'')], a_ts = Some 0\<rparr>" and pt = "''explicit''",
      THEN conjunct1, THEN mp, OF a]
  note t2 = fabric_prot_pol_restart [where s = ex_state and classname = "''fabricProtPol''"
      and attr = "\<lparr>a_kv = [(''pairT'', ''reciprocal'')], a_ts = Some 0\<rparr>",
      THEN conjunct2, THEN conjunct1, THEN mp, OF b]
  note t3 = fabric_prot_pol_restart [where s = ex_state and classname = "''fabricProtPol''"
      and attr = "\<lparr>a_kv = [], a_ts = Some 0\<rparr>",
      THEN conjunct2, THEN conjunct2, THEN conjunct1, THEN mp, OF c]
  note t4 = fabric_prot_pol_restart [where s = ex_state and kv = "[]" and env = ex_env and now = 0,
      THEN conjunct2, THEN conjunct2, THEN conjunct2, THEN mp, OF d]
  have q: "redis_published ex_state = []" "stopped ex_state = False" "self_fabric ex_state = ''fab1''"
    "vpc_pair_type (settings ex_state) = ''reciprocal''"
    by (simp_all add: ex_state_def ex_settings_def)
  show ?thesis using t1 t2 t3 t4 unfolding q by simp
qed

theorem epm_delete_msgs_per_entry_witness:
  "get_epm_delete_msgs ex_env 0 ex_endpoints None None
     (ex_state\<lparr>db := (db ex_state)(eptHistory := [ex_mac, ex_ip])\<rparr>) =
   [the (ex_delete_event ''epmRsMacEpToIpEpAtt'' 101 14680065 ''10.1.1.2'' 0),
    the (ex_delete_event ''epmIpEp'' 101 14680065 ''10.1.1.2'' 0)]"
proof -
  let ?s = "ex_state\<lparr>db := (db ex_state)(eptHistory := [ex_mac, ex_ip])\<rparr>"
  let ?d1 = "the (ex_delete_event ''epmRsMacEpToIpEpAtt'' 101 14680065 ''10.1.1.2'' 0)"
  let ?d2 = "the (ex_delete_event ''epmIpEp'' 101 14680065 ''10.1.1.2'' 0)"
  let ?m1 = "the (ex_delete_event ''epmMacEp'' 101 14680065 ''aa:bb:cc:dd:ee:01'' 0)"
  have a: "db ?s eptHistory = [ex_mac] @ ex_ip # []" by simp
  have b: "in_endpoints ex_endpoints ex_mac"
    by (simp add: in_endpoints_def ex_endpoints_def ex_mac_def)
  have c: "\<not> in_endpoints ex_endpoints ex_ip \<and> h_type ex_ip \<noteq> ''mac'' \<and>
    get_delete_event ex_env ''epmRsMacEpToIpEpAtt'' (h_node ex_ip) (h_vnid ex_ip) (h_addr ex_ip) 0 = Some ?d1 \<and>
    get_delete_event ex_env ''epmIpEp'' (h_node ex_ip) (h_vnid ex_ip) (h_addr ex_ip) 0 = Some ?d2"
    by (simp add: in_endpoints_def ex_endpoints_def ex_ip_def ex_env_def ex_delete_event_def)
  have d: "\<not> in_endpoints Map.empty ex_mac \<and> h_type ex_mac = ''mac'' \<and>
    get_delete_event ex_env ''epmMacEp'' (h_node ex_mac) (h_vnid ex_mac) (h_addr ex_mac) 0 = Some ?m1"
    by (simp add: in_endpoints_def ex_mac_def ex_env_def ex_delete_event_def)
  note t1 = epm_delete_msgs_per_entry [where s = ?s and pre = "[ex_mac]" and obj = ex_ip and post = "[]"
      and env = ex_env and now = 0 and endpoints = ex_endpoints and addr_arg = None and vnid_arg = None,
      THEN conjunct1, THEN mp, OF a]
  note t2 = epm_delete_msgs_per_entry [where obj = ex_mac and env = ex_env and now = 0
      and endpoints = ex_endpoints, THEN conjunct2, THEN conjunct1, THEN mp, OF b]
  note t3 = epm_delete_msgs_per_entry [where obj = ex_ip and env = ex_env and now = 0
      and endpoints = ex_endpoints and ma = ?d1 and mb = ?d2,
      THEN conjunct2, THEN conjunct2, THEN conjunct2, THEN mp, OF c]
  note t4 = epm_delete_msgs_per_entry [where obj = ex_mac and env = ex_env and now = 0
      and endpoints = Map.empty and ma = ?m1,
      THEN conjunct2, THEN conjunct2, THEN conjunct1, THEN mp, OF d]
  have f: "history_flt ex_state None None ex_ip" "history_flt ex_state None None ex_mac"
    by (simp_all add: history_flt_def ex_state_def ex_ip_def ex_mac_def)
  have g: "length (delete_msgs_of ex_env 0 Map.empty ex_mac) = 1" using t4 by simp
  show ?thesis
    using t1 t2 t3 f g by (simp add: get_epm_delete_msgs_def)
qed

text \<open>
  The scenario of the spec: two \<^verbatim>\<open>fabricAutoGEp\<close> events with the time stamps 100 then
  99, on the subscriber as \<^verbatim>\<open>__init__\<close> leaves the field (0). Both start a soft restart.
\<close>

definition ex_gep :: "real \<Rightarrow> attr_t" where
  "ex_gep t = \<lparr>a_kv = [(''dn'', ''uni/fabric/protpol/expgep-vpc1'')], a_ts = Some t\<rparr>"

theorem soft_restart_not_deduplicated_witness:
  "prefix [(''soft-reset'', ''(fabricAutoGEp) vpc domain update''),
           (''re-initializing'', ''building node db'')]
     (fabric_events (snd (handle_fabric_group_ep ex_env ''fabricAutoGEp'' (ex_gep 100) ex_state))) \<and>
   prefix (fabric_events (snd (handle_fabric_group_ep ex_env ''fabricAutoGEp'' (ex_gep 100) ex_state)) @
             [(''soft-reset'', ''(fabricAutoGEp) vpc domain update''),
              (''re-initializing'', ''building node db'')])
     (fabric_events (snd (handle_fabric_group_ep ex_env ''fabricAutoGEp'' (ex_gep 99)
        (snd (handle_fabric_group_ep ex_env ''fabricAutoGEp'' (ex_gep 100) ex_state))))) \<and>
   fabric_events (snd (handle_fabric_group_ep ex_env ''fabricAutoGEp'' (ex_gep (- 1)) ex_state)) = []"
proof -
  have h: "a_ts (ex_gep 100) = Some 100 \<and> a_ts (ex_gep 99) = Some 99 \<and> (99::real) < 100 \<and>
           soft_restart_ts ex_state \<le> 99"
    by (simp add: ex_gep_def ex_state_def)
  have g: "a_ts (ex_gep (- 1)) = Some (- 1) \<and> soft_restart_ts ex_state > - 1"
    by (simp add: ex_gep_def ex_state_def)
  have e: "fabric_events ex_state = []" by (simp add: ex_state_def)
  note t1 = soft_restart_not_deduplicated [where s = ex_state and env = ex_env
      and c = "''fabricAutoGEp''" and c' = "''fabricAutoGEp''" and a = "ex_gep 100" and a' = "ex_gep 99"
      and ?t1.0 = 100 and ?t2.0 = 99,
      THEN conjunct2, THEN conjunct2, THEN conjunct1, THEN mp, OF h]
  note t2 = soft_restart_not_deduplicated [where s = ex_state and env = ex_env
      and c = "''fabricAutoGEp''" and a = "ex_gep (- 1)" and t = "- 1",
      THEN conjunct2, THEN conjunct2, THEN conjunct2, THEN mp, OF g]
  show ?thesis using t1 t2 unfolding e by simp
qed

end
